(* ===== verification/Prelude.thy ===== *)
theory Prelude
  imports Main "HOL-Library.Word" "HOL-Library.Multiset"
begin

text \<open>
  What the components share: the collections of simplification rules, the outcome of a handler
  that can panic, Go's slice operations as list functions, and the wrap-around of a 64 bit
  signed integer.
\<close>

named_theorems state_simps
  \<open>equations of the state-changing operations, to compute with them\<close>
named_theorems frame_simps
  \<open>the parts of the state an operation leaves as they were\<close>

subsection \<open>Outcomes\<close>

text \<open>
  A Go handler returns or panics (nil dereference, index out of range). The state it had changed
  before the panic stays changed, so outcomes carry no state: it is returned beside them.
\<close>

datatype 'a outcome = Returned 'a | Panicked

fun is_returned :: "'a outcome \<Rightarrow> bool" where
  "is_returned (Returned _) = True"
| "is_returned Panicked = False"

lemma is_returned_iff: "is_returned r \<longleftrightarrow> (\<exists>x. r = Returned x)"
  by (cases r) auto

subsection \<open>64 bit signed integers\<close>

text \<open>
  Timestamps are \<open>int64\<close>. They are modelled as \<open>int\<close>; where the code computes with
  them the result is brought back into range.
\<close>

definition int64 :: "int \<Rightarrow> int" where
  "int64 x = (x + 2 ^ 63) mod 2 ^ 64 - 2 ^ 63"

definition in_int64 :: "int \<Rightarrow> bool" where
  "in_int64 x \<longleftrightarrow> - (2 ^ 63) \<le> x \<and> x < 2 ^ 63"

lemma int64_id: "in_int64 x \<Longrightarrow> int64 x = x"
  by (simp add: int64_def in_int64_def)

lemma in_int64_int64: "in_int64 (int64 x)"
  by (simp add: int64_def in_int64_def)

subsection \<open>Slices\<close>

text \<open>\<open>slices.Index\<close> and \<open>slices.IndexFunc\<close>: the first position, or none (Go: -1).\<close>

fun index_func :: "('a \<Rightarrow> bool) \<Rightarrow> 'a list \<Rightarrow> nat option" where
  "index_func p [] = None"
| "index_func p (x # xs) = (if p x then Some 0 else map_option Suc (index_func p xs))"

definition slice_index :: "'a list \<Rightarrow> 'a \<Rightarrow> nat option" where
  "slice_index xs x = index_func (\<lambda>y. y = x) xs"

lemma index_func_None [simp]: "index_func p xs = None \<longleftrightarrow> (\<forall>x \<in> set xs. \<not> p x)"
  by (induction xs) auto

lemma index_func_SomeD:
  "index_func p xs = Some i \<Longrightarrow> i < length xs \<and> p (xs ! i) \<and> (\<forall>j < i. \<not> p (xs ! j))"
proof (induction xs arbitrary: i)
  case Nil
  then show ?case by simp
next
  case (Cons x xs)
  then show ?case
    by (auto simp: less_Suc_eq_0_disj split: if_splits)
qed

lemma slice_index_None [simp]: "slice_index xs x = None \<longleftrightarrow> x \<notin> set xs"
  by (auto simp: slice_index_def)

lemma slice_index_SomeD: "slice_index xs x = Some i \<Longrightarrow> i < length xs \<and> xs ! i = x"
  unfolding slice_index_def by (drule index_func_SomeD) simp

text \<open>\<open>slices.Delete(xs, i, i+1)\<close>.\<close>

definition slice_delete :: "'a list \<Rightarrow> nat \<Rightarrow> 'a list" where
  "slice_delete xs i = take i xs @ drop (Suc i) xs"

lemma mset_slice_delete: "i < length xs \<Longrightarrow> mset (slice_delete xs i) = mset xs - {#xs ! i#}"
  unfolding slice_delete_def
  by (subst id_take_nth_drop [of i xs]) (simp_all add: min_def)

lemma slice_delete_first:
  "slice_index xs x = Some i \<Longrightarrow> slice_delete xs i = remove1 x xs"
proof (induction xs arbitrary: i)
  case Nil
  then show ?case by (simp add: slice_index_def)
next
  case (Cons y ys)
  then show ?case
    by (auto simp: slice_index_def slice_delete_def split: if_splits)
qed

text \<open>Exchange of two positions, \<open>xs[i], xs[j] = xs[j], xs[i]\<close>.\<close>

definition slice_swap :: "'a list \<Rightarrow> nat \<Rightarrow> nat \<Rightarrow> 'a list" where
  "slice_swap xs i j = xs[i := xs ! j, j := xs ! i]"

lemma length_slice_swap [simp]: "length (slice_swap xs i j) = length xs"
  by (simp add: slice_swap_def)

lemma mset_slice_swap [simp]:
  "i < length xs \<Longrightarrow> j < length xs \<Longrightarrow> mset (slice_swap xs i j) = mset xs"
  by (simp add: slice_swap_def mset_swap)

text \<open>\<open>nostr.AppendUnique\<close> with one new element.\<close>

definition append_unique :: "'a list \<Rightarrow> 'a \<Rightarrow> 'a list" where
  "append_unique xs x = (if x \<in> set xs then xs else xs @ [x])"

lemma set_append_unique [simp]: "set (append_unique xs x) = insert x (set xs)"
  by (auto simp: append_unique_def)

lemma distinct_append_unique [simp]: "distinct (append_unique xs x) = distinct xs"
  by (auto simp: append_unique_def)

subsection \<open>Iteration over a Go map\<close>

text \<open>
  The order in which \<open>range\<close> visits a map is not determined. A loop over a map takes the
  order as an argument: any list that holds every key once.
\<close>

definition enumerates :: "'k list \<Rightarrow> ('k \<rightharpoonup> 'v) \<Rightarrow> bool" where
  "enumerates ord m \<longleftrightarrow> distinct ord \<and> set ord = dom m"

lemma enumerates_memD: "enumerates ord m \<Longrightarrow> k \<in> set ord \<longleftrightarrow> (\<exists>v. m k = Some v)"
  by (auto simp: enumerates_def)

subsection \<open>Decimal numbers\<close>

text \<open>\<open>strconv.Itoa\<close> of a number that is not negative, \<open>strconv.ParseUint(s, 10, 16)\<close>.\<close>

fun itoa :: "nat \<Rightarrow> string" where
  "itoa n = (if n < 10 then [char_of (48 + n)] else itoa (n div 10) @ [char_of (48 + n mod 10)])"

declare itoa.simps [simp del]

definition is_digit :: "char \<Rightarrow> bool" where
  "is_digit c \<longleftrightarrow> 48 \<le> (of_char c :: nat) \<and> (of_char c :: nat) \<le> 57"

definition dec_value :: "string \<Rightarrow> nat" where
  "dec_value s = foldl (\<lambda>a c. 10 * a + (of_char c - 48)) 0 s"

definition parse_uint16 :: "string \<Rightarrow> 16 word option" where
  "parse_uint16 s =
     (if s = [] \<or> \<not> list_all is_digit s then None
      else if dec_value s < 65536 then Some (word_of_nat (dec_value s)) else None)"

lemma itoa_digits: "list_all is_digit (itoa n) \<and> itoa n \<noteq> [] \<and> dec_value (itoa n) = n"
proof (induction n rule: itoa.induct)
  case (1 n)
  have d: "of_char (char_of (48 + k) :: char) = 48 + k" "is_digit (char_of (48 + k))"
    if "k < 10" for k :: nat
    using that by (simp_all add: is_digit_def)
  show ?case
  proof (cases "n < 10")
    case True
    with d [OF True] show ?thesis
      by (subst (1 2 3) itoa.simps) (simp add: dec_value_def)
  next
    case False
    have "n mod 10 < 10" by simp
    with False "1.IH" d [OF this] show ?thesis
      by (subst (1 2 3) itoa.simps) (simp add: dec_value_def)
  qed
qed

lemma parse_uint16_itoa: "parse_uint16 (itoa (unat w)) = Some w" for w :: "16 word"
  using itoa_digits [of "unat w"] unsigned_less [of w]
  by (simp add: parse_uint16_def)

subsection \<open>Binary search\<close>

text \<open>
  \<open>slices.BinarySearchFunc\<close>: the loop halves \<open>[i, j)\<close>, asking of the middle element whether it
  is below the target (\<open>p\<close>). On a slice whose elements below the target come first the result is
  the number of these elements.
\<close>

function bsearch :: "('a \<Rightarrow> bool) \<Rightarrow> 'a list \<Rightarrow> nat \<Rightarrow> nat \<Rightarrow> nat" where
  "bsearch p xs i j =
     (if i < j then
        (let h = (i + j) div 2 in if p (xs ! h) then bsearch p xs (Suc h) j else bsearch p xs i h)
      else i)"
  by pat_completeness auto
termination
  by (relation "measure (\<lambda>(p, xs, i, j). j - i)") auto

declare bsearch.simps [simp del]

definition partitioned :: "('a \<Rightarrow> bool) \<Rightarrow> 'a list \<Rightarrow> bool" where
  "partitioned p xs \<longleftrightarrow> (\<forall>a b. a \<le> b \<longrightarrow> b < length xs \<longrightarrow> p (xs ! b) \<longrightarrow> p (xs ! a))"

definition holds_below :: "('a \<Rightarrow> bool) \<Rightarrow> 'a list \<Rightarrow> nat \<Rightarrow> bool" where
  "holds_below p xs i \<longleftrightarrow> (\<forall>k < i. p (xs ! k))"

definition fails_from :: "('a \<Rightarrow> bool) \<Rightarrow> 'a list \<Rightarrow> nat \<Rightarrow> bool" where
  "fails_from p xs j \<longleftrightarrow> (\<forall>k. j \<le> k \<longrightarrow> k < length xs \<longrightarrow> \<not> p (xs ! k))"

lemma holds_below_Suc:
  "partitioned p xs \<Longrightarrow> h < length xs \<Longrightarrow> p (xs ! h) \<Longrightarrow> holds_below p xs (Suc h)"
  unfolding holds_below_def partitioned_def by (meson less_Suc_eq_le)

lemma fails_from_here: "partitioned p xs \<Longrightarrow> \<not> p (xs ! h) \<Longrightarrow> fails_from p xs h"
  unfolding fails_from_def partitioned_def by blast

lemma bsearch_spec:
  "partitioned p xs \<Longrightarrow> i \<le> j \<Longrightarrow> j \<le> length xs \<Longrightarrow> holds_below p xs i \<Longrightarrow> fails_from p xs j \<Longrightarrow>
   bsearch p xs i j \<le> length xs \<and> holds_below p xs (bsearch p xs i j) \<and>
   fails_from p xs (bsearch p xs i j)"
proof (induction p xs i j rule: bsearch.induct)
  case (1 p xs i j)
  show ?case
  proof (cases "i < j")
    case False
    then have "bsearch p xs i j = i" by (simp add: bsearch.simps)
    with False "1.prems" show ?thesis by simp
  next
    case True
    let ?h = "(i + j) div 2"
    have h: "i \<le> ?h" "?h < j" using True by auto
    show ?thesis
    proof (cases "p (xs ! ?h)")
      case lt: True
      have "holds_below p xs (Suc ?h)"
        using "1.prems"(1,3) h(2) lt by (intro holds_below_Suc) auto
      moreover have "bsearch p xs i j = bsearch p xs (Suc ?h) j"
        by (subst bsearch.simps) (simp add: True lt)
      ultimately show ?thesis
        using "1.IH"(1) [OF True refl lt] "1.prems" h by simp
    next
      case ge: False
      have "fails_from p xs ?h"
        using "1.prems"(1) ge by (rule fails_from_here)
      moreover have "bsearch p xs i j = bsearch p xs i ?h"
        by (subst bsearch.simps) (simp add: True ge)
      ultimately show ?thesis
        using "1.IH"(2) [OF True refl ge] "1.prems" h by simp
    qed
  qed
qed

lemma length_takeWhile_unique:
  "i \<le> length xs \<Longrightarrow> (\<forall>k < i. p (xs ! k)) \<Longrightarrow> (i < length xs \<longrightarrow> \<not> p (xs ! i)) \<Longrightarrow>
   length (takeWhile p xs) = i"
proof (induction xs arbitrary: i)
  case Nil
  then show ?case by simp
next
  case (Cons x xs)
  show ?case
  proof (cases i)
    case 0
    with Cons.prems show ?thesis by simp
  next
    case (Suc j)
    have "p x" using Cons.prems(2) Suc by force
    moreover have "length (takeWhile p xs) = j"
      using Cons.prems Suc by (intro Cons.IH) auto
    ultimately show ?thesis using Suc by simp
  qed
qed

lemma bsearch_takeWhile:
  assumes "partitioned p xs"
  shows "bsearch p xs 0 (length xs) = length (takeWhile p xs)"
proof -
  have "bsearch p xs 0 (length xs) \<le> length xs \<and> holds_below p xs (bsearch p xs 0 (length xs)) \<and>
     fails_from p xs (bsearch p xs 0 (length xs))"
    by (rule bsearch_spec [OF assms]) (simp_all add: holds_below_def fails_from_def)
  then show ?thesis
    unfolding holds_below_def fails_from_def
    by (intro length_takeWhile_unique [symmetric]) auto
qed

definition binary_search :: "'a::linorder list \<Rightarrow> 'a \<Rightarrow> nat \<times> bool" where
  "binary_search xs t =
     (let i = bsearch (\<lambda>x. x < t) xs 0 (length xs) in (i, i < length xs \<and> xs ! i = t))"

lemma partitioned_sorted: "sorted xs \<Longrightarrow> partitioned (\<lambda>x. x < t) xs"
  unfolding partitioned_def by (meson le_less_trans sorted_nth_mono)

lemma sorted_takeWhile_mem:
  "sorted xs \<Longrightarrow> t \<in> set xs \<longleftrightarrow>
     length (takeWhile (\<lambda>x. x < t) xs) < length xs \<and>
     xs ! length (takeWhile (\<lambda>x. x < t) xs) = t"
  by (induction xs) auto

lemma binary_search_mem: "sorted xs \<Longrightarrow> snd (binary_search xs t) \<longleftrightarrow> t \<in> set xs"
  by (simp add: binary_search_def Let_def bsearch_takeWhile partitioned_sorted
      sorted_takeWhile_mem)

end
