(* ===== verification/Nostr.thy ===== *)
theory Nostr
  imports Prelude
begin

unbundle bit_operations_syntax

text \<open>
  The protocol data of \<^verbatim>\<open>vendor/fiatjaf.com/nostr\<close>: ids and keys with their hexadecimal form,
  tags and their lookups, events, kinds, filters and matching, signing.
  A \<open>[32]byte\<close> array is the 256 bit number of its bytes, most significant first.
\<close>

subsection \<open>Ids, keys and hexadecimal\<close>

type_synonym eid = "256 word"
type_synonym pubkey = "256 word"
type_synonym seckey = "256 word"
type_synonym timestamp = int
type_synonym kind = "16 word"
type_synonym tag = "string list"
type_synonym tags = "tag list"

definition hextable :: string where
  "hextable = ''0123456789abcdef''"

text \<open>The last \<open>k\<close> base 16 digits of a number, most significant first.\<close>

fun to_hex :: "nat \<Rightarrow> nat \<Rightarrow> string" where
  "to_hex 0 n = []"
| "to_hex (Suc k) n = to_hex k (n div 16) @ [hextable ! (n mod 16)]"

definition hex_of :: "256 word \<Rightarrow> string" where
  "hex_of w = to_hex 64 (unat w)"

definition from_hex_char :: "char \<Rightarrow> nat option" where
  "from_hex_char c =
     (let n = (of_char c :: nat) in
      if 48 \<le> n \<and> n \<le> 57 then Some (n - 48)
      else if 97 \<le> n \<and> n \<le> 102 then Some (n - 97 + 10)
      else if 65 \<le> n \<and> n \<le> 70 then Some (n - 65 + 10)
      else None)"

fun from_hex :: "nat \<Rightarrow> string \<Rightarrow> nat option" where
  "from_hex acc [] = Some acc"
| "from_hex acc (c # cs) =
     (case from_hex_char c of None \<Rightarrow> None | Some d \<Rightarrow> from_hex (16 * acc + d) cs)"

definition id_from_hex :: "string \<Rightarrow> eid option" where
  "id_from_hex s =
     (if length s \<noteq> 64 then None else map_option word_of_nat (from_hex 0 s))"

text \<open>
  \<open>PubKeyFromHex\<close> also asks the curve library whether the 32 bytes are the x coordinate of a
  point; that library is a parameter.
\<close>

definition pubkey_from_hex :: "(pubkey \<Rightarrow> bool) \<Rightarrow> string \<Rightarrow> pubkey option" where
  "pubkey_from_hex valid s =
     (case id_from_hex s of
        None \<Rightarrow> None
      | Some pk \<Rightarrow> if valid pk then Some pk else None)"

lemma length_to_hex [simp]: "length (to_hex k n) = k"
  by (induction k arbitrary: n) auto

lemma length_hex_of [simp]: "length (hex_of w) = 64"
  by (simp add: hex_of_def)

lemma from_hex_char_hextable: "n < 16 \<Longrightarrow> from_hex_char (hextable ! n) = Some n"
proof -
  have "list_all (\<lambda>n. from_hex_char (hextable ! n) = Some n) [0..<16]"
    by code_simp
  then show "n < 16 \<Longrightarrow> from_hex_char (hextable ! n) = Some n"
    by (simp add: list_all_iff)
qed

lemma from_hex_append:
  "from_hex acc (xs @ ys) =
     (case from_hex acc xs of None \<Rightarrow> None | Some a \<Rightarrow> from_hex a ys)"
  by (induction xs arbitrary: acc) (auto split: option.splits)

lemma from_hex_to_hex: "from_hex acc (to_hex k n) = Some (acc * 16 ^ k + n mod 16 ^ k)"
proof (induction k arbitrary: n acc)
  case 0
  then show ?case by simp
next
  case (Suc k)
  have "n mod 16 ^ Suc k = 16 * (n div 16 mod 16 ^ k) + n mod 16"
    by (metis mod_mult2_eq power_Suc)
  then show ?case
    by (simp add: from_hex_append Suc.IH from_hex_char_hextable algebra_simps)
qed

lemma id_from_hex_hex_of [simp]: "id_from_hex (hex_of w) = Some w"
proof -
  have "unat w < 16 ^ 64"
    using unsigned_less [of w] by simp
  then show ?thesis
    by (simp add: id_from_hex_def hex_of_def from_hex_to_hex)
qed

lemma hex_of_inject [simp]: "hex_of v = hex_of w \<longleftrightarrow> v = w"
  by (metis id_from_hex_hex_of option.inject)

lemma pubkey_from_hex_hex_of [simp]:
  "pubkey_from_hex valid (hex_of pk) = (if valid pk then Some pk else None)"
  by (simp add: pubkey_from_hex_def)

lemma pubkey_from_hex_valid: "pubkey_from_hex valid s = Some pk \<Longrightarrow> valid pk"
  by (auto simp: pubkey_from_hex_def split: option.splits if_splits)

subsection \<open>Tags\<close>

definition tag_is :: "string \<Rightarrow> tag \<Rightarrow> bool" where
  "tag_is key v \<longleftrightarrow> 2 \<le> length v \<and> v ! 0 = key"

text \<open>\<open>Tags.Find\<close>, \<open>Tags.FindAll\<close>, \<open>Tags.Has\<close>, \<open>Tags.GetD\<close>, \<open>Tags.ContainsAny\<close>,
  \<open>Tags.FindWithValue\<close>.\<close>

definition tags_find :: "tags \<Rightarrow> string \<Rightarrow> tag option" where
  "tags_find ts key = find (tag_is key) ts"

definition tags_find_all :: "tags \<Rightarrow> string \<Rightarrow> tag list" where
  "tags_find_all ts key = filter (tag_is key) ts"

definition tags_has :: "tags \<Rightarrow> string \<Rightarrow> bool" where
  "tags_has ts key \<longleftrightarrow> (\<exists>v \<in> set ts. 1 \<le> length v \<and> v ! 0 = key)"

definition tags_get_d :: "tags \<Rightarrow> string" where
  "tags_get_d ts = (case tags_find ts ''d'' of Some v \<Rightarrow> v ! 1 | None \<Rightarrow> [])"

fun tags_contains_any :: "tags \<Rightarrow> string \<Rightarrow> string list \<Rightarrow> bool" where
  "tags_contains_any [] name vals = False"
| "tags_contains_any (t # ts) name vals =
     (if length t < 2 then tags_contains_any ts name vals
      else if t ! 0 \<noteq> name then tags_contains_any ts name vals
      else if t ! 1 \<in> set vals then True
      else tags_contains_any ts name vals)"

definition find_with_value :: "tags \<Rightarrow> string \<Rightarrow> string \<Rightarrow> tag option" where
  "find_with_value ts key v = find (\<lambda>t. 2 \<le> length t \<and> t ! 1 = v \<and> t ! 0 = key) ts"

lemma tags_find_Some:
  "tags_find ts key = Some v \<Longrightarrow> v \<in> set ts \<and> 2 \<le> length v \<and> v ! 0 = key"
  by (auto simp: tags_find_def tag_is_def find_Some_iff)

lemma tags_find_None: "tags_find ts key = None \<longleftrightarrow> (\<forall>v \<in> set ts. \<not> tag_is key v)"
  by (auto simp: tags_find_def find_None_iff)

lemma tags_find_all_mem:
  "v \<in> set (tags_find_all ts key) \<Longrightarrow> v \<in> set ts \<and> 2 \<le> length v \<and> v ! 0 = key"
  by (auto simp: tags_find_all_def tag_is_def)

lemma tags_contains_any_iff:
  "tags_contains_any ts name vals \<longleftrightarrow> (\<exists>t \<in> set ts. tag_is name t \<and> t ! 1 \<in> set vals)"
  by (induction ts) (auto simp: tag_is_def)

lemma tags_find_Cons [simp]:
  "tags_find (t # ts) key = (if tag_is key t then Some t else tags_find ts key)"
  by (simp add: tags_find_def)

lemma tags_find_Nil [simp]: "tags_find [] key = None"
  by (simp add: tags_find_def)

lemma tag_is_Cons [simp]: "tag_is key (k # vs) \<longleftrightarrow> vs \<noteq> [] \<and> k = key"
  by (cases vs) (auto simp: tag_is_def)

lemma tags_find_all_Cons [simp]:
  "tags_find_all (t # ts) key = (if tag_is key t then t # tags_find_all ts key else tags_find_all ts key)"
  by (simp add: tags_find_all_def)

lemma tags_find_all_Nil [simp]: "tags_find_all [] key = []"
  by (simp add: tags_find_all_def)

subsection \<open>Kinds\<close>

abbreviation kProfileMetadata :: kind where "kProfileMetadata \<equiv> 0"
abbreviation kGiftWrap :: kind where "kGiftWrap \<equiv> 1059"
abbreviation kPutUser :: kind where "kPutUser \<equiv> 9000"
abbreviation kRemoveUser :: kind where "kRemoveUser \<equiv> 9001"
abbreviation kEditMetadata :: kind where "kEditMetadata \<equiv> 9002"
abbreviation kDeleteEvent :: kind where "kDeleteEvent \<equiv> 9005"
abbreviation kCreateGroup :: kind where "kCreateGroup \<equiv> 9007"
abbreviation kDeleteGroup :: kind where "kDeleteGroup \<equiv> 9008"
abbreviation kCreateInvite :: kind where "kCreateInvite \<equiv> 9009"
abbreviation kJoinRequest :: kind where "kJoinRequest \<equiv> 9021"
abbreviation kLeaveRequest :: kind where "kLeaveRequest \<equiv> 9022"
abbreviation kGroupMetadata :: kind where "kGroupMetadata \<equiv> 39000"
abbreviation kGroupAdmins :: kind where "kGroupAdmins \<equiv> 39001"
abbreviation kGroupMembers :: kind where "kGroupMembers \<equiv> 39002"
abbreviation kGroupRoles :: kind where "kGroupRoles \<equiv> 39003"
abbreviation kGroupLiveKit :: kind where "kGroupLiveKit \<equiv> 39004"

definition is_regular :: "kind \<Rightarrow> bool" where
  "is_regular k \<longleftrightarrow> k < 10000 \<and> k \<noteq> 0 \<and> k \<noteq> 3"

definition is_replaceable :: "kind \<Rightarrow> bool" where
  "is_replaceable k \<longleftrightarrow> k = 0 \<or> k = 3 \<or> (10000 \<le> k \<and> k < 20000)"

definition is_ephemeral :: "kind \<Rightarrow> bool" where
  "is_ephemeral k \<longleftrightarrow> 20000 \<le> k \<and> k < 30000"

definition is_addressable :: "kind \<Rightarrow> bool" where
  "is_addressable k \<longleftrightarrow> 30000 \<le> k \<and> k < 40000"

subsection \<open>Events and signing\<close>

record event =
  ev_id :: eid
  ev_pubkey :: pubkey
  ev_created_at :: timestamp
  ev_kind :: kind
  ev_tags :: tags
  ev_content :: string
  ev_sig :: "512 word"

definition zero_event :: event where
  "zero_event = \<lparr>ev_id = 0, ev_pubkey = 0, ev_created_at = 0, ev_kind = 0, ev_tags = [],
     ev_content = [], ev_sig = 0\<rparr>"

text \<open>
  The cryptography the code calls: the public key of a secret key, the hash of the serialised
  event, the Schnorr signature (which can fail), and the check that a number is a curve point.
\<close>

record crypto =
  cr_public :: "seckey \<Rightarrow> pubkey"
  cr_hash :: "event \<Rightarrow> eid"
  cr_sign :: "seckey \<Rightarrow> eid \<Rightarrow> 512 word option"
  cr_valid :: "pubkey \<Rightarrow> bool"

text \<open>
  \<open>Event.Sign\<close>: sets the author and the id before it signs; on an error the event keeps
  these two. The boolean says whether signing succeeded.
\<close>

definition event_sign :: "crypto \<Rightarrow> seckey \<Rightarrow> event \<Rightarrow> event \<times> bool" where
  "event_sign c sk e =
     (let e1 = e\<lparr>ev_pubkey := cr_public c sk\<rparr>;
          e2 = e1\<lparr>ev_id := cr_hash c e1\<rparr>
      in case cr_sign c sk (ev_id e2) of
           None \<Rightarrow> (e2, False)
         | Some sig \<Rightarrow> (e2\<lparr>ev_sig := sig\<rparr>, True))"

lemma event_sign_keeps [simp]:
  "ev_kind (fst (event_sign c sk e)) = ev_kind e"
  "ev_tags (fst (event_sign c sk e)) = ev_tags e"
  "ev_created_at (fst (event_sign c sk e)) = ev_created_at e"
  "ev_content (fst (event_sign c sk e)) = ev_content e"
  "ev_pubkey (fst (event_sign c sk e)) = cr_public c sk"
  by (auto simp: event_sign_def Let_def split: option.splits)

subsection \<open>Filters\<close>

text \<open>A nil slice is \<open>None\<close>; the tag map is an association list with distinct keys.\<close>

record nfilter =
  f_ids :: "eid list option"
  f_kinds :: "kind list option"
  f_authors :: "pubkey list option"
  f_tags :: "(string \<times> string list) list"
  f_since :: timestamp
  f_until :: timestamp
  f_limit :: int
  f_search :: string
  f_limit_zero :: bool

definition empty_filter :: nfilter where
  "empty_filter = \<lparr>f_ids = None, f_kinds = None, f_authors = None, f_tags = [], f_since = 0,
     f_until = 0, f_limit = 0, f_search = [], f_limit_zero = False\<rparr>"

definition in_opt :: "'a \<Rightarrow> 'a list option \<Rightarrow> bool" where
  "in_opt x xs \<longleftrightarrow> (case xs of None \<Rightarrow> True | Some l \<Rightarrow> x \<in> set l)"

definition matches_ignoring_timestamps :: "nfilter \<Rightarrow> event \<Rightarrow> bool" where
  "matches_ignoring_timestamps f e \<longleftrightarrow>
     in_opt (ev_id e) (f_ids f) \<and> in_opt (ev_kind e) (f_kinds f) \<and>
     in_opt (ev_pubkey e) (f_authors f) \<and>
     list_all (\<lambda>(k, vs). tags_contains_any (ev_tags e) k vs) (f_tags f)"

definition filter_matches :: "nfilter \<Rightarrow> event \<Rightarrow> bool" where
  "filter_matches f e \<longleftrightarrow>
     matches_ignoring_timestamps f e \<and>
     \<not> (f_since f \<noteq> 0 \<and> ev_created_at e < f_since f) \<and>
     \<not> (f_until f \<noteq> 0 \<and> f_until f < ev_created_at e)"

definition opt_len :: "'a list option \<Rightarrow> nat" where
  "opt_len xs = (case xs of None \<Rightarrow> 0 | Some l \<Rightarrow> length l)"

definition tag_values :: "nfilter \<Rightarrow> string \<Rightarrow> string list option" where
  "tag_values f key = map_of (f_tags f) key"

text \<open>\<open>GetTheoreticalLimit\<close>; \<open>None\<close> is \<open>math.MaxInt\<close> (no limit).\<close>

definition theoretical_limit :: "nfilter \<Rightarrow> int option" where
  "theoretical_limit f =
     (case f_ids f of
        Some ids \<Rightarrow> Some (int (length ids))
      | None \<Rightarrow>
          let na = int (opt_len (f_authors f)); nk = int (opt_len (f_kinds f));
              nd = int (opt_len (tag_values f ''d''));
              both = f_authors f \<noteq> None \<and> f_kinds f \<noteq> None;
              ks = (case f_kinds f of None \<Rightarrow> [] | Some l \<Rightarrow> l)
          in if both \<and> list_all is_replaceable ks then Some (na * nk)
             else if both \<and> nd > 0 \<and> list_all is_addressable ks then Some (na * nk * nd)
             else if f_limit f > 0 then Some (f_limit f)
             else if f_limit_zero f then Some 0
             else None)"

text \<open>\<open>IsOlder\<close>: by time, then by id, the greater id being the older.\<close>

definition is_older :: "event \<Rightarrow> event \<Rightarrow> bool" where
  "is_older previous next \<longleftrightarrow>
     ev_created_at previous < ev_created_at next \<or>
     (ev_created_at previous = ev_created_at next \<and> ev_id next < ev_id previous)"

end
