(* ===== verification/Nip29.thy ===== *)
theory Nip29
  imports Nostr
begin

text \<open>
  The group state machine of \<^verbatim>\<open>vendor/fiatjaf.com/nostr/nip29\<close>: groups and roles
  (\<^verbatim>\<open>group.go\<close>, \<^verbatim>\<open>nip29.go\<close>, \<^verbatim>\<open>utils.go\<close>), the decoding of moderation events into actions and
  their effect on a group (\<^verbatim>\<open>moderation_actions.go\<close>), and the metadata events a group is
  published as.
\<close>

subsection \<open>Roles and groups\<close>

record role =
  role_name :: string
  role_description :: string

record group_address =
  addr_relay :: string
  addr_id :: string

record nip29_group =
  g_address :: group_address
  g_name :: string
  g_picture :: string
  g_about :: string
  g_members :: "pubkey \<rightharpoonup> role list"
  g_participants :: "pubkey list"
  g_private :: bool
  g_restricted :: bool
  g_closed :: bool
  g_hidden :: bool
  g_livekit :: bool
  g_supported_kinds :: "kind list option"
  g_roles :: "role list"
  g_invite_codes :: "string list"
  g_last_metadata :: timestamp
  g_last_admins :: timestamp
  g_last_members :: timestamp
  g_last_roles :: timestamp
  g_last_participants :: timestamp

abbreviation g_id :: "'a nip29_group_scheme \<Rightarrow> string" where
  "g_id g \<equiv> addr_id (g_address g)"

definition is_member :: "'a nip29_group_scheme \<Rightarrow> pubkey \<Rightarrow> bool" where
  "is_member g pk \<longleftrightarrow> g_members g pk \<noteq> None"

text \<open>\<open>roles, _ := group.Members[pk]\<close>: a missing key reads as the nil slice.\<close>

definition member_roles :: "'a nip29_group_scheme \<Rightarrow> pubkey \<Rightarrow> role list" where
  "member_roles g pk = (case g_members g pk of None \<Rightarrow> [] | Some rs \<Rightarrow> rs)"

definition get_role_by_name :: "role list \<Rightarrow> string \<Rightarrow> role" where
  "get_role_by_name roles name =
     (case index_func (\<lambda>r. role_name r = name) roles of
        None \<Rightarrow> \<lparr>role_name = name, role_description = []\<rparr>
      | Some i \<Rightarrow> roles ! i)"

lemma role_name_get_role_by_name [simp]: "role_name (get_role_by_name roles name) = name"
  by (auto simp: get_role_by_name_def dest: index_func_SomeD split: option.splits)

subsection \<open>Kind ranges\<close>

definition moderation_event_kinds :: "kind list" where
  "moderation_event_kinds =
     [kPutUser, kRemoveUser, kEditMetadata, kDeleteEvent, kCreateGroup, kDeleteGroup, kCreateInvite]"

definition metadata_event_kinds :: "kind list" where
  "metadata_event_kinds =
     [kGroupMetadata, kGroupAdmins, kGroupMembers, kGroupRoles, kGroupLiveKit]"

definition kinds_includes :: "kind list \<Rightarrow> kind \<Rightarrow> bool" where
  "kinds_includes kr k = snd (binary_search kr k)"

lemma sorted_moderation_event_kinds: "sorted moderation_event_kinds"
  by (simp add: moderation_event_kinds_def)

lemma sorted_metadata_event_kinds: "sorted metadata_event_kinds"
  by (simp add: metadata_event_kinds_def)

lemma includes_moderation [simp]:
  "kinds_includes moderation_event_kinds k \<longleftrightarrow> k \<in> set moderation_event_kinds"
  by (simp add: kinds_includes_def binary_search_mem sorted_moderation_event_kinds)

lemma includes_metadata [simp]:
  "kinds_includes metadata_event_kinds k \<longleftrightarrow> k \<in> set metadata_event_kinds"
  by (simp add: kinds_includes_def binary_search_mem sorted_metadata_event_kinds)

lemma moderation_set:
  "set moderation_event_kinds =
     {kPutUser, kRemoveUser, kEditMetadata, kDeleteEvent, kCreateGroup, kDeleteGroup, kCreateInvite}"
  by (simp add: moderation_event_kinds_def)

lemma metadata_set:
  "set metadata_event_kinds =
     {kGroupMetadata, kGroupAdmins, kGroupMembers, kGroupRoles, kGroupLiveKit}"
  by (simp add: metadata_event_kinds_def)

subsection \<open>Actions\<close>

record edit_metadata =
  em_name :: "string option"
  em_picture :: "string option"
  em_about :: "string option"
  em_restricted :: "bool option"
  em_closed :: "bool option"
  em_hidden :: "bool option"
  em_private :: "bool option"
  em_livekit :: "bool option"
  em_supported_kinds :: "kind list option"
  em_replace :: bool
  em_when :: timestamp

datatype action =
    PutUser "(pubkey \<times> string list) list" string timestamp
  | RemoveUser "pubkey list" timestamp
  | EditMetadata edit_metadata
  | DeleteEvent "eid list"
  | CreateGroup pubkey timestamp
  | DeleteGroup timestamp
  | CreateInvite "string list"

datatype prep_error =
    UnsupportedKind kind
  | PTagNotValidPublicKey
  | MissingPTags
  | InvalidKind string
  | MissingMetadataTags
  | InvalidEventIdHex
  | MissingETag
  | MissingCodeTags
  | TooManyCodeTags

text \<open>The loops over the \<open>p\<close> and \<open>e\<close> tags stop at the first value that does not parse.\<close>

fun collect_targets :: "(pubkey \<Rightarrow> bool) \<Rightarrow> tag list \<Rightarrow> (pubkey \<times> string list) list option" where
  "collect_targets valid [] = Some []"
| "collect_targets valid (t # ts) =
     (case pubkey_from_hex valid (t ! 1) of
        None \<Rightarrow> None
      | Some pk \<Rightarrow> map_option ((#) (pk, drop 2 t)) (collect_targets valid ts))"

fun collect_ids :: "tag list \<Rightarrow> eid list option" where
  "collect_ids [] = Some []"
| "collect_ids (t # ts) =
     (case id_from_hex (t ! 1) of
        None \<Rightarrow> None
      | Some i \<Rightarrow> map_option ((#) i) (collect_ids ts))"

definition prepare_put_user :: "(pubkey \<Rightarrow> bool) \<Rightarrow> event \<Rightarrow> prep_error + action" where
  "prepare_put_user valid e =
     (case collect_targets valid (tags_find_all (ev_tags e) ''p'') of
        None \<Rightarrow> Inl PTagNotValidPublicKey
      | Some targets \<Rightarrow>
          let code = (case tags_find (ev_tags e) ''code'' of None \<Rightarrow> [] | Some t \<Rightarrow> t ! 1)
          in if targets \<noteq> [] then Inr (PutUser targets code (ev_created_at e))
             else Inl MissingPTags)"

definition prepare_remove_user :: "(pubkey \<Rightarrow> bool) \<Rightarrow> event \<Rightarrow> prep_error + action" where
  "prepare_remove_user valid e =
     (case collect_targets valid (tags_find_all (ev_tags e) ''p'') of
        None \<Rightarrow> Inl PTagNotValidPublicKey
      | Some targets \<Rightarrow>
          if targets \<noteq> [] then Inr (RemoveUser (map fst targets) (ev_created_at e))
          else Inl MissingPTags)"

text \<open>
  The tag loop of edit-metadata carries \<open>ok\<close>, \<open>hasName\<close> and the edit built so far. A flag is
  set together with \<open>Replace\<close> when a \<open>name\<close> tag came before it.
\<close>

definition rep :: "bool \<Rightarrow> edit_metadata \<Rightarrow> edit_metadata" where
  "rep b em = (if b then em\<lparr>em_replace := True\<rparr> else em)"

fun parse_kinds :: "string list \<Rightarrow> prep_error + kind list" where
  "parse_kinds [] = Inr []"
| "parse_kinds (s # ss) =
     (case parse_uint16 s of
        None \<Rightarrow> Inl (InvalidKind s)
      | Some k \<Rightarrow> (case parse_kinds ss of Inl e \<Rightarrow> Inl e | Inr ks \<Rightarrow> Inr (k # ks)))"

definition edit_tag ::
  "tag \<Rightarrow> bool \<times> bool \<times> edit_metadata \<Rightarrow> prep_error + bool \<times> bool \<times> edit_metadata" where
  "edit_tag t st =
     (case st of (ok, hasName, em) \<Rightarrow>
      (case t of
         [] \<Rightarrow> Inr st
       | key # vals \<Rightarrow>
        (if key = ''name'' then
           (case vals of [] \<Rightarrow> Inr st | v # _ \<Rightarrow> Inr (True, True, rep ok (em\<lparr>em_name := Some v\<rparr>)))
         else if key = ''picture'' then
           (case vals of [] \<Rightarrow> Inr st
            | v # _ \<Rightarrow> Inr (True, hasName, rep hasName (em\<lparr>em_picture := Some v\<rparr>)))
         else if key = ''about'' then
           (case vals of [] \<Rightarrow> Inr st
            | v # _ \<Rightarrow> Inr (True, hasName, rep hasName (em\<lparr>em_about := Some v\<rparr>)))
         else if key = ''supported_kinds'' then
           (case parse_kinds vals of
              Inl e \<Rightarrow> Inl e
            | Inr ks \<Rightarrow> Inr (ok, hasName, em\<lparr>em_supported_kinds := Some ks, em_replace := True\<rparr>))
         else if key = ''closed'' then Inr (True, hasName, rep hasName (em\<lparr>em_closed := Some True\<rparr>))
         else if key = ''open'' then Inr (True, hasName, em\<lparr>em_closed := Some False\<rparr>)
         else if key = ''restricted'' then
           Inr (True, hasName, rep hasName (em\<lparr>em_restricted := Some True\<rparr>))
         else if key = ''unrestricted'' then Inr (True, hasName, em\<lparr>em_restricted := Some False\<rparr>)
         else if key = ''hidden'' then Inr (True, hasName, rep hasName (em\<lparr>em_hidden := Some True\<rparr>))
         else if key = ''visible'' then Inr (True, hasName, em\<lparr>em_hidden := Some False\<rparr>)
         else if key = ''private'' then
           Inr (True, hasName, rep hasName (em\<lparr>em_private := Some True\<rparr>))
         else if key = ''public'' then Inr (True, hasName, em\<lparr>em_private := Some False\<rparr>)
         else if key = ''livekit'' then
           Inr (True, hasName, em\<lparr>em_livekit := Some True, em_replace := True\<rparr>)
         else if key = ''no-livekit'' then Inr (True, hasName, em\<lparr>em_livekit := Some False\<rparr>)
         else if key = ''no-text'' then Inr (True, hasName, em\<lparr>em_supported_kinds := None\<rparr>)
         else Inr st)))"

fun edit_tags ::
  "tags \<Rightarrow> bool \<times> bool \<times> edit_metadata \<Rightarrow> prep_error + bool \<times> bool \<times> edit_metadata" where
  "edit_tags [] st = Inr st"
| "edit_tags (t # ts) st =
     (case edit_tag t st of Inl e \<Rightarrow> Inl e | Inr st' \<Rightarrow> edit_tags ts st')"

definition empty_edit :: "timestamp \<Rightarrow> edit_metadata" where
  "empty_edit w = \<lparr>em_name = None, em_picture = None, em_about = None, em_restricted = None,
     em_closed = None, em_hidden = None, em_private = None, em_livekit = None,
     em_supported_kinds = None, em_replace = False, em_when = w\<rparr>"

definition prepare_edit_metadata :: "event \<Rightarrow> prep_error + action" where
  "prepare_edit_metadata e =
     (case edit_tags (ev_tags e) (False, False, empty_edit (ev_created_at e)) of
        Inl err \<Rightarrow> Inl err
      | Inr (ok, _, em) \<Rightarrow> if ok then Inr (EditMetadata em) else Inl MissingMetadataTags)"

definition prepare_delete_event :: "event \<Rightarrow> prep_error + action" where
  "prepare_delete_event e =
     (case collect_ids (tags_find_all (ev_tags e) ''e'') of
        None \<Rightarrow> Inl InvalidEventIdHex
      | Some ids \<Rightarrow> if ids = [] then Inl MissingETag else Inr (DeleteEvent ids))"

definition prepare_create_invite :: "event \<Rightarrow> prep_error + action" where
  "prepare_create_invite e =
     (let codes = map (\<lambda>t. t ! 1) (tags_find_all (ev_tags e) ''code'')
      in if codes = [] then Inl MissingCodeTags
         else if length codes > 10 then Inl TooManyCodeTags
         else Inr (CreateInvite codes))"

definition prepare_moderation_action :: "(pubkey \<Rightarrow> bool) \<Rightarrow> event \<Rightarrow> prep_error + action" where
  "prepare_moderation_action valid e =
     (if ev_kind e = kPutUser then prepare_put_user valid e
      else if ev_kind e = kRemoveUser then prepare_remove_user valid e
      else if ev_kind e = kEditMetadata then prepare_edit_metadata e
      else if ev_kind e = kDeleteEvent then prepare_delete_event e
      else if ev_kind e = kCreateGroup then Inr (CreateGroup (ev_pubkey e) (ev_created_at e))
      else if ev_kind e = kDeleteGroup then Inr (DeleteGroup (ev_created_at e))
      else if ev_kind e = kCreateInvite then prepare_create_invite e
      else Inl (UnsupportedKind (ev_kind e)))"

subsection \<open>The effect of an action on a group\<close>

fun build_roles :: "role list \<Rightarrow> role list \<Rightarrow> string list \<Rightarrow> role list" where
  "build_roles groles acc [] = acc"
| "build_roles groles acc (n # ns) =
     (if index_func (\<lambda>r. role_name r = n) acc \<noteq> None then build_roles groles acc ns
      else build_roles groles (acc @ [get_role_by_name groles n]) ns)"

text \<open>An invite code is used up by overwriting it with the last one and shrinking the slice.\<close>

definition consume_invite :: "string \<Rightarrow> string list \<Rightarrow> string list" where
  "consume_invite code codes =
     (if code = [] then codes
      else case slice_index codes code of
             None \<Rightarrow> codes
           | Some idx \<Rightarrow> take (length codes - 1) (codes[idx := codes ! (length codes - 1)]))"

definition put_target ::
  "string \<Rightarrow> timestamp \<Rightarrow> pubkey \<times> string list \<Rightarrow> 'a nip29_group_scheme \<Rightarrow> 'a nip29_group_scheme" where
  "put_target code w t g =
     (let g1 = (if snd t = [] then g else g\<lparr>g_last_admins := w\<rparr>);
          g2 = g1\<lparr>g_members := (g_members g1)(fst t \<mapsto> build_roles (g_roles g1) [] (snd t))\<rparr>;
          g3 = g2\<lparr>g_invite_codes := consume_invite code (g_invite_codes g2)\<rparr>
      in g3\<lparr>g_last_members := w\<rparr>)"

definition remove_target :: "timestamp \<Rightarrow> pubkey \<Rightarrow> 'a nip29_group_scheme \<Rightarrow> 'a nip29_group_scheme" where
  "remove_target w pk g =
     (let g1 = (case g_members g pk of
                  None \<Rightarrow> g
                | Some roles \<Rightarrow>
                    let h = g\<lparr>g_last_members := w\<rparr>
                    in if roles \<noteq> [] then h\<lparr>g_last_admins := w\<rparr> else h)
      in g1\<lparr>g_members := (g_members g1)(pk := None)\<rparr>)"

definition replace_metadata :: "'a nip29_group_scheme \<Rightarrow> 'a nip29_group_scheme" where
  "replace_metadata g =
     g\<lparr>g_name := [], g_picture := [], g_about := [], g_restricted := False, g_closed := False,
       g_hidden := False, g_private := False, g_livekit := False, g_supported_kinds := None\<rparr>"

definition keep :: "'a option \<Rightarrow> 'a \<Rightarrow> 'a" where
  "keep v old = (case v of None \<Rightarrow> old | Some x \<Rightarrow> x)"

definition apply_edit :: "edit_metadata \<Rightarrow> 'a nip29_group_scheme \<Rightarrow> 'a nip29_group_scheme" where
  "apply_edit a g =
     (let g1 = g\<lparr>g_last_metadata := em_when a\<rparr>;
          g2 = (if em_replace a then replace_metadata g1 else g1)
      in g2\<lparr>g_name := keep (em_name a) (g_name g2),
            g_picture := keep (em_picture a) (g_picture g2),
            g_about := keep (em_about a) (g_about g2),
            g_restricted := keep (em_restricted a) (g_restricted g2),
            g_closed := keep (em_closed a) (g_closed g2),
            g_hidden := keep (em_hidden a) (g_hidden g2),
            g_private := keep (em_private a) (g_private g2),
            g_livekit := keep (em_livekit a) (g_livekit g2),
            g_supported_kinds :=
              (case em_supported_kinds a of None \<Rightarrow> g_supported_kinds g2 | Some ks \<Rightarrow> Some ks)\<rparr>)"

definition apply_delete_group :: "timestamp \<Rightarrow> 'a nip29_group_scheme \<Rightarrow> 'a nip29_group_scheme" where
  "apply_delete_group w g =
     g\<lparr>g_members := Map.empty, g_participants := [], g_closed := True, g_private := True,
       g_restricted := True, g_hidden := True, g_name := ''[deleted]'', g_about := [],
       g_picture := [], g_livekit := False, g_last_metadata := w, g_last_admins := w,
       g_last_members := w, g_last_participants := w\<rparr>"

fun apply_action :: "action \<Rightarrow> 'a nip29_group_scheme \<Rightarrow> 'a nip29_group_scheme" where
  "apply_action (PutUser targets code w) g = fold (put_target code w) targets g"
| "apply_action (RemoveUser targets w) g = fold (remove_target w) targets g"
| "apply_action (EditMetadata a) g = apply_edit a g"
| "apply_action (DeleteEvent ids) g = g"
| "apply_action (CreateGroup creator w) g =
     g\<lparr>g_last_metadata := w, g_last_admins := w, g_last_members := w, g_last_participants := w\<rparr>"
| "apply_action (DeleteGroup w) g = apply_delete_group w g"
| "apply_action (CreateInvite codes) g = g\<lparr>g_invite_codes := g_invite_codes g @ codes\<rparr>"

subsection \<open>Metadata events\<close>

definition flag_tag :: "bool \<Rightarrow> string \<Rightarrow> tags" where
  "flag_tag b name = (if b then [[name]] else [])"

definition value_tag :: "string \<Rightarrow> string \<Rightarrow> tags" where
  "value_tag v name = (if v \<noteq> [] then [[name, v]] else [])"

definition to_metadata_event :: "'a nip29_group_scheme \<Rightarrow> event" where
  "to_metadata_event g =
     zero_event\<lparr>ev_kind := kGroupMetadata, ev_created_at := g_last_metadata g,
       ev_tags := [[''d'', g_id g]]
         @ value_tag (g_name g) ''name'' @ value_tag (g_about g) ''about''
         @ value_tag (g_picture g) ''picture''
         @ flag_tag (g_private g) ''private'' @ flag_tag (g_restricted g) ''restricted''
         @ flag_tag (g_hidden g) ''hidden'' @ flag_tag (g_closed g) ''closed''
         @ flag_tag (g_livekit g) ''livekit''
         @ (case g_supported_kinds g of
              None \<Rightarrow> []
            | Some ks \<Rightarrow> [''supported_kinds'' # map (\<lambda>k. itoa (unat k)) ks])\<rparr>"

text \<open>The roster events range over the member map: \<open>ord\<close> is the order of that iteration.\<close>

definition admin_tag :: "'a nip29_group_scheme \<Rightarrow> pubkey \<Rightarrow> tags" where
  "admin_tag g pk =
     (case g_members g pk of
        None \<Rightarrow> []
      | Some roles \<Rightarrow> if roles = [] then [] else [''p'' # hex_of pk # map role_name roles])"

definition to_admins_event :: "pubkey list \<Rightarrow> 'a nip29_group_scheme \<Rightarrow> event" where
  "to_admins_event ord g =
     zero_event\<lparr>ev_kind := kGroupAdmins, ev_created_at := g_last_admins g,
       ev_tags := [''d'', g_id g] # concat (map (admin_tag g) ord)\<rparr>"

definition to_members_event :: "pubkey list \<Rightarrow> 'a nip29_group_scheme \<Rightarrow> event" where
  "to_members_event ord g =
     zero_event\<lparr>ev_kind := kGroupMembers, ev_created_at := g_last_members g,
       ev_tags := [''d'', g_id g] # map (\<lambda>pk. [''p'', hex_of pk]) ord\<rparr>"

definition to_roles_event :: "'a nip29_group_scheme \<Rightarrow> event" where
  "to_roles_event g =
     zero_event\<lparr>ev_kind := kGroupRoles, ev_created_at := g_last_roles g,
       ev_tags := [''d'', g_id g] #
         map (\<lambda>r. [''role'', role_name r, role_description r]) (g_roles g)\<rparr>"

definition to_participants_event :: "'a nip29_group_scheme \<Rightarrow> event" where
  "to_participants_event g =
     zero_event\<lparr>ev_kind := kGroupLiveKit, ev_created_at := g_last_participants g,
       ev_tags := [''d'', g_id g] # map (\<lambda>pk. [''participant'', hex_of pk]) (g_participants g)\<rparr>"

subsection \<open>What the actions do to a group\<close>

lemma build_roles_names:
  "map role_name (build_roles groles acc ns) = foldl append_unique (map role_name acc) ns"
proof (induction groles acc ns rule: build_roles.induct)
  case (1 groles acc)
  then show ?case by simp
next
  case (2 groles acc n ns)
  have "index_func (\<lambda>r. role_name r = n) acc \<noteq> None \<longleftrightarrow> n \<in> set (map role_name acc)"
    by auto
  with 2 show ?case by (auto simp: append_unique_def)
qed

lemma foldl_append_unique: "set (foldl append_unique acc ns) = set acc \<union> set ns \<and>
    distinct (foldl append_unique acc ns) = distinct acc"
  by (induction ns arbitrary: acc) auto

lemma build_roles_set: "role_name ` set (build_roles groles [] ns) = set ns"
  by (metis build_roles_names foldl_append_unique list.map(1) list.set_map set_empty2 sup_bot_left list.set(1))

lemma build_roles_distinct: "distinct (map role_name (build_roles groles [] ns))"
  by (simp add: build_roles_names foldl_append_unique)

lemma build_roles_empty [simp]: "build_roles groles [] ns = [] \<longleftrightarrow> ns = []"
  using build_roles_set [of groles ns] by auto

lemma consume_invite_mset:
  "mset (consume_invite code codes) = (if code = [] then mset codes else mset codes - {#code#})"
proof (cases "code \<noteq> [] \<and> code \<in> set codes")
  case True
  then obtain i where i: "slice_index codes code = Some i"
    by (cases "slice_index codes code") auto
  then have l: "i < length codes" "codes ! i = code"
    using slice_index_SomeD [OF i] by auto
  let ?n = "length codes - 1" and ?sw = "slice_swap codes i (length codes - 1)"
  have n: "Suc ?n = length codes" using l by auto
  have "?sw ! ?n = code" using l by (auto simp: slice_swap_def)
  then have "?sw = take ?n (codes[i := codes ! ?n]) @ [code]"
    using n take_Suc_conv_app_nth [of ?n ?sw] by (simp add: slice_swap_def)
  then have "mset codes = add_mset code (mset (take ?n (codes[i := codes ! ?n])))"
    using l n mset_slice_swap [of i codes ?n] by (simp del: mset_slice_swap)
  then show ?thesis
    using True i by (simp add: consume_invite_def)
next
  case False
  then have "code = [] \<or> (code \<notin> set codes \<and> slice_index codes code = None)" by auto
  then show ?thesis
    by (elim disjE conjE) (simp_all add: consume_invite_def del: slice_index_None)
qed


lemma put_target_simps:
  "g_members (put_target code w t g) =
     (g_members g)(fst t \<mapsto> build_roles (g_roles g) [] (snd t))"
  "g_roles (put_target code w t g) = g_roles g"
  "g_invite_codes (put_target code w t g) = consume_invite code (g_invite_codes g)"
  "g_address (put_target code w t g) = g_address g"
  by (simp_all add: put_target_def)

lemma fold_put_target_simps:
  "g_roles (fold (put_target code w) ts g) = g_roles g"
  "g_invite_codes (fold (put_target code w) ts g) = (consume_invite code ^^ length ts) (g_invite_codes g)"
  "g_address (fold (put_target code w) ts g) = g_address g"
  by (induction ts arbitrary: g) (simp_all add: put_target_simps funpow_swap1)

lemma fold_put_target_members:
  "g_members (fold (put_target code w) ts g) =
     g_members g ++ map_of (rev (map (\<lambda>(pk, ns). (pk, build_roles (g_roles g) [] ns)) ts))"
proof (induction ts arbitrary: g)
  case Nil
  then show ?case by simp
next
  case (Cons t ts)
  then show ?case by (cases t) (auto simp: put_target_simps map_add_def fun_eq_iff split: option.splits)
qed

lemma remove_target_simps:
  "g_members (remove_target w pk g) = (g_members g)(pk := None)"
  "g_roles (remove_target w pk g) = g_roles g"
  "g_invite_codes (remove_target w pk g) = g_invite_codes g"
  "g_address (remove_target w pk g) = g_address g"
  by (simp_all add: remove_target_def Let_def split: option.splits)

lemma fold_remove_target_simps:
  "g_members (fold (remove_target w) pks g) = g_members g |` (- set pks)"
  "g_roles (fold (remove_target w) pks g) = g_roles g"
  "g_invite_codes (fold (remove_target w) pks g) = g_invite_codes g"
  "g_address (fold (remove_target w) pks g) = g_address g"
  by (induction pks arbitrary: g)
    (auto simp: remove_target_simps restrict_map_def fun_eq_iff)

lemma apply_edit_keeps [simp]:
  "g_members (apply_edit a g) = g_members g" "g_roles (apply_edit a g) = g_roles g"
  "g_invite_codes (apply_edit a g) = g_invite_codes g" "g_address (apply_edit a g) = g_address g"
  by (simp_all add: apply_edit_def replace_metadata_def Let_def)

lemma apply_action_keeps [simp]:
  "g_address (apply_action act g) = g_address g" "g_roles (apply_action act g) = g_roles g"
  by (cases act; simp add: fold_put_target_simps fold_remove_target_simps apply_delete_group_def)+

text \<open>
  Put-user gives every target the roles its last tag names: each once, those the group knows
  with their description; nobody else's membership changes.
\<close>

theorem put_user_members:
  "g_members (apply_action (PutUser targets code w) g) pk =
     (case map_of (rev targets) pk of
        None \<Rightarrow> g_members g pk
      | Some names \<Rightarrow> Some (build_roles (g_roles g) [] names)) \<and>
   (\<forall>names. distinct (map role_name (build_roles (g_roles g) [] names)) \<and>
      role_name ` set (build_roles (g_roles g) [] names) = set names)"
proof -
  have "map_of (rev (map (\<lambda>(pk, ns). (pk, build_roles (g_roles g) [] ns)) targets)) pk =
      map_option (build_roles (g_roles g) []) (map_of (rev targets) pk)"
    by (simp add: rev_map map_of_map)
  then show ?thesis
    by (auto simp: fold_put_target_members build_roles_distinct build_roles_set map_add_def
        split: option.splits)
qed

text \<open>
  Remove-user removes its targets and nobody else, and leaves every remaining member's roles
  as they were.
\<close>

theorem remove_user_members:
  "g_members (apply_action (RemoveUser targets w) g) = g_members g |` (- set targets)"
  by (simp add: fold_remove_target_simps)

text \<open>
  An invite code is good for one use: with one target, put-user takes exactly one occurrence of
  its code out of the group's codes, and keeps the others.
\<close>

theorem invite_used_once:
  "mset (g_invite_codes (apply_action (PutUser [t] code w) g)) =
     mset (g_invite_codes g) - (if code = [] then {#} else {#code#})"
  by (simp add: put_target_simps consume_invite_mset)

subsection \<open>Well-formed groups\<close>

text \<open>Members are finitely many, and none has a role twice.\<close>

definition group_wf :: "'a nip29_group_scheme \<Rightarrow> bool" where
  "group_wf g \<longleftrightarrow>
     finite (dom (g_members g)) \<and>
     (\<forall>pk roles. g_members g pk = Some roles \<longrightarrow> distinct (map role_name roles))"

lemma group_wf_put: "group_wf g \<Longrightarrow> group_wf (fold (put_target code w) ts g)"
proof (induction ts arbitrary: g)
  case (Cons t ts)
  have "group_wf (put_target code w t g)"
    using Cons.prems by (auto simp: group_wf_def put_target_simps build_roles_distinct split: if_splits)
  with Cons.IH show ?case by simp
qed simp

lemma group_wf_remove: "group_wf g \<Longrightarrow> group_wf (fold (remove_target w) ts g)"
  by (auto simp: group_wf_def fold_remove_target_simps restrict_map_def split: if_splits)

lemma apply_action_wf: "group_wf g \<Longrightarrow> group_wf (apply_action act g)"
  by (cases act) (simp_all add: group_wf_put group_wf_remove, auto simp: group_wf_def apply_delete_group_def)

end
