(* ===== verification/Store.thy ===== *)
theory Store
  imports Nostr
begin

text \<open>
  The event store. The interface is \<^verbatim>\<open>eventstore.Store\<close>: a record of the operations the relay
  calls, and the locale \<open>event_store\<close> of the laws it relies on. The provider modelled here is
  \<^verbatim>\<open>eventstore/slicestore/lib.go\<close>, the in-memory store the repository's tests run on; the guarded
  store of \<^verbatim>\<open>guard.go\<close> is a second provider, in theory \<open>Guard\<close>.
  A query is the list of the events it yields.
\<close>

subsection \<open>The interface\<close>

datatype store_error = ErrDupEvent | ErrStoreClosed | StoreFailure string

record 'd store_ops =
  so_query :: "nfilter \<Rightarrow> int \<Rightarrow> 'd \<Rightarrow> event list"
  so_save :: "event \<Rightarrow> 'd \<Rightarrow> store_error option \<times> 'd"
  so_delete :: "eid \<Rightarrow> 'd \<Rightarrow> store_error option \<times> 'd"
  so_replace :: "event \<Rightarrow> 'd \<Rightarrow> store_error option \<times> 'd"
  so_count :: "nfilter \<Rightarrow> 'd \<Rightarrow> store_error option \<times> 32 word"

text \<open>The limit of a query: the caller's, or the filter's theoretical one where it is less.\<close>

definition effective_limit :: "nfilter \<Rightarrow> int \<Rightarrow> int" where
  "effective_limit f n =
     (case theoretical_limit f of None \<Rightarrow> n | Some t \<Rightarrow> if t < n then t else n)"

text \<open>The stored events that an event replaces: same kind and author, and same \<open>d\<close> tag.\<close>

definition slot_filter :: "event \<Rightarrow> nfilter" where
  "slot_filter e =
     (let f = empty_filter\<lparr>f_limit := 1, f_kinds := Some [ev_kind e], f_authors := Some [ev_pubkey e]\<rparr>
      in if is_addressable (ev_kind e) then f\<lparr>f_tags := [(''d'', [tags_get_d (ev_tags e)])]\<rparr> else f)"

definition id_unique :: "event set \<Rightarrow> bool" where
  "id_unique S \<longleftrightarrow> inj_on ev_id S"

locale event_store =
  fixes ops :: "'d store_ops"
    and contents :: "'d \<Rightarrow> event set"
    and inv :: "'d \<Rightarrow> bool"
  assumes query_sound: "inv d \<Longrightarrow> e \<in> set (so_query ops f n d) \<Longrightarrow> e \<in> contents d \<and> filter_matches f e"
    and query_limit: "inv d \<Longrightarrow> 0 \<le> n \<Longrightarrow> int (length (so_query ops f n d)) \<le> n"
    and query_distinct: "inv d \<Longrightarrow> distinct (so_query ops f n d)"
    and query_newest_first:
      "inv d \<Longrightarrow> sorted_wrt (\<lambda>a b. ev_created_at b \<le> ev_created_at a) (so_query ops f n d)"
    and query_complete:
      "inv d \<Longrightarrow> f_since f = 0 \<Longrightarrow> e \<in> contents d \<Longrightarrow> filter_matches f e \<Longrightarrow>
       e \<in> set (so_query ops f n d) \<or>
       (int (length (so_query ops f n d)) \<ge> effective_limit f n \<and>
        (\<forall>x \<in> set (so_query ops f n d). ev_created_at e \<le> ev_created_at x))"
    and save_ok:
      "inv d \<Longrightarrow> id_unique (insert e (contents d)) \<Longrightarrow> so_save ops e d = (None, d') \<Longrightarrow>
       inv d' \<and> contents d' = insert e (contents d)"
    and save_err: "so_save ops e d = (Some err, d') \<Longrightarrow> d' = d"
    and delete_ok:
      "inv d \<Longrightarrow> so_delete ops i d = (None, d') \<Longrightarrow>
       inv d' \<and> contents d' = {x \<in> contents d. ev_id x \<noteq> i}"
    and delete_err: "so_delete ops i d = (Some err, d') \<Longrightarrow> d' = d"
    and replace_ok:
      "inv d \<Longrightarrow> id_unique (insert e (contents d)) \<Longrightarrow> so_replace ops e d = (None, d') \<Longrightarrow>
       inv d' \<and> contents d' \<subseteq> insert e (contents d) \<and>
       (\<forall>x \<in> contents d. \<not> filter_matches (slot_filter e) x \<longrightarrow> x \<in> contents d')"
    and replace_newer:
      "inv d \<Longrightarrow> id_unique (insert e (contents d)) \<Longrightarrow> so_replace ops e d = (None, d') \<Longrightarrow>
       (\<forall>x \<in> contents d. filter_matches (slot_filter e) x \<longrightarrow> ev_created_at x < ev_created_at e) \<Longrightarrow>
       e \<in> contents d'"
    and replace_err: "so_replace ops e d = (Some err, d') \<Longrightarrow> d' = d"
begin

lemma save_grows:
  "inv d \<Longrightarrow> id_unique (insert e (contents d)) \<Longrightarrow> so_save ops e d = (None, d') \<Longrightarrow> e \<in> contents d'"
  by (drule (2) save_ok) simp

text \<open>Below its limit a query is exact.\<close>

lemma query_exact:
  assumes "inv d" "f_since f = 0" "int (length (so_query ops f n d)) < effective_limit f n"
  shows "set (so_query ops f n d) = {e \<in> contents d. filter_matches f e}"
proof (rule set_eqI, rule iffI)
  fix e assume "e \<in> set (so_query ops f n d)"
  with query_sound [OF assms(1)] show "e \<in> {e \<in> contents d. filter_matches f e}" by blast
next
  fix e assume "e \<in> {e \<in> contents d. filter_matches f e}"
  then have "e \<in> contents d" "filter_matches f e" by auto
  with query_complete [OF assms(1,2), of e n] assms(3)
  show "e \<in> set (so_query ops f n d)" by linarith
qed

text \<open>A query of one event gives the newest match.\<close>

lemma query_one_newest:
  assumes d: "inv d" and f: "f_since f = 0" and lim: "effective_limit f 1 = 1"
    and e: "e \<in> contents d" "filter_matches f e"
    and newest: "\<And>x. x \<in> contents d \<Longrightarrow> filter_matches f x \<Longrightarrow> x \<noteq> e \<Longrightarrow>
                   ev_created_at x < ev_created_at e"
  shows "so_query ops f 1 d = [e]"
proof -
  let ?q = "so_query ops f 1 d"
  from query_limit [OF d, of 1 f] have len: "length ?q \<le> 1" by simp
  from query_complete [OF d f e, of 1] lim have ne: "?q \<noteq> []" by (auto simp: Let_def)
  with len obtain y where y: "?q = [y]"
    by (cases ?q) auto
  then have ym: "y \<in> contents d" "filter_matches f y"
    using query_sound [OF d, of y f 1] by auto
  have "y = e"
  proof (rule ccontr)
    assume "y \<noteq> e"
    with newest [OF ym] have "ev_created_at y < ev_created_at e" by simp
    moreover from query_complete [OF d f e, of 1] \<open>y \<noteq> e\<close> y
    have "ev_created_at e \<le> ev_created_at y" by auto
    ultimately show False by simp
  qed
  with y show ?thesis by simp
qed

text \<open>Once a strictly newer version replaced the old ones it is what a query of its slot returns.\<close>

lemma replace_then_query:
  assumes d: "inv d" and u: "id_unique (insert e (contents d))"
    and r: "so_replace ops e d = (None, d')"
    and new: "\<forall>x \<in> contents d. filter_matches (slot_filter e) x \<longrightarrow> ev_created_at x < ev_created_at e"
    and f: "f_since f = 0" "effective_limit f 1 = 1" "filter_matches f e"
    and sub: "\<And>x. x \<noteq> e \<Longrightarrow> filter_matches f x \<Longrightarrow> filter_matches (slot_filter e) x"
  shows "so_query ops f 1 d' = [e]"
proof (rule query_one_newest)
  show "inv d'" "f_since f = 0" "effective_limit f 1 = 1" "filter_matches f e"
    using replace_ok [OF d u r] f by auto
  show "e \<in> contents d'" by (rule replace_newer [OF d u r new])
  fix x assume x: "x \<in> contents d'" "filter_matches f x" "x \<noteq> e"
  then have "x \<in> contents d" using replace_ok [OF d u r] by auto
  with x new sub show "ev_created_at x < ev_created_at e" by blast
qed

end

subsection \<open>The slice store\<close>

text \<open>
  \<open>internal\<close> is kept newest first, by time and then by id, both descending.
  \<open>event_cmp_neg a b\<close> is \<open>eventComparator(a, b) < 0\<close>.
\<close>

type_synonym slice_store = "event list"

definition event_cmp_neg :: "event \<Rightarrow> event \<Rightarrow> bool" where
  "event_cmp_neg a b \<longleftrightarrow>
     ev_created_at b < ev_created_at a \<or> (ev_created_at b = ev_created_at a \<and> ev_id b < ev_id a)"

definition event_cmp_zero :: "event \<Rightarrow> event \<Rightarrow> bool" where
  "event_cmp_zero a b \<longleftrightarrow> ev_created_at a = ev_created_at b \<and> ev_id a = ev_id b"

definition slice_query :: "nfilter \<Rightarrow> int \<Rightarrow> slice_store \<Rightarrow> event list" where
  "slice_query f n d =
     (if theoretical_limit f = Some 0 then []
      else
        let n' = effective_limit f n;
            start = (if f_until f \<noteq> 0
                     then bsearch (\<lambda>e. f_until f < ev_created_at e) d 0 (length d) else 0);
            end' = (if f_since f \<noteq> 0
                    then bsearch (\<lambda>e. f_since f < ev_created_at e) d 0 (length d) else length d)
        in if end' < start then []
           else let ms = filter (filter_matches f) (drop start (take end' d))
                in if n' < 0 then ms else take (nat n') ms)"

definition slice_count :: "nfilter \<Rightarrow> slice_store \<Rightarrow> store_error option \<times> 32 word" where
  "slice_count f d = (None, word_of_nat (length (filter (filter_matches f) d)))"

definition slice_save :: "event \<Rightarrow> slice_store \<Rightarrow> store_error option \<times> slice_store" where
  "slice_save e d =
     (let idx = bsearch (\<lambda>x. event_cmp_neg x e) d 0 (length d)
      in if idx < length d \<and> event_cmp_zero (d ! idx) e then (Some ErrDupEvent, d)
         else (None, take idx d @ e # drop idx d))"

definition slice_delete_event :: "eid \<Rightarrow> slice_store \<Rightarrow> store_error option \<times> slice_store" where
  "slice_delete_event i d =
     (case index_func (\<lambda>x. ev_id x = i) d of
        None \<Rightarrow> (None, d)
      | Some idx \<Rightarrow> (None, slice_delete d idx))"

text \<open>
  \<open>ReplaceEvent\<close>: the query of the slot gives at most one previous event. An error of the
  deletion would be returned; the deletion of this store has none. A duplicate is not an error.
\<close>

definition slice_replace :: "event \<Rightarrow> slice_store \<Rightarrow> store_error option \<times> slice_store" where
  "slice_replace e d =
     (case slice_query (slot_filter e) 1 d of
        [] \<Rightarrow> (None, snd (slice_save e d))
      | previous # _ \<Rightarrow>
          if is_older previous e then
            (None, snd (slice_save e (snd (slice_delete_event (ev_id previous) d))))
          else (None, d))"

definition slice_ops :: "slice_store store_ops" where
  "slice_ops = \<lparr>so_query = slice_query, so_save = slice_save, so_delete = slice_delete_event,
     so_replace = slice_replace, so_count = slice_count\<rparr>"

definition slice_inv :: "slice_store \<Rightarrow> bool" where
  "slice_inv d \<longleftrightarrow> sorted_wrt event_cmp_neg d \<and> id_unique (set d)"

lemma slice_partitioned_time:
  "slice_inv d \<Longrightarrow> partitioned (\<lambda>e. t < ev_created_at e) d"
  unfolding slice_inv_def partitioned_def sorted_wrt_iff_nth_less
  by (auto simp: event_cmp_neg_def le_less) (metis less_trans)+

lemma event_cmp_neg_trans: "event_cmp_neg a b \<Longrightarrow> event_cmp_neg b c \<Longrightarrow> event_cmp_neg a c"
  by (auto simp: event_cmp_neg_def)

lemma event_cmp_neg_linear: "event_cmp_neg a b \<or> event_cmp_zero a b \<or> event_cmp_neg b a"
  by (auto simp: event_cmp_neg_def event_cmp_zero_def)

lemma slice_partitioned_cmp:
  "slice_inv d \<Longrightarrow> partitioned (\<lambda>x. event_cmp_neg x e) d"
  unfolding slice_inv_def partitioned_def sorted_wrt_iff_nth_less
  by (metis event_cmp_neg_trans le_neq_implies_less)

text \<open>The saved event is put between the events that sort before it and the others.\<close>

lemma slice_save_split:
  assumes "slice_inv d"
  shows "slice_save e d =
    (let b = takeWhile (\<lambda>x. event_cmp_neg x e) d; a = dropWhile (\<lambda>x. event_cmp_neg x e) d
     in if a \<noteq> [] \<and> event_cmp_zero (hd a) e then (Some ErrDupEvent, d) else (None, b @ e # a))"
proof -
  let ?p = "\<lambda>x. event_cmp_neg x e"
  obtain b a where b: "takeWhile ?p d = b" and a: "dropWhile ?p d = a" by simp
  have d: "d = b @ a" by (simp flip: a b)
  have i: "bsearch ?p d 0 (length d) = length b"
    unfolding b [symmetric] by (rule bsearch_takeWhile [OF slice_partitioned_cmp [OF assms]])
  have "length b < length d \<longleftrightarrow> a \<noteq> []" "take (length b) d = b" "drop (length b) d = a"
    by (simp_all add: d)
  moreover have "a \<noteq> [] \<Longrightarrow> d ! length b = hd a"
    by (cases a) (simp_all add: d)
  ultimately show ?thesis
    unfolding slice_save_def i a b Let_def by (cases "a = []") simp_all
qed

lemma sorted_insert_between:
  assumes "sorted_wrt event_cmp_neg (b @ a)"
    and b: "\<And>x. x \<in> set b \<Longrightarrow> event_cmp_neg x e"
    and a: "\<And>x. x \<in> set a \<Longrightarrow> event_cmp_neg e x"
  shows "sorted_wrt event_cmp_neg (b @ e # a)"
  using assms by (simp add: sorted_wrt_append)

lemma event_cmp_neg_after:
  assumes "sorted_wrt event_cmp_neg a" "\<not> event_cmp_neg (hd a) e" "\<not> event_cmp_zero (hd a) e"
    and "x \<in> set a"
  shows "event_cmp_neg e x"
proof -
  have h: "event_cmp_neg e (hd a)" using assms event_cmp_neg_linear by blast
  have "x = hd a \<or> event_cmp_neg (hd a) x"
    using assms(1,4) by (cases a) auto
  with h event_cmp_neg_trans show ?thesis by blast
qed

lemma slice_save_ok:
  assumes inv: "slice_inv d" and u: "id_unique (insert e (set d))"
    and s: "slice_save e d = (None, d')"
  shows "slice_inv d' \<and> set d' = insert e (set d)"
proof -
  let ?p = "\<lambda>x. event_cmp_neg x e"
  obtain b a where b: "takeWhile ?p d = b" and a: "dropWhile ?p d = a" by simp
  have d: "d = b @ a" by (simp flip: a b)
  have d': "d' = b @ e # a" and nz: "a \<noteq> [] \<Longrightarrow> \<not> event_cmp_zero (hd a) e"
    using s by (auto simp: slice_save_split [OF inv] a b Let_def split: if_splits)
  have srt: "sorted_wrt event_cmp_neg (b @ a)" using inv by (simp add: slice_inv_def flip: d)
  have "sorted_wrt event_cmp_neg d'"
    unfolding d'
  proof (rule sorted_insert_between [OF srt])
    show "event_cmp_neg x e" if "x \<in> set b" for x
      using that unfolding b [symmetric] by (rule set_takeWhileD [THEN conjunct2])
    show "event_cmp_neg e x" if x: "x \<in> set a" for x
    proof (rule event_cmp_neg_after [OF _ _ nz x])
      show ne: "a \<noteq> []" using x by auto
      show "sorted_wrt event_cmp_neg a" using srt by (simp add: sorted_wrt_append)
      show "\<not> event_cmp_neg (hd a) e"
        using ne hd_dropWhile [of ?p d] unfolding a by blast
    qed
  qed
  moreover have "set d' = insert e (set d)" by (auto simp: d' d)
  ultimately show ?thesis using u by (simp add: slice_inv_def)
qed

lemma id_unique_subset: "id_unique S \<Longrightarrow> T \<subseteq> S \<Longrightarrow> id_unique T"
  unfolding id_unique_def by (rule inj_on_subset)

lemma slice_inv_distinct: "slice_inv d \<Longrightarrow> distinct d"
  unfolding slice_inv_def distinct_conv_nth sorted_wrt_iff_nth_less
  by (metis event_cmp_neg_def less_irrefl linorder_neqE_nat)

lemma slice_inv_sublist:
  assumes "slice_inv d" "sorted_wrt event_cmp_neg d'" "set d' \<subseteq> set d"
  shows "slice_inv d'"
  using assms id_unique_subset by (auto simp: slice_inv_def)

lemma sorted_wrt_slice_delete:
  assumes "sorted_wrt P d"
  shows "sorted_wrt P (slice_delete d i)"
proof (cases "i < length d")
  case True
  then have "sorted_wrt P (take i d @ d ! i # drop (Suc i) d)"
    using assms by (simp add: id_take_nth_drop [symmetric])
  then show ?thesis by (simp add: slice_delete_def sorted_wrt_append)
next
  case False
  with assms show ?thesis by (simp add: slice_delete_def)
qed

lemma slice_delete_event_ok:
  assumes "slice_inv d" "slice_delete_event i d = (None, d')"
  shows "slice_inv d' \<and> set d' = {x \<in> set d. ev_id x \<noteq> i}"
proof (cases "index_func (\<lambda>x. ev_id x = i) d")
  case None
  with assms show ?thesis by (auto simp: slice_delete_event_def)
next
  case (Some k)
  then have k: "k < length d" "ev_id (d ! k) = i" by (auto dest: index_func_SomeD)
  have d': "d' = slice_delete d k" using assms Some by (simp add: slice_delete_event_def)
  have dist: "distinct d" by (rule slice_inv_distinct [OF assms(1)])
  have "mset d' = mset d - {#d ! k#}" by (simp add: d' mset_slice_delete k)
  then have "set d' = set d - {d ! k}"
    using dist k by (metis at_most_one_mset_mset_diff distinct_count_atmost_1 set_mset_mset
        mset_remove1 set_remove1_eq)
  also have "\<dots> = {x \<in> set d. ev_id x \<noteq> i}"
    using assms(1) k by (auto simp: slice_inv_def id_unique_def inj_on_def)
  finally have "set d' = {x \<in> set d. ev_id x \<noteq> i}" .
  moreover have "sorted_wrt event_cmp_neg d'"
    using assms(1) by (simp add: d' slice_inv_def sorted_wrt_slice_delete)
  ultimately show ?thesis using slice_inv_sublist [OF assms(1)] by auto
qed

subsection \<open>The slice store keeps the laws\<close>

text \<open>Without a \<open>since\<close> bound, what a query skips at the front does not match.\<close>

lemma slice_query_eq:
  assumes "slice_inv d" "f_since f = 0" "0 \<le> effective_limit f n" "theoretical_limit f \<noteq> Some 0"
  shows "slice_query f n d = take (nat (effective_limit f n)) (filter (filter_matches f) d)"
proof -
  let ?p = "\<lambda>e. f_until f < ev_created_at e"
  let ?s = "if f_until f \<noteq> 0 then bsearch ?p d 0 (length d) else 0"
  have b: "bsearch ?p d 0 (length d) = length (takeWhile ?p d)"
    by (rule bsearch_takeWhile [OF slice_partitioned_time [OF assms(1)]])
  have le: "?s \<le> length d" by (simp add: b length_takeWhile_le)
  have "filter (filter_matches f) (drop ?s d) = filter (filter_matches f) d"
  proof (cases "f_until f = 0")
    case False
    have "filter (filter_matches f) (takeWhile ?p d) = []"
      using False by (auto simp: filter_empty_conv filter_matches_def dest: set_takeWhileD)
    then have "filter (filter_matches f) d = filter (filter_matches f) (dropWhile ?p d)"
      by (metis append_Nil filter_append takeWhile_dropWhile_id)
    then show ?thesis using False by (simp add: b dropWhile_eq_drop)
  qed simp
  with assms le show ?thesis by (simp add: slice_query_def Let_def)
qed

lemma slice_query_nil: "theoretical_limit f = Some 0 \<Longrightarrow> slice_query f n d = []"
  by (simp add: slice_query_def)

definition query_cap :: "nfilter \<Rightarrow> int \<Rightarrow> slice_store \<Rightarrow> nat" where
  "query_cap f n d = (if effective_limit f n < 0 then length d else nat (effective_limit f n))"

lemma slice_query_take:
  "slice_query f n d = [] \<or>
   (\<exists>i j. slice_query f n d = take (query_cap f n d) (filter (filter_matches f) (drop i (take j d))))"
proof -
  have all: "take (length d) (filter P (drop i (take j d))) = filter P (drop i (take j d))" for P i j
    by (rule take_all) (rule order_trans [OF length_filter_le], simp)
  obtain i j where
      "i = (if f_until f \<noteq> 0 then bsearch (\<lambda>e. f_until f < ev_created_at e) d 0 (length d) else 0)"
    and "j = (if f_since f \<noteq> 0 then bsearch (\<lambda>e. f_since f < ev_created_at e) d 0 (length d)
              else length d)"
    by blast
  then have q: "slice_query f n d =
      (if theoretical_limit f = Some 0 \<or> j < i then []
       else let ms = filter (filter_matches f) (drop i (take j d))
            in if effective_limit f n < 0 then ms else take (nat (effective_limit f n)) ms)"
    unfolding slice_query_def Let_def by presburger
  have "slice_query f n d = [] \<or>
      slice_query f n d = take (query_cap f n d) (filter (filter_matches f) (drop i (take j d)))"
    unfolding q query_cap_def Let_def
    using all [of "filter_matches f" i j] by (cases "effective_limit f n < 0") simp_all
  then show ?thesis by blast
qed

lemma slice_query_sublist:
  "\<exists>i j k. slice_query f n d = take k (filter (filter_matches f) (drop i (take j d)))"
  using slice_query_take [of f n d] by (metis take_0)

lemma slice_query_sound:
  assumes "e \<in> set (slice_query f n d)"
  shows "e \<in> set d \<and> filter_matches f e"
proof -
  obtain i j k where "slice_query f n d = take k (filter (filter_matches f) (drop i (take j d)))"
    using slice_query_sublist by blast
  with assms have "e \<in> set (filter (filter_matches f) (drop i (take j d)))"
    by (auto dest: in_set_takeD)
  then show ?thesis by (auto dest: in_set_dropD in_set_takeD)
qed

lemma slice_query_sorted:
  assumes "slice_inv d"
  shows "sorted_wrt event_cmp_neg (slice_query f n d)"
proof -
  obtain i j k where "slice_query f n d = take k (filter (filter_matches f) (drop i (take j d)))"
    using slice_query_sublist by blast
  with assms show ?thesis
    by (simp add: slice_inv_def sorted_wrt_take sorted_wrt_drop sorted_wrt_filter)
qed

lemma theoretical_limit_nonneg: "theoretical_limit f = Some t \<Longrightarrow> 0 \<le> t"
  by (auto simp: theoretical_limit_def Let_def split: option.splits if_splits)

lemma slice_query_limit:
  assumes "0 \<le> n"
  shows "int (length (slice_query f n d)) \<le> n"
proof -
  have "0 \<le> effective_limit f n" "effective_limit f n \<le> n"
    using assms by (auto simp: effective_limit_def dest: theoretical_limit_nonneg split: option.splits)
  then have "int (query_cap f n d) \<le> n" by (simp add: query_cap_def)
  moreover have "length (slice_query f n d) \<le> query_cap f n d"
    using slice_query_take [of f n d] by (elim disjE exE) simp_all
  ultimately show ?thesis by linarith
qed

text \<open>The rest of a sorted list after a prefix is not newer than the prefix.\<close>

lemma sorted_rest_not_newer:
  assumes "sorted_wrt event_cmp_neg xs" "e \<in> set xs" "e \<notin> set (take k xs)" "x \<in> set (take k xs)"
  shows "ev_created_at e \<le> ev_created_at x"
proof -
  have "xs = take k xs @ drop k xs" by simp
  with assms(2,3) have "e \<in> set (drop k xs)" by (metis Un_iff set_append)
  with assms(1,4) have "event_cmp_neg x e"
    by (metis append_take_drop_id sorted_wrt_append)
  then show ?thesis by (auto simp: event_cmp_neg_def)
qed

lemma slice_query_complete:
  assumes inv: "slice_inv d" and f: "f_since f = 0" and e: "e \<in> set d" "filter_matches f e"
  shows "e \<in> set (slice_query f n d) \<or>
    (int (length (slice_query f n d)) \<ge> effective_limit f n \<and>
     (\<forall>x \<in> set (slice_query f n d). ev_created_at e \<le> ev_created_at x))"
proof (cases "theoretical_limit f = Some 0 \<or> effective_limit f n < 0")
  case True
  show ?thesis
  proof (cases "theoretical_limit f = Some 0")
    case True
    then have "effective_limit f n \<le> 0" by (simp add: effective_limit_def)
    with True show ?thesis by (simp add: slice_query_nil)
  next
    case False
    with True have neg: "effective_limit f n < 0" by simp
    let ?ms = "filter (filter_matches f) d"
    let ?p = "\<lambda>e. f_until f < ev_created_at e"
    have b: "bsearch ?p d 0 (length d) = length (takeWhile ?p d)"
      by (rule bsearch_takeWhile [OF slice_partitioned_time [OF inv]])
    have "e \<in> set (drop (if f_until f \<noteq> 0 then bsearch ?p d 0 (length d) else 0) d)"
    proof (cases "f_until f = 0")
      case False
      have "e \<notin> set (takeWhile ?p d)"
        using e(2) False by (auto simp: filter_matches_def dest: set_takeWhileD)
      then have "e \<in> set (dropWhile ?p d)" using e(1) by (metis Un_iff set_append takeWhile_dropWhile_id)
      then show ?thesis using False by (simp add: b dropWhile_eq_drop)
    qed (simp add: e)
    with neg False e f have "e \<in> set (slice_query f n d)"
      by (auto simp: slice_query_def Let_def b length_takeWhile_le not_less)
    then show ?thesis ..
  qed
next
  case False
  then have q: "slice_query f n d = take (nat (effective_limit f n)) (filter (filter_matches f) d)"
    by (intro slice_query_eq [OF inv f]) auto
  let ?ms = "filter (filter_matches f) d"
  have srt: "sorted_wrt event_cmp_neg ?ms" using inv by (simp add: slice_inv_def sorted_wrt_filter)
  have em: "e \<in> set ?ms" using e by simp
  show ?thesis
  proof (cases "e \<in> set (slice_query f n d)")
    case out: False
    have "nat (effective_limit f n) < length ?ms"
      using em out unfolding q by (metis leI take_all)
    moreover have "\<forall>x \<in> set (slice_query f n d). ev_created_at e \<le> ev_created_at x"
      using sorted_rest_not_newer [OF srt em] out unfolding q by blast
    ultimately show ?thesis using False by (simp add: q)
  qed simp
qed

text \<open>Saving through \<open>ReplaceEvent\<close>: a duplicate leaves the store as it was.\<close>

lemma slice_save_any:
  assumes "slice_inv d" "id_unique (insert e (set d))"
  shows "slice_inv (snd (slice_save e d)) \<and> set (snd (slice_save e d)) = insert e (set d)"
proof (cases "fst (slice_save e d)")
  case None
  then show ?thesis
    using slice_save_ok [OF assms] by (metis prod.collapse)
next
  case (Some err)
  let ?a = "dropWhile (\<lambda>x. event_cmp_neg x e) d"
  from Some have dup: "?a \<noteq> []" "event_cmp_zero (hd ?a) e" "snd (slice_save e d) = d"
    by (auto simp: slice_save_split [OF assms(1)] Let_def split: if_splits)
  then have "hd ?a \<in> set d" by (metis hd_in_set set_dropWhileD)
  moreover have "ev_id (hd ?a) = ev_id e" using dup by (simp add: event_cmp_zero_def)
  ultimately have "hd ?a = e" using assms(2) by (auto simp: id_unique_def inj_on_def)
  with \<open>hd ?a \<in> set d\<close> dup assms show ?thesis by auto
qed

lemma slice_delete_event_None: "fst (slice_delete_event i d) = None"
  by (simp add: slice_delete_event_def split: option.splits)

lemma slice_delete_event_any:
  "slice_inv d \<Longrightarrow> slice_inv (snd (slice_delete_event i d)) \<and>
     set (snd (slice_delete_event i d)) = {x \<in> set d. ev_id x \<noteq> i}"
  by (rule slice_delete_event_ok) (simp_all add: slice_delete_event_None prod_eq_iff)

lemma slice_replace_cases:
  assumes inv: "slice_inv d" and u: "id_unique (insert e (set d))"
    and r: "slice_replace e d = (err, d')"
  shows "err = None \<and> slice_inv d' \<and>
    ((slice_query (slot_filter e) 1 d = [] \<and> set d' = insert e (set d)) \<or>
     (\<exists>p \<in> set (slice_query (slot_filter e) 1 d).
        if is_older p e then set d' = insert e {x \<in> set d. ev_id x \<noteq> ev_id p} else d' = d))"
proof (cases "slice_query (slot_filter e) 1 d")
  case Nil
  with r slice_save_any [OF inv u] show ?thesis by (auto simp: slice_replace_def)
next
  case (Cons p ps)
  let ?d1 = "snd (slice_delete_event (ev_id p) d)"
  have d1: "slice_inv ?d1" "set ?d1 = {x \<in> set d. ev_id x \<noteq> ev_id p}"
    using slice_delete_event_any [OF inv] by auto
  have "id_unique (insert e (set ?d1))"
    by (rule id_unique_subset [OF u]) (auto simp: d1)
  from slice_save_any [OF d1(1) this] Cons r inv show ?thesis
    by (auto simp: slice_replace_def d1 split: if_splits)
qed

lemma slice_replace_ok:
  assumes inv: "slice_inv d" and u: "id_unique (insert e (set d))"
    and r: "slice_replace e d = (None, d')"
  shows "slice_inv d' \<and> set d' \<subseteq> insert e (set d) \<and>
    (\<forall>x \<in> set d. \<not> filter_matches (slot_filter e) x \<longrightarrow> x \<in> set d')"
proof -
  have keep: "x \<in> insert e {y \<in> set d. ev_id y \<noteq> ev_id p}"
    if "p \<in> set (slice_query (slot_filter e) 1 d)" "x \<in> set d"
      "\<not> filter_matches (slot_filter e) x" for p x
  proof -
    have "p \<in> set d" "filter_matches (slot_filter e) p"
      using slice_query_sound that(1) by blast+
    with that u have "ev_id x \<noteq> ev_id p"
      by (auto simp: id_unique_def inj_on_def)
    with that show ?thesis by simp
  qed
  show ?thesis
    using slice_replace_cases [OF inv u r] keep by (auto split: if_splits)
qed

lemma slice_replace_newer:
  assumes inv: "slice_inv d" and u: "id_unique (insert e (set d))"
    and r: "slice_replace e d = (None, d')"
    and new: "\<forall>x \<in> set d. filter_matches (slot_filter e) x \<longrightarrow> ev_created_at x < ev_created_at e"
  shows "e \<in> set d'"
proof -
  have "is_older p e" if "p \<in> set (slice_query (slot_filter e) 1 d)" for p
    using slice_query_sound [OF that] new by (auto simp: is_older_def)
  with slice_replace_cases [OF inv u r] show ?thesis by auto
qed

interpretation slicestore: event_store slice_ops set slice_inv
proof
  fix d :: slice_store and f n e
  assume inv: "slice_inv d"
  show "e \<in> set (so_query slice_ops f n d) \<Longrightarrow> e \<in> set d \<and> filter_matches f e"
    by (simp add: slice_ops_def slice_query_sound)
  show "0 \<le> n \<Longrightarrow> int (length (so_query slice_ops f n d)) \<le> n"
    by (simp add: slice_ops_def slice_query_limit)
  have srt: "sorted_wrt event_cmp_neg (slice_query f n d)"
    by (rule slice_query_sorted [OF inv])
  have "id_unique (set (slice_query f n d))"
    using inv slice_query_sound by (auto simp: slice_inv_def intro: id_unique_subset)
  with srt show "distinct (so_query slice_ops f n d)"
    by (simp add: slice_ops_def slice_inv_distinct slice_inv_def)
  show "sorted_wrt (\<lambda>a b. ev_created_at b \<le> ev_created_at a) (so_query slice_ops f n d)"
    unfolding slice_ops_def store_ops.simps
    by (rule sorted_wrt_mono_rel [OF _ srt]) (auto simp: event_cmp_neg_def)
  show "f_since f = 0 \<Longrightarrow> e \<in> set d \<Longrightarrow> filter_matches f e \<Longrightarrow>
      e \<in> set (so_query slice_ops f n d) \<or>
      (int (length (so_query slice_ops f n d)) \<ge> effective_limit f n \<and>
       (\<forall>x \<in> set (so_query slice_ops f n d). ev_created_at e \<le> ev_created_at x))"
    using slice_query_complete [OF inv, of f e n] by (simp add: slice_ops_def)
  fix d' i
  show "id_unique (insert e (set d)) \<Longrightarrow> so_save slice_ops e d = (None, d') \<Longrightarrow>
      slice_inv d' \<and> set d' = insert e (set d)"
    by (simp add: slice_ops_def slice_save_ok [OF inv])
  show "so_delete slice_ops i d = (None, d') \<Longrightarrow>
      slice_inv d' \<and> set d' = {x \<in> set d. ev_id x \<noteq> i}"
    using slice_delete_event_ok [OF inv] by (simp add: slice_ops_def)
  show "id_unique (insert e (set d)) \<Longrightarrow> so_replace slice_ops e d = (None, d') \<Longrightarrow>
      slice_inv d' \<and> set d' \<subseteq> insert e (set d) \<and>
      (\<forall>x \<in> set d. \<not> filter_matches (slot_filter e) x \<longrightarrow> x \<in> set d')"
    using slice_replace_ok [OF inv] by (simp add: slice_ops_def)
  show "id_unique (insert e (set d)) \<Longrightarrow> so_replace slice_ops e d = (None, d') \<Longrightarrow>
      \<forall>x \<in> set d. filter_matches (slot_filter e) x \<longrightarrow> ev_created_at x < ev_created_at e \<Longrightarrow>
      e \<in> set d'"
    using slice_replace_newer [OF inv] by (simp add: slice_ops_def)
next
  fix d d' :: slice_store and e err i
  show "so_save slice_ops e d = (Some err, d') \<Longrightarrow> d' = d"
    by (auto simp: slice_ops_def slice_save_def Let_def split: if_splits)
  show "so_delete slice_ops i d = (Some err, d') \<Longrightarrow> d' = d"
    using slice_delete_event_None [of i d] by (simp add: slice_ops_def)
  show "so_replace slice_ops e d = (Some err, d') \<Longrightarrow> d' = d"
    by (simp add: slice_ops_def slice_replace_def split: list.splits if_splits)
qed

end
