(* ===== verification/GroupState.thy ===== *)
theory GroupState
  imports Nip29 Store "HOL-Library.Char_ord" "HOL-Library.List_Lexorder"
begin

text \<open>
  The groups the relay keeps (\<^verbatim>\<open>state.go\<close>, \<^verbatim>\<open>group.go\<close>): the state, the parent links between
  groups, loading from the store, and the publication of a group's metadata events.
  A \<open>*Group\<close> is identified by its id: every group is reached through the map \<open>Groups\<close>, and one
  handler runs at a time.
\<close>

subsection \<open>State\<close>

record group = nip29_group +
  gr_parent :: string
  gr_children :: "string list"
  gr_last50 :: "eid list"
  gr_last50index :: "32 word"

record deleted_group =
  dg_id :: string
  dg_at :: timestamp
  dg_by :: pubkey

record livekit_settings =
  lk_server_url :: string
  lk_api_key :: string
  lk_api_secret :: string

type_synonym groups = "string \<rightharpoonup> group"

record 'd groups_state =
  gs_groups :: groups
  gs_all_members :: "pubkey \<rightharpoonup> int"
  gs_deleted :: "string \<rightharpoonup> deleted_group"
  gs_db :: 'd
  gs_relay_url :: string
  gs_base_url :: string
  gs_livekit :: livekit_settings
  gs_deleted_cache :: "eid list"
  gs_deleted_index :: "32 word"
  gs_secret_key :: seckey

definition primaryRoleName :: string where "primaryRoleName = ''admin''"
definition secondaryRoleName :: string where "secondaryRoleName = ''moderator''"

definition new_group :: "string \<Rightarrow> string \<Rightarrow> group" where
  "new_group relay_url gid =
     \<lparr>g_address = \<lparr>addr_relay = relay_url, addr_id = gid\<rparr>,
      g_name = [], g_picture = [], g_about = [], g_members = Map.empty, g_participants = [],
      g_private = False, g_restricted = False, g_closed = False, g_hidden = False,
      g_livekit = False, g_supported_kinds = None,
      g_roles = [\<lparr>role_name = primaryRoleName, role_description = []\<rparr>,
                 \<lparr>role_name = secondaryRoleName, role_description = []\<rparr>],
      g_invite_codes = [], g_last_metadata = 0, g_last_admins = 0, g_last_members = 0,
      g_last_roles = 0, g_last_participants = 0,
      gr_parent = [], gr_children = [], gr_last50 = replicate 50 0, gr_last50index = 0\<rparr>"

text \<open>An action changes the NIP-29 part of a group only.\<close>

lemma put_target_group [simp]:
  "gr_parent (put_target code w t g) = gr_parent g" "gr_children (put_target code w t g) = gr_children g"
  "gr_last50 (put_target code w t g) = gr_last50 g"
  "gr_last50index (put_target code w t g) = gr_last50index g"
  by (simp_all add: put_target_def Let_def)

lemma remove_target_group [simp]:
  "gr_parent (remove_target w pk g) = gr_parent g" "gr_children (remove_target w pk g) = gr_children g"
  "gr_last50 (remove_target w pk g) = gr_last50 g"
  "gr_last50index (remove_target w pk g) = gr_last50index g"
  by (simp_all add: remove_target_def Let_def split: option.splits)

lemma fold_keeps: "(\<And>x g. f (h x g) = f g) \<Longrightarrow> f (fold h xs g) = f g"
  by (induction xs arbitrary: g) simp_all

lemma apply_action_group [simp]:
  "gr_parent (apply_action act g) = gr_parent g" "gr_children (apply_action act g) = gr_children g"
  "gr_last50 (apply_action act g) = gr_last50 g"
  "gr_last50index (apply_action act g) = gr_last50index g"
  by (cases act; simp add: fold_keeps [of gr_parent] fold_keeps [of gr_children]
      fold_keeps [of gr_last50] fold_keeps [of gr_last50index] apply_edit_def replace_metadata_def
      apply_delete_group_def Let_def)+

text \<open>\<open>NewGroupsState\<close> before it loads: nothing but its options.\<close>

definition empty_groups_state ::
  "'d \<Rightarrow> seckey \<Rightarrow> string \<Rightarrow> string \<Rightarrow> livekit_settings \<Rightarrow> 'd groups_state" where
  "empty_groups_state db sk relay_url base_url lk =
     \<lparr>gs_groups = Map.empty, gs_all_members = Map.empty, gs_deleted = Map.empty, gs_db = db,
      gs_relay_url = relay_url, gs_base_url = base_url, gs_livekit = lk,
      gs_deleted_cache = replicate 128 0, gs_deleted_index = 0, gs_secret_key = sk\<rparr>"

definition update_runtime_config ::
  "string \<Rightarrow> string \<Rightarrow> livekit_settings \<Rightarrow> 'd groups_state \<Rightarrow> 'd groups_state" where
  "update_runtime_config relay_url base_url lk s =
     s\<lparr>gs_relay_url := relay_url, gs_base_url := base_url, gs_livekit := lk\<rparr>"

subsection \<open>What an event says about groups\<close>

definition get_group_id_from_event :: "event \<Rightarrow> string option" where
  "get_group_id_from_event e =
     (if kinds_includes metadata_event_kinds (ev_kind e)
      then map_option (\<lambda>t. t ! 1) (tags_find (ev_tags e) ''d'')
      else map_option (\<lambda>t. t ! 1) (tags_find (ev_tags e) ''h''))"

definition get_parent_from_event :: "event \<Rightarrow> string option" where
  "get_parent_from_event e =
     (case tags_find (ev_tags e) ''parent'' of
        None \<Rightarrow> None
      | Some t \<Rightarrow> if 2 \<le> length t \<and> t ! 1 \<noteq> [] then Some (t ! 1) else None)"

definition get_group_from_event :: "groups \<Rightarrow> event \<Rightarrow> group option" where
  "get_group_from_event gs e =
     (case get_group_id_from_event e of None \<Rightarrow> None | Some gid \<Rightarrow> gs gid)"

definition any_of_these_is_a_member :: "'a nip29_group_scheme \<Rightarrow> pubkey list \<Rightarrow> bool" where
  "any_of_these_is_a_member g pks \<longleftrightarrow> list_ex (is_member g) pks"

subsection \<open>Parents and children\<close>

definition bump_metadata :: "timestamp \<Rightarrow> group \<Rightarrow> group" where
  "bump_metadata w g = (if g_last_metadata g < w then g\<lparr>g_last_metadata := w\<rparr> else g)"

text \<open>The result: the new groups, whether the parent was found, whether its children changed.\<close>

definition add_parent_child :: "string \<Rightarrow> string \<Rightarrow> timestamp \<Rightarrow> groups \<Rightarrow> groups \<times> bool \<times> bool" where
  "add_parent_child parentID childID w gs =
     (case gs parentID of
        None \<Rightarrow> (gs, False, False)
      | Some p \<Rightarrow>
          if childID \<in> set (gr_children p) then (gs, True, False)
          else (gs(parentID \<mapsto> bump_metadata w (p\<lparr>gr_children := gr_children p @ [childID]\<rparr>)),
                True, True))"

definition remove_parent_child :: "string \<Rightarrow> string \<Rightarrow> timestamp \<Rightarrow> groups \<Rightarrow> groups \<times> bool \<times> bool" where
  "remove_parent_child parentID childID w gs =
     (case gs parentID of
        None \<Rightarrow> (gs, False, False)
      | Some p \<Rightarrow>
          (case slice_index (gr_children p) childID of
             None \<Rightarrow> (gs, True, False)
           | Some i \<Rightarrow>
               (gs(parentID \<mapsto> bump_metadata w (p\<lparr>gr_children := slice_delete (gr_children p) i\<rparr>)),
                True, True)))"

text \<open>The walk up the parent links; the first argument is what is left of \<open>maxDepth\<close>.\<close>

fun cycle_walk :: "nat \<Rightarrow> groups \<Rightarrow> string \<Rightarrow> string \<Rightarrow> bool" where
  "cycle_walk 0 gs newID cur = True"
| "cycle_walk (Suc n) gs newID cur =
     (if cur = newID then True
      else case gs cur of
             None \<Rightarrow> False
           | Some g \<Rightarrow> if gr_parent g = [] then False else cycle_walk n gs newID (gr_parent g))"

definition max_depth :: nat where "max_depth = 1024"

definition would_create_cycle :: "groups \<Rightarrow> string \<Rightarrow> string \<Rightarrow> bool" where
  "would_create_cycle gs newID parentID = cycle_walk max_depth gs newID parentID"

subsection \<open>Counting members over all groups\<close>

text \<open>The \<open>Compute\<close> calls: a missing key counts as 0; the second deletes the key at 1 or below.\<close>

definition count_up :: "pubkey \<Rightarrow> (pubkey \<rightharpoonup> int) \<Rightarrow> (pubkey \<rightharpoonup> int)" where
  "count_up pk m = m(pk \<mapsto> (case m pk of None \<Rightarrow> 0 | Some c \<Rightarrow> c) + 1)"

definition count_down :: "pubkey \<Rightarrow> (pubkey \<rightharpoonup> int) \<Rightarrow> (pubkey \<rightharpoonup> int)" where
  "count_down pk m =
     (let c = (case m pk of None \<Rightarrow> 0 | Some c \<Rightarrow> c)
      in if c \<le> 1 then m(pk := None) else m(pk \<mapsto> c - 1))"

fun update_all_members :: "action \<Rightarrow> (pubkey \<rightharpoonup> int) \<Rightarrow> (pubkey \<rightharpoonup> int)" where
  "update_all_members (PutUser targets code w) m = fold count_up (map fst targets) m"
| "update_all_members (RemoveUser targets w) m = fold count_down targets m"
| "update_all_members _ m = m"

subsection \<open>Loading\<close>

definition h_filter :: "string \<Rightarrow> nfilter" where
  "h_filter gid = empty_filter\<lparr>f_tags := [(''h'', [gid])]\<rparr>"

definition moderation_filter :: "string \<Rightarrow> nfilter" where
  "moderation_filter gid = (h_filter gid)\<lparr>f_kinds := Some moderation_event_kinds\<rparr>"

definition create_filter :: nfilter where
  "create_filter = empty_filter\<lparr>f_kinds := Some [kCreateGroup]\<rparr>"

text \<open>The actions of a list of events, oldest first; an event that does not decode is skipped.\<close>

fun replay_actions ::
  "(pubkey \<Rightarrow> bool) \<Rightarrow> event list \<Rightarrow> group \<times> (pubkey \<rightharpoonup> int) \<Rightarrow> group \<times> (pubkey \<rightharpoonup> int)" where
  "replay_actions valid [] st = st"
| "replay_actions valid (e # es) st =
     (case prepare_moderation_action valid e of
        Inl _ \<Rightarrow> replay_actions valid es st
      | Inr act \<Rightarrow>
          replay_actions valid es (apply_action act (fst st), update_all_members act (snd st)))"

text \<open>
  \<open>last50\<close> is filled from the back, newest event first; \<open>Suc i\<close> is the Go index \<open>i\<close>. A 51st event
  would index -1 and panic.
\<close>

fun fill_last50 :: "nat \<Rightarrow> event list \<Rightarrow> eid list \<Rightarrow> eid list outcome" where
  "fill_last50 n [] l = Returned l"
| "fill_last50 0 (e # es) l = Panicked"
| "fill_last50 (Suc i) (e # es) l = fill_last50 i es (l[i := ev_id e])"

text \<open>One turn of the \<open>nextgroup\<close> loop.\<close>

definition load_group ::
  "'d store_ops \<Rightarrow> (pubkey \<Rightarrow> bool) \<Rightarrow> event \<Rightarrow> 'd groups_state \<Rightarrow> unit outcome \<times> 'd groups_state" where
  "load_group ops valid evt s =
     (case get_group_id_from_event evt of
        None \<Rightarrow> (Returned (), s)
      | Some gid \<Rightarrow>
          let g0 = new_group (gs_relay_url s) gid;
              g = (case get_parent_from_event evt of None \<Rightarrow> g0 | Some p \<Rightarrow> g0\<lparr>gr_parent := p\<rparr>);
              events = so_query ops (moderation_filter gid) 50000 (gs_db s)
          in case find (\<lambda>e. ev_kind e = kDeleteGroup) events of
               Some e \<Rightarrow>
                 (Returned (), s\<lparr>gs_deleted := (gs_deleted s)(gid \<mapsto>
                    \<lparr>dg_id = gid, dg_at = ev_created_at e, dg_by = ev_pubkey e\<rparr>)\<rparr>)
             | None \<Rightarrow>
                 (case replay_actions valid (rev events) (g, gs_all_members s) of
                    (g1, am) \<Rightarrow>
                      (case fill_last50 50 (so_query ops (h_filter gid) 50 (gs_db s)) (gr_last50 g1) of
                         Panicked \<Rightarrow> (Panicked, s\<lparr>gs_all_members := am\<rparr>)
                       | Returned l50 \<Rightarrow>
                           (Returned (),
                            s\<lparr>gs_all_members := am,
                              gs_groups := (gs_groups s)(gid \<mapsto> g1\<lparr>gr_last50 := l50\<rparr>),
                              gs_deleted := (gs_deleted s)(gid := None)\<rparr>))))"

fun load_groups ::
  "'d store_ops \<Rightarrow> (pubkey \<Rightarrow> bool) \<Rightarrow> event list \<Rightarrow> 'd groups_state \<Rightarrow> unit outcome \<times> 'd groups_state" where
  "load_groups ops valid [] s = (Returned (), s)"
| "load_groups ops valid (e # es) s =
     (case load_group ops valid e s of
        (Panicked, s') \<Rightarrow> (Panicked, s')
      | (Returned _, s') \<Rightarrow> load_groups ops valid es s')"

text \<open>The children of every group, rebuilt from the parent links; \<open>ord\<close> is the map's order.\<close>

definition rebuild_child :: "string \<Rightarrow> groups \<Rightarrow> groups" where
  "rebuild_child cid gs =
     (case gs cid of
        None \<Rightarrow> gs
      | Some c \<Rightarrow>
          if gr_parent c \<noteq> [] then fst (add_parent_child (gr_parent c) (g_id c) (g_last_metadata c) gs)
          else gs)"

definition rebuild_children :: "string list \<Rightarrow> groups \<Rightarrow> groups" where
  "rebuild_children ord gs = fold rebuild_child ord gs"

subsection \<open>Publishing a group's metadata\<close>

text \<open>The orders in which \<open>range\<close> visits the members of a group, for its two roster events.\<close>

type_synonym roster_orders = "pubkey list \<times> pubkey list"

definition group_metadata_event :: "group \<Rightarrow> event" where
  "group_metadata_event g =
     (let m = to_metadata_event g;
          t1 = (if gr_parent g \<noteq> [] then ev_tags m @ [[''parent'', gr_parent g]] else ev_tags m)
      in m\<lparr>ev_tags := t1 @ map (\<lambda>c. [''child'', c]) (sort (gr_children g))\<rparr>)"

definition sync_candidates :: "roster_orders \<Rightarrow> group \<Rightarrow> event list" where
  "sync_candidates ords g =
     [group_metadata_event g, to_admins_event (fst ords) g, to_members_event (snd ords) g,
      to_roles_event g]"

definition snapshot_filter :: "kind \<Rightarrow> pubkey \<Rightarrow> string \<Rightarrow> nfilter" where
  "snapshot_filter k author gid =
     empty_filter\<lparr>f_kinds := Some [k], f_authors := Some [author], f_tags := [(''d'', [gid])]\<rparr>"

definition current_snapshot ::
  "'d store_ops \<Rightarrow> crypto \<Rightarrow> seckey \<Rightarrow> string \<Rightarrow> kind \<Rightarrow> 'd \<Rightarrow> event" where
  "current_snapshot ops c sk gid k db =
     (case so_query ops (snapshot_filter k (cr_public c sk) gid) 1 db of
        [] \<Rightarrow> zero_event
      | es \<Rightarrow> last es)"

text \<open>
  One candidate: nothing if its tags are already published, else made newer than the published
  one, signed (the error of \<open>Sign\<close> is dropped) and stored; it is yielded if stored and recent.
\<close>

definition supersede :: "event \<Rightarrow> event \<Rightarrow> event" where
  "supersede current updated =
     (if ev_created_at updated \<le> ev_created_at current
      then updated\<lparr>ev_created_at := int64 (ev_created_at current + 1)\<rparr> else updated)"

definition sync_one ::
  "'d store_ops \<Rightarrow> crypto \<Rightarrow> seckey \<Rightarrow> timestamp \<Rightarrow> string \<Rightarrow> event \<Rightarrow> 'd \<Rightarrow> event list \<times> 'd" where
  "sync_one ops c sk now gid updated db =
     (let current = current_snapshot ops c sk gid (ev_kind updated) db
      in if ev_tags current = ev_tags updated then ([], db)
         else
           let signed = fst (event_sign c sk (supersede current updated))
           in case so_replace ops signed db of
                (Some _, db') \<Rightarrow> ([], db')
              | (None, db') \<Rightarrow>
                  (if int64 (now - 180) < ev_created_at signed then [signed] else [], db'))"

fun sync_events ::
  "'d store_ops \<Rightarrow> crypto \<Rightarrow> seckey \<Rightarrow> timestamp \<Rightarrow> string \<Rightarrow> event list \<Rightarrow> 'd \<Rightarrow> event list \<times> 'd" where
  "sync_events ops c sk now gid [] db = ([], db)"
| "sync_events ops c sk now gid (e # es) db =
     (case sync_one ops c sk now gid e db of
        (ys, db1) \<Rightarrow> (case sync_events ops c sk now gid es db1 of (zs, db2) \<Rightarrow> (ys @ zs, db2)))"

text \<open>\<open>SyncGroupMetadataEvents\<close> with a consumer that takes everything: the events it yields.\<close>

definition sync_group_metadata_events ::
  "'d store_ops \<Rightarrow> crypto \<Rightarrow> timestamp \<Rightarrow> roster_orders \<Rightarrow> group \<Rightarrow> 'd groups_state \<Rightarrow>
     event list \<times> 'd groups_state" where
  "sync_group_metadata_events ops c now ords g s =
     (case sync_events ops c (gs_secret_key s) now (g_id g) (sync_candidates ords g) (gs_db s) of
        (ys, db) \<Rightarrow> (ys, s\<lparr>gs_db := db\<rparr>))"

fun sync_all ::
  "'d store_ops \<Rightarrow> crypto \<Rightarrow> timestamp \<Rightarrow> (string \<Rightarrow> roster_orders) \<Rightarrow> string list \<Rightarrow>
     'd groups_state \<Rightarrow> event list \<times> 'd groups_state" where
  "sync_all ops c now ords [] s = ([], s)"
| "sync_all ops c now ords (gid # gids) s =
     (case gs_groups s gid of
        None \<Rightarrow> sync_all ops c now ords gids s
      | Some g \<Rightarrow>
          (case sync_group_metadata_events ops c now (ords gid) g s of
             (ys, s1) \<Rightarrow> (case sync_all ops c now ords gids s1 of (zs, s2) \<Rightarrow> (ys @ zs, s2))))"

text \<open>
  \<open>loadGroupsFromDB\<close>: \<open>gord1\<close> and \<open>gord2\<close> are the orders of its two loops over the groups. The
  events to broadcast are returned.
\<close>

definition load_groups_from_db ::
  "'d store_ops \<Rightarrow> crypto \<Rightarrow> timestamp \<Rightarrow> (string \<Rightarrow> roster_orders) \<Rightarrow> string list \<Rightarrow> string list \<Rightarrow>
     'd groups_state \<Rightarrow> event list outcome \<times> 'd groups_state" where
  "load_groups_from_db ops c now ords gord1 gord2 s =
     (case load_groups ops (cr_valid c) (so_query ops create_filter 500000 (gs_db s)) s of
        (Panicked, s1) \<Rightarrow> (Panicked, s1)
      | (Returned _, s1) \<Rightarrow>
          (case sync_all ops c now ords gord2
                  (s1\<lparr>gs_groups := rebuild_children gord1 (gs_groups s1)\<rparr>) of
             (ys, s2) \<Rightarrow> (Returned ys, s2)))"

text \<open>\<open>NewGroupsState\<close>: an error of loading, or a panic in it, panics.\<close>

definition new_groups_state ::
  "'d store_ops \<Rightarrow> crypto \<Rightarrow> timestamp \<Rightarrow> (string \<Rightarrow> roster_orders) \<Rightarrow> string list \<Rightarrow> string list \<Rightarrow>
     'd \<Rightarrow> seckey \<Rightarrow> string \<Rightarrow> string \<Rightarrow> livekit_settings \<Rightarrow> (event list \<times> 'd groups_state) outcome" where
  "new_groups_state ops c now ords gord1 gord2 db sk relay_url base_url lk =
     (case load_groups_from_db ops c now ords gord1 gord2 (empty_groups_state db sk relay_url base_url lk) of
        (Panicked, s) \<Rightarrow> Panicked
      | (Returned ys, s) \<Rightarrow> Returned (ys, s))"

text \<open>\<open>LoadDeletedGroupState\<close>: the group as it was when it was deleted.\<close>

definition load_deleted_group_state ::
  "'d store_ops \<Rightarrow> (pubkey \<Rightarrow> bool) \<Rightarrow> string \<Rightarrow> 'd groups_state \<Rightarrow> (group \<times> deleted_group) option" where
  "load_deleted_group_state ops valid gid s =
     (case gs_deleted s gid of
        None \<Rightarrow> None
      | Some dg \<Rightarrow>
          let events = filter (\<lambda>e. \<not> (ev_kind e = kDeleteGroup \<or> dg_at dg < ev_created_at e))
                         (so_query ops (moderation_filter gid) 50000 (gs_db s))
          in Some (fst (replay_actions valid (rev events)
                     (new_group (gs_relay_url s) gid, Map.empty)), dg))"

subsection \<open>The parent relation\<close>

text \<open>\<open>parent_rel\<close> holds the pairs of a live group and the parent it declares.\<close>

definition parent_rel :: "groups \<Rightarrow> (string \<times> string) set" where
  "parent_rel gs = {(c, p). \<exists>g. gs c = Some g \<and> gr_parent g = p \<and> p \<noteq> []}"

lemma parent_rel_single: "(c, p) \<in> parent_rel gs \<Longrightarrow> (c, q) \<in> parent_rel gs \<Longrightarrow> p = q"
  by (auto simp: parent_rel_def)

text \<open>The walk answers \<open>True\<close> if it meets \<open>newID\<close>, or if it has not ended after its steps.\<close>

lemma cycle_walk_reaches:
  "(cur, newID) \<in> (parent_rel gs)\<^sup>* \<Longrightarrow> cycle_walk n gs newID cur"
proof (induction n arbitrary: cur)
  case 0
  then show ?case by simp
next
  case (Suc n)
  show ?case
  proof (cases "cur = newID")
    case True
    then show ?thesis by simp
  next
    case False
    with Suc.prems obtain p where p: "(cur, p) \<in> parent_rel gs" "(p, newID) \<in> (parent_rel gs)\<^sup>*"
      by (meson converse_rtranclE)
    with Suc.IH [OF p(2)] show ?thesis by (auto simp: parent_rel_def)
  qed
qed

text \<open>A walk that is still going after \<open>n\<close> steps has visited \<open>n\<close> groups.\<close>

lemma cycle_walk_long:
  "cycle_walk n gs newID cur \<Longrightarrow> (cur, newID) \<notin> (parent_rel gs)\<^sup>* \<Longrightarrow>
   \<exists>xs. length xs = n \<and> successively (\<lambda>a b. (a, b) \<in> parent_rel gs) (cur # xs)"
proof (induction n arbitrary: cur)
  case 0
  then show ?case by simp
next
  case (Suc n)
  from Suc.prems have "cur \<noteq> newID" by auto
  with Suc.prems(1) obtain g where g: "gs cur = Some g" "gr_parent g \<noteq> []"
      "cycle_walk n gs newID (gr_parent g)"
    by (auto split: option.splits if_splits)
  then have e: "(cur, gr_parent g) \<in> parent_rel gs" by (simp add: parent_rel_def)
  with Suc.prems(2) have "(gr_parent g, newID) \<notin> (parent_rel gs)\<^sup>*"
    by (meson converse_rtrancl_into_rtrancl)
  from Suc.IH [OF g(3) this] obtain xs where "length xs = n"
      "successively (\<lambda>a b. (a, b) \<in> parent_rel gs) (gr_parent g # xs)" by blast
  with e show ?case by (intro exI [of _ "gr_parent g # xs"]) simp
qed

lemma successively_trancl:
  "successively (\<lambda>a b. (a, b) \<in> r) (x # xs) \<Longrightarrow> y \<in> set xs \<Longrightarrow> (x, y) \<in> r\<^sup>+"
proof (induction xs arbitrary: x)
  case (Cons z xs)
  then have "(x, z) \<in> r" "y = z \<or> (z, y) \<in> r\<^sup>+" by auto
  then show ?case by (auto intro: trancl_into_trancl2)
qed simp

lemma acyclic_walk_distinct:
  "acyclic r \<Longrightarrow> successively (\<lambda>a b. (a, b) \<in> r) xs \<Longrightarrow> distinct xs"
proof (induction xs)
  case (Cons x xs)
  have "successively (\<lambda>a b. (a, b) \<in> r) xs" using Cons.prems(2) by (cases xs) auto
  moreover have "x \<notin> set xs"
    using successively_trancl [OF Cons.prems(2)] Cons.prems(1) by (auto simp: acyclic_def)
  ultimately show ?case using Cons by simp
qed simp

lemma walk_sources:
  "successively (\<lambda>a b. (a, b) \<in> parent_rel gs) (x # xs) \<Longrightarrow> set (butlast (x # xs)) \<subseteq> dom gs"
proof (induction xs arbitrary: x)
  case (Cons y ys)
  then have "x \<in> dom gs" by (auto simp: parent_rel_def)
  moreover have "set (butlast (y # ys)) \<subseteq> dom gs" using Cons by simp
  ultimately show ?case by simp
qed simp


text \<open>
  A link the check lets through closes no cycle: giving a group a parent that passed keeps the
  parent relation acyclic. No bound is needed: a chain too deep counts as a cycle.
\<close>

theorem accepted_link_keeps_forest:
  assumes acyc: "acyclic (parent_rel gs)" and chk: "\<not> would_create_cycle gs gid p"
    and g: "gr_parent g = p"
  shows "acyclic (parent_rel (gs(gid \<mapsto> g)))"
proof -
  have sub: "parent_rel (gs(gid \<mapsto> g)) \<subseteq> insert (gid, p) (parent_rel gs)"
    using g by (auto simp: parent_rel_def split: if_splits)
  have "(p, gid) \<notin> (parent_rel gs)\<^sup>*"
    using chk cycle_walk_reaches unfolding would_create_cycle_def by blast
  with acyc have "acyclic (insert (gid, p) (parent_rel gs))" by (simp add: acyclic_insert)
  then show ?thesis using sub by (rule acyclic_subset)
qed

definition ex_forest :: groups where
  "ex_forest = [''a'' \<mapsto> new_group [] ''a'', ''b'' \<mapsto> (new_group [] ''b'')\<lparr>gr_parent := ''a''\<rparr>]"

lemma ex_forest_rel: "parent_rel ex_forest = {(''b'', ''a'')}"
  by (auto simp: parent_rel_def ex_forest_def new_group_def split: if_splits)

lemma ex_forest_acyclic: "acyclic (parent_rel ex_forest)"
proof -
  have "acyclic ({} :: (string \<times> string) set)" by (simp add: acyclic_def)
  then show ?thesis by (simp add: ex_forest_rel)
qed


theorem accepted_link_keeps_forest_witness:
  "acyclic (parent_rel (ex_forest(''c'' \<mapsto> (new_group [] ''c'')\<lparr>gr_parent := ''b''\<rparr>)))"
proof (rule accepted_link_keeps_forest [OF ex_forest_acyclic])
  show "\<not> would_create_cycle ex_forest ''c'' ''b''"
    by (simp add: would_create_cycle_def max_depth_def numeral_eq_Suc ex_forest_def new_group_def)
qed simp

end
