(* ===== verification/Settings.thy ===== *)
theory Settings
  imports Nostr
begin

text \<open>
  The relay's settings and environment (\<^verbatim>\<open>global/settings.go\<close>, \<^verbatim>\<open>global/env.go\<close>), what they
  derive, and the limiter of group creations (\<^verbatim>\<open>global/rate_limits.go\<close> over
  \<^verbatim>\<open>khatru/policies\<close>).
\<close>

subsection \<open>Settings and environment\<close>

record blossom_settings =
  bl_enabled :: bool
  bl_s3_endpoint :: string
  bl_s3_key_id :: string
  bl_s3_secret :: string
  bl_s3_bucket :: string
  bl_s3_redirect_base_url :: string
  bl_local_path :: string

record rate_limit_config =
  rl_tokens_per_interval :: int
  rl_interval_seconds :: int
  rl_max_tokens :: int

record groups_settings =
  gc_livekit_server_url :: string
  gc_livekit_api_key :: string
  gc_livekit_api_secret :: string
  gc_create_presence_relays :: "string list"
  gc_transit_presence_relays :: "string list"
  gc_create_rate_limit :: rate_limit_config

record gift_wrap_settings =
  gw_enabled :: bool
  gw_presence_relays :: "string list"

record settings =
  st_relay_name :: string
  st_relay_description :: string
  st_relay_contact :: string
  st_relay_icon :: string
  st_relay_secret_key :: seckey
  st_owner_pub_key :: pubkey
  st_blossom :: blossom_settings
  st_groups :: groups_settings
  st_gift_wraps :: gift_wrap_settings
  st_relay_public_key :: pubkey

record env =
  en_port :: string
  en_host :: string
  en_domain :: string
  en_data_path :: string
  en_owner_public_key :: string

text \<open>The receiver of \<open>RelayPublicKey\<close> is a copy: what it caches there is lost.\<close>

definition relay_public_key :: "crypto \<Rightarrow> settings \<Rightarrow> pubkey" where
  "relay_public_key c s =
     (if st_relay_public_key s = 0 then cr_public c (st_relay_secret_key s)
      else st_relay_public_key s)"

definition http_scheme :: "env \<Rightarrow> string" where
  "http_scheme e = (if en_domain e = [] then ''http://'' else ''https://'')"

definition ws_scheme :: "env \<Rightarrow> string" where
  "ws_scheme e = ''ws'' @ drop 4 (http_scheme e)"

text \<open>\<open>net.JoinHostPort\<close>.\<close>

definition join_host_port :: "string \<Rightarrow> string \<Rightarrow> string" where
  "join_host_port host port =
     (if CHR '':'' \<in> set host then ''['' @ host @ '']:'' @ port else host @ '':'' @ port)"

text \<open>The two URLs; the host of the environment is changed on the way.\<close>

definition localise_host :: "env \<Rightarrow> env" where
  "localise_host e =
     (if en_host e = ''0.0.0.0'' \<or> en_host e = ''::'' then e\<lparr>en_host := ''localE.Host''\<rparr> else e)"

definition relay_base_url :: "env \<Rightarrow> string \<times> env" where
  "relay_base_url e =
     (if en_domain e \<noteq> [] then (http_scheme e @ en_domain e, e)
      else let e1 = localise_host e
           in (''http://'' @ join_host_port (en_host e1) (en_port e1), e1))"

definition relay_ws_url :: "env \<Rightarrow> string \<times> env" where
  "relay_ws_url e =
     (if en_domain e \<noteq> [] then (ws_scheme e @ en_domain e, e)
      else let e1 = localise_host e
           in (''ws://'' @ join_host_port (en_host e1) (en_port e1), e1))"

text \<open>What \<open>loadSettings\<close> writes when there is no settings file; \<open>sk\<close> is the generated key.\<close>

definition default_settings :: "seckey \<Rightarrow> settings" where
  "default_settings sk =
     \<lparr>st_relay_name = ''croissant'', st_relay_description = ''groups provider'',
      st_relay_contact = [], st_relay_icon = [], st_relay_secret_key = sk, st_owner_pub_key = 0,
      st_blossom = \<lparr>bl_enabled = False, bl_s3_endpoint = [], bl_s3_key_id = [], bl_s3_secret = [],
        bl_s3_bucket = [], bl_s3_redirect_base_url = [], bl_local_path = ''blossom-files''\<rparr>,
      st_groups = \<lparr>gc_livekit_server_url = [], gc_livekit_api_key = [], gc_livekit_api_secret = [],
        gc_create_presence_relays = [], gc_transit_presence_relays = [],
        gc_create_rate_limit = \<lparr>rl_tokens_per_interval = 1, rl_interval_seconds = 10800,
          rl_max_tokens = 100\<rparr>\<rparr>,
      st_gift_wraps = \<lparr>gw_enabled = False, gw_presence_relays = []\<rparr>,
      st_relay_public_key = 0\<rparr>"

subsection \<open>The rate limiter\<close>

text \<open>
  \<open>startRateLimitSystem\<close>: a counter of used tokens per key, in 32 bits. A request looks at the
  counter as a signed number; every interval the ticker gives tokens back and drops the counters
  that reach 0. The load, the test and the add of a request are one step here, as is a tick.
\<close>

type_synonym buckets = "string \<rightharpoonup> 32 word"

record limiter =
  lm_tokens :: int
  lm_interval :: int
  lm_max :: int
  lm_buckets :: buckets

definition int32 :: "int \<Rightarrow> 32 word" where
  "int32 n = word_of_int n"

definition limiter_take :: "int \<Rightarrow> string \<Rightarrow> buckets \<Rightarrow> bool \<times> buckets" where
  "limiter_take mx key b =
     (let nb = (case b key of None \<Rightarrow> 0 | Some v \<Rightarrow> v)
      in if sint nb < sint (int32 mx) then (False, b(key \<mapsto> nb + 1))
         else (True, b(key \<mapsto> nb)))"

definition limiter_tick :: "int \<Rightarrow> buckets \<Rightarrow> buckets" where
  "limiter_tick tokens b =
     (\<lambda>key. case b key of
              None \<Rightarrow> None
            | Some v \<Rightarrow> let newv = v + int32 (- tokens)
                        in if sint newv \<le> 0 then None else Some newv)"

text \<open>\<open>EventIPRateLimiter\<close>: local addresses are not limited.\<close>

definition event_ip_rate_limiter :: "string \<Rightarrow> limiter \<Rightarrow> bool \<times> limiter" where
  "event_ip_rate_limiter ip l =
     (if ip = ''127.0.0.1'' \<or> ip = ''::1'' then (False, l)
      else case limiter_take (lm_max l) ip (lm_buckets l) of
             (r, b) \<Rightarrow> (r, l\<lparr>lm_buckets := b\<rparr>))"

definition configure_group_create_rate_limit :: "settings \<Rightarrow> limiter option" where
  "configure_group_create_rate_limit s =
     (let cfg = gc_create_rate_limit (st_groups s)
      in if rl_tokens_per_interval cfg \<le> 0 \<or> rl_interval_seconds cfg \<le> 0 \<or> rl_max_tokens cfg \<le> 0
         then None
         else Some \<lparr>lm_tokens = rl_tokens_per_interval cfg,
                    lm_interval = int64 (rl_interval_seconds cfg * 1000000000),
                    lm_max = rl_max_tokens cfg, lm_buckets = Map.empty\<rparr>)"

text \<open>
  A run of the limiter as one key sees it: \<open>True\<close> is a request of this key, \<open>False\<close> a tick.
  The result is how many requests were let through.
\<close>

fun limiter_run :: "int \<Rightarrow> int \<Rightarrow> string \<Rightarrow> bool list \<Rightarrow> buckets \<Rightarrow> nat" where
  "limiter_run mx tokens key [] b = 0"
| "limiter_run mx tokens key (True # es) b =
     (case limiter_take mx key b of
        (limited, b') \<Rightarrow> (if limited then 0 else 1) + limiter_run mx tokens key es b')"
| "limiter_run mx tokens key (False # es) b = limiter_run mx tokens key es (limiter_tick tokens b)"

definition used :: "buckets \<Rightarrow> string \<Rightarrow> int" where
  "used b key = (case b key of None \<Rightarrow> 0 | Some v \<Rightarrow> sint v)"

definition limits_in_range :: "int \<Rightarrow> int \<Rightarrow> bool" where
  "limits_in_range mx tokens \<longleftrightarrow> 0 < mx \<and> mx < 2 ^ 31 \<and> 0 < tokens \<and> tokens < 2 ^ 31"

lemma sint_int32: "- (2 ^ 31) \<le> n \<Longrightarrow> n < 2 ^ 31 \<Longrightarrow> sint (int32 n) = n"
  by (simp add: int32_def sint_sbintrunc' signed_take_bit_int_eq_self)

lemma sint_add_int32:
  fixes v :: "32 word"
  assumes "- (2 ^ 31) \<le> sint v + n" "sint v + n < 2 ^ 31"
  shows "sint (v + int32 n) = sint v + n"
proof -
  have "v + int32 n = word_of_int (sint v + n)"
    by (simp add: int32_def)
  then show ?thesis
    unfolding \<open>v + int32 n = _\<close> sint_sbintrunc' using assms
    by (simp add: signed_take_bit_int_eq_self)
qed

lemma limiter_take_used:
  assumes r: "limits_in_range mx tokens" and u: "0 \<le> used b key" "used b key \<le> mx"
    and t: "limiter_take mx key b = (limited, b')"
  shows "used b' key = used b key + (if limited then 0 else 1) \<and> (limited \<longleftrightarrow> used b key = mx)"
proof -
  obtain v where v: "v = (case b key of None \<Rightarrow> 0 | Some w \<Rightarrow> w)" by simp
  then have uv: "used b key = sint v"
    by (simp add: used_def split: option.splits)
  have m: "sint (int32 mx) = mx"
    using r by (intro sint_int32) (auto simp: limits_in_range_def)
  have inc: "sint (v + 1) = sint v + 1" if "sint v < mx"
    using sint_add_int32 [of v 1] that u r by (simp add: uv limits_in_range_def int32_def)
  show ?thesis
    using t inc u unfolding uv limiter_take_def Let_def v [symmetric] m
    by (auto simp: used_def split: if_splits)
qed

lemma limiter_tick_used:
  assumes r: "limits_in_range mx tokens" and u: "0 \<le> used b key" "used b key \<le> mx"
  shows "used (limiter_tick tokens b) key = (if used b key \<le> tokens then 0 else used b key - tokens)"
proof (cases "b key")
  case None
  with r show ?thesis by (simp add: used_def limiter_tick_def limits_in_range_def)
next
  case (Some v)
  then have "sint (v + int32 (- tokens)) = sint v - tokens"
    using sint_add_int32 [of v "- tokens"] u r by (simp add: used_def limits_in_range_def)
  with Some show ?thesis by (simp add: used_def limiter_tick_def Let_def)
qed

text \<open>
  C23. Over any run, a key is let through at most as often as its bucket had room, plus the tokens
  the ticks gave back.
\<close>

theorem limiter_run_bound:
  assumes "limits_in_range mx tokens" "0 \<le> used b key" "used b key \<le> mx"
  shows "int (limiter_run mx tokens key es b) + used b key
           \<le> mx + tokens * int (length (filter Not es))"
  using assms(2,3)
proof (induction es arbitrary: b)
  case Nil
  then show ?case by simp
next
  case (Cons x es)
  show ?case
  proof (cases x)
    case True
    obtain limited b' where t: "limiter_take mx key b = (limited, b')" by fastforce
    have u: "used b' key = used b key + (if limited then 0 else 1) \<and> (limited \<longleftrightarrow> used b key = mx)"
      using assms(1) Cons.prems t by (rule limiter_take_used)
    with Cons.prems have "0 \<le> used b' key" "used b' key \<le> mx" by auto
    from Cons.IH [OF this] u t True show ?thesis by (auto split: if_splits)
  next
    case False
    have u: "used (limiter_tick tokens b) key = (if used b key \<le> tokens then 0 else used b key - tokens)"
      using assms(1) Cons.prems by (rule limiter_tick_used)
    with Cons.prems assms(1) have "0 \<le> used (limiter_tick tokens b) key"
        "used (limiter_tick tokens b) key \<le> mx" by (auto simp: limits_in_range_def)
    from Cons.IH [OF this] u False show ?thesis
      by (auto simp: algebra_simps split: if_splits)
  qed
qed

theorem limiter_run_bound_witness:
  "int (limiter_run 2 1 ''10.0.0.1'' [True, True, True, False, True] Map.empty) + 0 \<le> 2 + 1 * 1"
  using limiter_run_bound [of 2 1 Map.empty "''10.0.0.1''" "[True, True, True, False, True]"]
  by (simp add: limits_in_range_def used_def)

text \<open>
  A tick always makes room: right after one, the next request of a key is let through,
  whatever the key had used.
\<close>

theorem limiter_tick_frees:
  assumes "limits_in_range mx tokens" "0 \<le> used b key" "used b key \<le> mx"
  shows "fst (limiter_take mx key (limiter_tick tokens b)) = False"
proof -
  let ?b = "limiter_tick tokens b"
  have u: "used ?b key = (if used b key \<le> tokens then 0 else used b key - tokens)"
    using assms by (rule limiter_tick_used)
  with assms have *: "0 \<le> used ?b key" "used ?b key < mx"
    by (auto simp: limits_in_range_def)
  obtain limited b' where t: "limiter_take mx key ?b = (limited, b')" by fastforce
  with limiter_take_used [OF assms(1) *(1) _ t] * show ?thesis by auto
qed

theorem limiter_tick_frees_witness:
  "fst (limiter_take 2 ''10.0.0.1'' (limiter_tick 1 [''10.0.0.1'' \<mapsto> 2])) = False"
  using limiter_tick_frees [of 2 1 "[''10.0.0.1'' \<mapsto> 2]" "''10.0.0.1''"]
  by (simp add: limits_in_range_def used_def)

text \<open>
  \<open>maxTokens\<close> is cut to 32 bits: a setting of \<open>2 ^ 31\<close> reads as a negative limit, and every
  request is refused, even the first.
\<close>

lemma limiter_max_truncated:
  assumes "b key = None" shows "fst (limiter_take (2 ^ 31) key b)"
  using assms by (simp add: limiter_take_def int32_def)

end
