(* ===== verification/Presence.thy ===== *)
theory Presence
  imports Settings
begin

text \<open>
  The presence check (\<^verbatim>\<open>presence.go\<close>) with its two caches. The caches are the LRU of
  \<^verbatim>\<open>golang-lru/v2\<close>, a list of its entries with the most recently used first; the locale
  \<open>answer_cache\<close> is what the check relies on. The answer of the relay pool is a parameter.
\<close>

subsection \<open>What a cache promises\<close>

locale answer_cache =
  fixes get :: "'k \<Rightarrow> 'c \<Rightarrow> 'v option \<times> 'c"
    and add :: "'k \<Rightarrow> 'v \<Rightarrow> 'c \<Rightarrow> 'c"
    and inv :: "'c \<Rightarrow> bool"
  assumes get_inv: "inv c \<Longrightarrow> inv (snd (get k c))"
    and add_inv: "inv c \<Longrightarrow> inv (add k v c)"
    and get_keeps: "inv c \<Longrightarrow> fst (get j (snd (get k c))) = fst (get j c)"
    and get_added: "inv c \<Longrightarrow> fst (get k (add k v c)) = Some v"
    and add_nothing_else:
      "inv c \<Longrightarrow> j \<noteq> k \<Longrightarrow> fst (get j (add k v c)) = Some w \<Longrightarrow> fst (get j c) = Some w"
begin

text \<open>
  Asking through the cache: if all it holds are answers of \<open>ans\<close>, the result is the answer, and
  the cache still holds only answers.
\<close>

lemma cached_answer:
  assumes c: "inv c" and ok: "\<And>j v. fst (get j c) = Some v \<Longrightarrow> v = ans j"
    and ask: "(case get k c of (Some v, c1) \<Rightarrow> (v, c1) | (None, c1) \<Rightarrow> (ans k, add k (ans k) c1)) = (r, c')"
  shows "r = ans k \<and> inv c' \<and> (\<forall>j v. fst (get j c') = Some v \<longrightarrow> v = ans j)"
proof -
  obtain o1 c1 where g: "get k c = (o1, c1)" by fastforce
  have c1: "inv c1" "\<And>j. fst (get j c1) = fst (get j c)"
    using get_inv [OF c, of k] get_keeps [OF c, of _ k] g by auto
  show ?thesis
  proof (cases o1)
    case None
    with ask g have r: "r = ans k" "c' = add k (ans k) c1" by auto
    have "v = ans j" if "fst (get j c') = Some v" for j v
    proof (cases "j = k")
      case True
      with that r get_added [OF c1(1)] show ?thesis by simp
    next
      case False
      with that r add_nothing_else [OF c1(1) False] c1(2) ok show ?thesis by metis
    qed
    with r add_inv [OF c1(1)] show ?thesis by blast
  next
    case (Some v)
    with ask g ok [of k v] have "r = ans k" "c' = c1" by auto
    with c1 ok show ?thesis by auto
  qed
qed

end

subsection \<open>The LRU\<close>

type_synonym ('k, 'v) lru = "('k \<times> 'v) list"

definition lru_get :: "'k \<Rightarrow> ('k, 'v) lru \<Rightarrow> 'v option \<times> ('k, 'v) lru" where
  "lru_get k c =
     (case map_of c k of
        None \<Rightarrow> (None, c)
      | Some v \<Rightarrow> (Some v, (k, v) # filter (\<lambda>p. fst p \<noteq> k) c))"

definition lru_add :: "nat \<Rightarrow> 'k \<Rightarrow> 'v \<Rightarrow> ('k, 'v) lru \<Rightarrow> ('k, 'v) lru" where
  "lru_add cap k v c =
     (if map_of c k \<noteq> None then (k, v) # filter (\<lambda>p. fst p \<noteq> k) c
      else let c1 = (k, v) # c in if length c1 > cap then butlast c1 else c1)"

definition lru_inv :: "nat \<Rightarrow> ('k, 'v) lru \<Rightarrow> bool" where
  "lru_inv cap c \<longleftrightarrow> distinct (map fst c) \<and> length c \<le> cap"

lemma map_of_filter_other: "map_of (filter (\<lambda>p. fst p \<noteq> k) c) j = (if j = k then None else map_of c j)"
  by (induction c) auto

lemma length_filter_present:
  "map_of c k \<noteq> None \<Longrightarrow> length (filter (\<lambda>p. fst p \<noteq> k) c) < length c"
  by (induction c) (auto simp: less_Suc_eq_le split: if_splits)

lemma lru_get_lookup: "fst (lru_get k c) = map_of c k"
  by (simp add: lru_get_def split: option.splits)

lemma lru_get_keeps: "map_of (snd (lru_get k c)) j = map_of c j"
  by (auto simp: lru_get_def map_of_filter_other split: option.splits)

lemma lru_inv_move:
  "lru_inv cap c \<Longrightarrow> map_of c k \<noteq> None \<Longrightarrow> lru_inv cap ((k, v) # filter (\<lambda>p. fst p \<noteq> k) c)"
  using length_filter_present [of c k] by (auto simp: lru_inv_def distinct_map_filter)

lemma lru_inv_get: "lru_inv cap c \<Longrightarrow> lru_inv cap (snd (lru_get k c))"
  by (auto simp: lru_get_def lru_inv_move split: option.splits)

lemma lru_add_new:
  assumes "lru_inv cap c" "0 < cap" "map_of c k = None"
  shows "lru_add cap k v c = (k, v) # take (cap - 1) c"
proof (cases "length c = cap")
  case True
  with assms show ?thesis
    by (cases c) (auto simp: lru_add_def butlast_conv_take)
next
  case False
  with assms have "length c \<le> cap - 1" by (auto simp: lru_inv_def)
  with assms False show ?thesis by (simp add: lru_add_def lru_inv_def)
qed

lemma lru_distinct_take: "lru_inv cap c \<Longrightarrow> distinct (map fst (take n c))"
  by (metis distinct_take lru_inv_def take_map)

lemma lru_inv_add:
  assumes "lru_inv cap c" "0 < cap"
  shows "lru_inv cap (lru_add cap k v c)"
proof (cases "map_of c k")
  case None
  then have "k \<notin> fst ` set (take (cap - 1) c)"
    by (auto simp: map_of_eq_None_iff dest: in_set_takeD)
  with assms None show ?thesis
    by (auto simp: lru_add_new lru_inv_def [of cap "_ # _"] lru_distinct_take)
next
  case (Some w)
  with assms show ?thesis by (simp add: lru_add_def lru_inv_move)
qed

lemma map_of_take_SomeD: "distinct (map fst c) \<Longrightarrow> map_of (take n c) j = Some w \<Longrightarrow> map_of c j = Some w"
  by (metis in_set_takeD map_of_SomeD map_of_is_SomeI)

lemma lru_add_lookup:
  assumes "lru_inv cap c" "0 < cap"
  shows "map_of (lru_add cap k v c) k = Some v"
    and "j \<noteq> k \<Longrightarrow> map_of (lru_add cap k v c) j = Some w \<Longrightarrow> map_of c j = Some w"
proof -
  show "map_of (lru_add cap k v c) k = Some v"
    using assms by (cases "map_of c k") (simp_all add: lru_add_new, simp add: lru_add_def)
  assume "j \<noteq> k" "map_of (lru_add cap k v c) j = Some w"
  with assms show "map_of c j = Some w"
    by (cases "map_of c k")
      (auto simp: lru_add_new lru_inv_def map_of_take_SomeD, auto simp: lru_add_def map_of_filter_other)
qed

text \<open>What a new entry pushes out is the least recently used one.\<close>

lemma lru_add_evicts_oldest:
  assumes "lru_inv cap c" "0 < cap" "map_of c k = None" "j \<in> set (map fst (take (cap - 1) c))"
  shows "map_of (lru_add cap k v c) j = map_of c j"
proof -
  from assms(4) obtain w where w: "(j, w) \<in> set (take (cap - 1) c)" by auto
  have d: "distinct (map fst (take (cap - 1) c))"
    using assms(1) by (rule lru_distinct_take)
  have "map_of c j = Some w"
    using w assms(1) by (auto simp: lru_inv_def dest: in_set_takeD)
  moreover have "map_of (take (cap - 1) c) j = Some w"
    using d w by simp
  moreover have "j \<noteq> k" using assms(3) calculation by auto
  ultimately show ?thesis using assms by (simp add: lru_add_new)
qed

text \<open>The size both caches are made with.\<close>

definition presence_cache_size :: nat where "presence_cache_size = 2048"

interpretation presence_lru: answer_cache lru_get "lru_add presence_cache_size"
    "lru_inv presence_cache_size"
  by unfold_locales
    (simp_all add: lru_inv_get lru_inv_add lru_get_lookup lru_get_keeps lru_add_lookup
      presence_cache_size_def)

subsection \<open>The check\<close>

datatype check_type = CheckTypeFreeTransit | CheckTypeGroupCreate | CheckTypeGiftWrap

record presence_caches =
  pc_transit :: "(pubkey, bool) lru"
  pc_gift :: "(pubkey, bool) lru"

definition init_presence_caches :: presence_caches where
  "init_presence_caches = \<lparr>pc_transit = [], pc_gift = []\<rparr>"

text \<open>
  \<open>pool relays pk\<close> says whether \<open>QuerySingle\<close> found a profile of \<open>pk\<close> in the relays within its
  two seconds. The part after the \<open>switch\<close> returns the answer, with the cache entry to add.
\<close>

definition ask_presence :: "(string list \<Rightarrow> pubkey \<Rightarrow> bool) \<Rightarrow> string list \<Rightarrow> pubkey \<Rightarrow> bool \<times> bool option" where
  "ask_presence pool relays pk =
     (if relays = [] then (True, None) else (pool relays pk, Some (pool relays pk)))"

definition has_presence ::
  "(string list \<Rightarrow> pubkey \<Rightarrow> bool) \<Rightarrow> settings \<Rightarrow> pubkey \<Rightarrow> check_type \<Rightarrow> presence_caches \<Rightarrow>
     bool \<times> presence_caches" where
  "has_presence pool s pk ct pc =
     (case ct of
        CheckTypeFreeTransit \<Rightarrow>
          (case lru_get pk (pc_transit pc) of
             (Some v, c) \<Rightarrow> (v, pc\<lparr>pc_transit := c\<rparr>)
           | (None, c) \<Rightarrow>
               (case ask_presence pool (gc_transit_presence_relays (st_groups s)) pk of
                  (present, None) \<Rightarrow> (present, pc\<lparr>pc_transit := c\<rparr>)
                | (present, Some v) \<Rightarrow>
                    (present, pc\<lparr>pc_transit := lru_add presence_cache_size pk v c\<rparr>)))
      | CheckTypeGiftWrap \<Rightarrow>
          (case lru_get pk (pc_gift pc) of
             (Some v, c) \<Rightarrow> (v, pc\<lparr>pc_gift := c\<rparr>)
           | (None, c) \<Rightarrow>
               (case ask_presence pool (gw_presence_relays (st_gift_wraps s)) pk of
                  (present, None) \<Rightarrow> (present, pc\<lparr>pc_gift := c\<rparr>)
                | (present, Some v) \<Rightarrow> (present, pc\<lparr>pc_gift := lru_add presence_cache_size pk v c\<rparr>)))
      | CheckTypeGroupCreate \<Rightarrow>
          (fst (ask_presence pool (gc_create_presence_relays (st_groups s)) pk), pc))"

definition check_relays :: "settings \<Rightarrow> check_type \<Rightarrow> string list" where
  "check_relays s ct =
     (case ct of
        CheckTypeFreeTransit \<Rightarrow> gc_transit_presence_relays (st_groups s)
      | CheckTypeGroupCreate \<Rightarrow> gc_create_presence_relays (st_groups s)
      | CheckTypeGiftWrap \<Rightarrow> gw_presence_relays (st_gift_wraps s))"

definition cache_true :: "(pubkey \<Rightarrow> bool) \<Rightarrow> (pubkey, bool) lru \<Rightarrow> bool" where
  "cache_true ans c \<longleftrightarrow>
     lru_inv presence_cache_size c \<and> (\<forall>j v. map_of c j = Some v \<longrightarrow> v = ans j)"

text \<open>Both caches hold only what the pool answers for the relays set now.\<close>

definition caches_true :: "(string list \<Rightarrow> pubkey \<Rightarrow> bool) \<Rightarrow> settings \<Rightarrow> presence_caches \<Rightarrow> bool" where
  "caches_true pool s pc \<longleftrightarrow>
     cache_true (pool (check_relays s CheckTypeFreeTransit)) (pc_transit pc) \<and>
     cache_true (pool (check_relays s CheckTypeGiftWrap)) (pc_gift pc)"

lemma cached_presence:
  assumes "cache_true ans c"
    and "(case lru_get k c of (Some v, c1) \<Rightarrow> (v, c1)
          | (None, c1) \<Rightarrow> (ans k, lru_add presence_cache_size k (ans k) c1)) = (r, c')"
  shows "r = ans k \<and> cache_true ans c'"
  using presence_lru.cached_answer [of c ans k r c'] assms
  by (simp add: cache_true_def lru_get_lookup)


definition ex_gift_settings :: settings where
  "ex_gift_settings = default_settings 7
     \<lparr>st_gift_wraps := \<lparr>gw_enabled = True, gw_presence_relays = [''wss://a'']\<rparr>\<rparr>"


text \<open>
  A cached refusal outlives the setting it came from: it still refuses when the relays are
  cleared, which should let everyone through.
\<close>

lemma stale_refusal:
  assumes "map_of (pc_transit pc) pk = Some False" "gc_transit_presence_relays (st_groups s) = []"
  shows "fst (has_presence pool s pk CheckTypeFreeTransit pc) = False"
  using assms by (simp add: has_presence_def lru_get_def)

end
