(* ===== verification/Examples.thy ===== *)
theory Examples
  imports GroupState Presence
begin

text \<open>
  One small relay, used to apply the theorems at a concrete input: a toy cryptography, a closed
  group with an admin and a plain member, and an empty store.
\<close>

definition ex_hash :: "event \<Rightarrow> eid" where
  "ex_hash e = word_of_int (ev_created_at e * 65536 + uint (ev_kind e))"

definition ex_crypto :: crypto where
  "ex_crypto = \<lparr>cr_public = (\<lambda>sk. sk), cr_hash = ex_hash, cr_sign = (\<lambda>_ _. Some 0),
     cr_valid = (\<lambda>_. True)\<rparr>"

definition ex_settings :: settings where
  "ex_settings = default_settings 7\<lparr>st_owner_pub_key := 9\<rparr>"

definition ex_group :: group where
  "ex_group = (new_group ''wss://r'' ''g'')
     \<lparr>g_members := [1 \<mapsto> [\<lparr>role_name = primaryRoleName, role_description = []\<rparr>], 2 \<mapsto> []],
      g_closed := True, g_invite_codes := [''c'']\<rparr>"

definition ex_groups :: "slice_store groups_state" where
  "ex_groups = (empty_groups_state [] 7 ''wss://r'' ''http://r''
       \<lparr>lk_server_url = [], lk_api_key = [], lk_api_secret = []\<rparr>)
     \<lparr>gs_groups := [''g'' \<mapsto> ex_group]\<rparr>"

definition ex_event :: "pubkey \<Rightarrow> kind \<Rightarrow> tags \<Rightarrow> event" where
  "ex_event author k ts = zero_event\<lparr>ev_id := 77, ev_pubkey := author, ev_created_at := 1000,
     ev_kind := k, ev_tags := ts\<rparr>"

lemma ex_crypto_simps [simp]:
  "cr_public ex_crypto sk = sk" "cr_hash ex_crypto = ex_hash"
  "cr_sign ex_crypto sk i = Some 0" "cr_valid ex_crypto pk = True"
  by (simp_all add: ex_crypto_def)

lemma ex_event_simps [simp]:
  "ev_id (ex_event a k ts) = 77" "ev_pubkey (ex_event a k ts) = a"
  "ev_created_at (ex_event a k ts) = 1000" "ev_kind (ex_event a k ts) = k"
  "ev_tags (ex_event a k ts) = ts"
  by (simp_all add: ex_event_def)

lemma ex_settings_simps [simp]:
  "relay_public_key ex_crypto ex_settings = 7" "st_owner_pub_key ex_settings = 9"
  "gw_enabled (st_gift_wraps ex_settings) = False"
  "gc_transit_presence_relays (st_groups ex_settings) = []"
  "gc_create_presence_relays (st_groups ex_settings) = []"
  by (simp_all add: relay_public_key_def ex_settings_def default_settings_def)

lemma ex_group_simps [simp]:
  "g_members ex_group = [1 \<mapsto> [\<lparr>role_name = primaryRoleName, role_description = []\<rparr>], 2 \<mapsto> []]"
  "g_closed ex_group = True" "g_restricted ex_group = False" "g_private ex_group = False"
  "g_hidden ex_group = False" "g_livekit ex_group = False" "g_supported_kinds ex_group = None"
  "g_invite_codes ex_group = [''c'']" "g_id ex_group = ''g''" "gr_parent ex_group = []"
  "gr_children ex_group = []" "gr_last50index ex_group = 0" "gr_last50 ex_group = replicate 50 0"
  by (simp_all add: ex_group_def new_group_def)

lemma ex_groups_simps [simp]:
  "gs_groups ex_groups = [''g'' \<mapsto> ex_group]" "gs_db ex_groups = []"
  "gs_deleted_cache ex_groups = replicate 128 0" "gs_secret_key ex_groups = 7"
  "gs_deleted ex_groups = Map.empty" "gs_relay_url ex_groups = ''wss://r''"
  "gs_all_members ex_groups = Map.empty" "gs_deleted_index ex_groups = 0"
  by (simp_all add: ex_groups_def empty_groups_state_def)

end
