(* ===== verification/Reject.thy ===== *)
theory Reject
  imports Examples
begin

text \<open>
  What the relay refuses: \<open>sameRoles\<close> (\<^verbatim>\<open>utils.go\<close>), gift wraps (\<^verbatim>\<open>giftwrap.go\<close>) and
  \<open>rejectEvent\<close> (\<^verbatim>\<open>reject_event.go\<close>). A result of \<open>None\<close> accepts; a refusal is a constructor of
  \<open>reject_reason\<close>, one for each message of the source.
\<close>

subsection \<open>Comparing roles\<close>

text \<open>
  \<open>sameRoles\<close> marks the names it has matched by swapping them to the front of the slice it is
  given, so it also returns that slice.
\<close>

fun same_roles_loop :: "nat \<Rightarrow> role list \<Rightarrow> string list \<Rightarrow> bool \<times> string list" where
  "same_roles_loop i [] ns = (True, ns)"
| "same_roles_loop i (r # rs) ns =
     (case slice_index (drop i ns) (role_name r) of
        None \<Rightarrow> (False, ns)
      | Some idx \<Rightarrow> same_roles_loop (Suc i) rs (slice_swap ns i (i + idx)))"

definition same_roles :: "role list \<Rightarrow> string list \<Rightarrow> bool \<times> string list" where
  "same_roles roles ns =
     (if length roles \<noteq> length ns then (False, ns) else same_roles_loop 0 roles ns)"

lemma drop_slice_swap:
  assumes "i + idx < length ns"
  shows "mset (drop (Suc i) (slice_swap ns i (i + idx))) = mset (drop i ns) - {#ns ! (i + idx)#}"
proof -
  let ?s = "slice_swap ns i (i + idx)"
  have take: "take i ?s = take i ns"
    using assms by (simp add: slice_swap_def)
  have "mset (take i ?s) + mset (drop i ?s) = mset (take i ns) + mset (drop i ns)"
    using assms by (simp flip: mset_append)
  then have "mset (drop i ?s) = mset (drop i ns)" by (simp add: take)
  moreover have "drop i ?s = ns ! (i + idx) # drop (Suc i) ?s"
    using assms by (subst Cons_nth_drop_Suc [symmetric]) (auto simp: slice_swap_def nth_list_update)
  ultimately show ?thesis by (metis add_mset_remove_trivial mset.simps(2))
qed

lemma same_roles_loop_mset: "i + length rs = length ns \<Longrightarrow> mset (snd (same_roles_loop i rs ns)) = mset ns"
  by (induction i rs ns rule: same_roles_loop.induct)
    (auto split: option.splits dest!: slice_index_SomeD)

lemma same_roles_loop_iff:
  "i + length rs = length ns \<Longrightarrow>
   fst (same_roles_loop i rs ns) \<longleftrightarrow> mset (map role_name rs) = mset (drop i ns)"
proof (induction i rs ns rule: same_roles_loop.induct)
  case (1 i ns)
  then show ?case by simp
next
  case (2 i r rs ns)
  show ?case
  proof (cases "slice_index (drop i ns) (role_name r)")
    case None
    then have "role_name r \<notin># mset (drop i ns)" by simp
    then have "mset (map role_name (r # rs)) \<noteq> mset (drop i ns)"
      by (metis list.set_intros(1) list.simps(9) set_mset_mset)
    then show ?thesis
      by (simp only: same_roles_loop.simps None option.case fst_conv simp_thms)
  next
    case (Some idx)
    then have idx: "i + idx < length ns" "ns ! (i + idx) = role_name r"
      using slice_index_SomeD [OF Some] "2.prems" by (auto simp: add.commute)
    then have "role_name r \<in># mset (drop i ns)"
      using slice_index_SomeD [OF Some] by (metis nth_mem set_mset_mset)
    then have "mset (map role_name (r # rs)) = mset (drop i ns) \<longleftrightarrow>
        mset (map role_name rs) = mset (drop i ns) - {#role_name r#}"
      by (metis add_mset_remove_trivial insert_DiffM list.simps(9) mset.simps(2))
    with "2.IH" [OF Some] "2.prems" Some idx drop_slice_swap [OF idx(1)] show ?thesis by simp
  qed
qed

text \<open>What the loop has matched it has moved into the order of the roles.\<close>

lemma same_roles_loop_order:
  "i + length rs = length ns \<Longrightarrow> fst (same_roles_loop i rs ns) \<Longrightarrow>
   snd (same_roles_loop i rs ns) = take i ns @ map role_name rs"
proof (induction i rs ns rule: same_roles_loop.induct)
  case (1 i ns)
  then show ?case by simp
next
  case (2 i r rs ns)
  then obtain idx where s: "slice_index (drop i ns) (role_name r) = Some idx"
    by (auto split: option.splits)
  then have idx: "i + idx < length ns" "ns ! (i + idx) = role_name r"
    using slice_index_SomeD [OF s] "2.prems" by (auto simp: add.commute)
  have "take (Suc i) (slice_swap ns i (i + idx)) = take i ns @ [role_name r]"
    using idx by (subst take_Suc_conv_app_nth) (auto simp: slice_swap_def nth_list_update)
  with "2.IH" [OF s] "2.prems" s show ?case by simp
qed

text \<open>
  C24. \<open>sameRoles\<close> compares the role names as multisets. On success it leaves the names it was
  given in the order of the roles, on failure it only permutes them.
\<close>

theorem same_roles_correct:
  "same_roles roles ns =
     (if mset (map role_name roles) = mset ns then (True, map role_name roles)
      else (False, snd (same_roles roles ns))) \<and>
   mset (snd (same_roles roles ns)) = mset ns"
proof (cases "length roles = length ns")
  case True
  then show ?thesis
    using same_roles_loop_iff [of 0 roles ns] same_roles_loop_order [of 0 roles ns]
      same_roles_loop_mset [of 0 roles ns]
    by (simp add: same_roles_def prod_eq_iff)
next
  case False
  then have "mset (map role_name roles) \<noteq> mset ns"
    by (metis length_map size_mset)
  with False show ?thesis by (simp add: same_roles_def)
qed

subsection \<open>State and reasons\<close>

record 'd relay_state =
  rs_groups :: "'d groups_state"
  rs_settings :: settings
  rs_caches :: presence_caches
  rs_limiter :: "limiter option"

text \<open>What a handler reads from its context: the keys the connection has authenticated, its IP.\<close>

record request_context =
  cx_authed :: "pubkey list"
  cx_ip :: string

text \<open>What the components call outside the repository: cryptography and the relay pool.\<close>

record outside =
  out_crypto :: crypto
  out_pool :: "string list \<Rightarrow> pubkey \<Rightarrow> bool"

datatype reject_reason =
    ModerationTooOld | MetadataInternal
  | GiftWrapsDisabled | InvalidRecipientTag | InvalidRecipientKey | SenderMustAuthenticate
  | SenderNotPresent
  | MissingGroupTag | GroupAlreadyExists | RateLimited | MissingProfile
  | ParentDoesntExist string | NotParentAdmin | ParentCycle
  | GroupDoesntExist string
  | NeedInviteCode | AlreadyMember | WasRemoved
  | UnknownMember | WasDeleted
  | InvalidModeration prep_error | InsufficientPermissions | NoInvitesInOpenGroups
  | PrivateCantBeOpen | PrivateCantBePublic | PrivateMustBeClosed
  | TargetsAreMembers | TargetsHaveLeft | TargetsDontExist | CantDeleteFromAdmin | CantDeleteGroup
  | LiveGroupOnly | KindNotSupported
  | InvalidPrevious string | PreviousNotFound string

definition rs_check ::
  "outside \<Rightarrow> pubkey \<Rightarrow> check_type \<Rightarrow> 'd relay_state \<Rightarrow> bool \<times> 'd relay_state" where
  "rs_check out pk ct s =
     (case has_presence (out_pool out) (rs_settings s) pk ct (rs_caches s) of
        (b, pc) \<Rightarrow> (b, s\<lparr>rs_caches := pc\<rparr>))"

subsection \<open>Gift wraps\<close>

fun authed_among :: "pubkey list \<Rightarrow> string list \<Rightarrow> bool" where
  "authed_among [] pTags = True"
| "authed_among (a # as) pTags =
     (if list_ex (\<lambda>p. p = hex_of a) pTags then authed_among as pTags else False)"

definition authed_same_as_p_tagged :: "pubkey list \<Rightarrow> string list \<Rightarrow> bool" where
  "authed_same_as_p_tagged authed pTags =
     (if length pTags \<noteq> length authed then False else authed_among authed pTags)"

text \<open>The loop over the recipients; \<open>present\<close> is \<open>receiverPresent\<close>.\<close>

fun gift_recipients ::
  "outside \<Rightarrow> tag list \<Rightarrow> bool \<Rightarrow> 'd relay_state \<Rightarrow> reject_reason option \<times> bool \<times> 'd relay_state" where
  "gift_recipients out [] present s = (None, present, s)"
| "gift_recipients out (t # ts) present s =
     (if length t < 2 then (Some InvalidRecipientTag, present, s)
      else case pubkey_from_hex (cr_valid (out_crypto out)) (t ! 1) of
             None \<Rightarrow> (Some InvalidRecipientKey, present, s)
           | Some recipient \<Rightarrow>
               if present then gift_recipients out ts present s
               else (case rs_check out recipient CheckTypeGiftWrap s of
                       (b, s1) \<Rightarrow> gift_recipients out ts b s1))"

definition reject_gift_wrap_event ::
  "outside \<Rightarrow> request_context \<Rightarrow> event \<Rightarrow> 'd relay_state \<Rightarrow> reject_reason option \<times> 'd relay_state" where
  "reject_gift_wrap_event out cx e s =
     (if \<not> gw_enabled (st_gift_wraps (rs_settings s)) then (Some GiftWrapsDisabled, s)
      else case gift_recipients out (tags_find_all (ev_tags e) ''p'') False s of
             (Some r, _, s1) \<Rightarrow> (Some r, s1)
           | (None, _, s1) \<Rightarrow>
               if gw_presence_relays (st_gift_wraps (rs_settings s1)) = [] then (None, s1)
               else if cx_authed cx = [] then (Some SenderMustAuthenticate, s1)
               else (case rs_check out (last (cx_authed cx)) CheckTypeGiftWrap s1 of
                       (b, s2) \<Rightarrow> (if b then None else Some SenderNotPresent, s2)))"

subsection \<open>Creating a group\<close>

definition has_primary_role :: "role list \<Rightarrow> bool" where
  "has_primary_role roles \<longleftrightarrow> list_ex (\<lambda>r. role_name r = primaryRoleName) roles"

definition rs_limit :: "string \<Rightarrow> 'd relay_state \<Rightarrow> bool \<times> 'd relay_state" where
  "rs_limit ip s =
     (case rs_limiter s of
        None \<Rightarrow> (False, s)
      | Some l \<Rightarrow> (case event_ip_rate_limiter ip l of (r, l') \<Rightarrow> (r, s\<lparr>rs_limiter := Some l'\<rparr>)))"

definition reject_parent :: "groups \<Rightarrow> string \<Rightarrow> event \<Rightarrow> reject_reason option" where
  "reject_parent gs gid e =
     (case get_parent_from_event e of
        None \<Rightarrow> None
      | Some parentId \<Rightarrow>
          (case gs parentId of
             None \<Rightarrow> Some (ParentDoesntExist parentId)
           | Some p \<Rightarrow>
               if \<not> has_primary_role (member_roles p (ev_pubkey e)) then Some NotParentAdmin
               else if would_create_cycle gs gid parentId then Some ParentCycle
               else None))"

definition store_placeholder :: "string \<Rightarrow> 'd relay_state \<Rightarrow> 'd relay_state" where
  "store_placeholder gid s =
     s\<lparr>rs_groups := (rs_groups s)\<lparr>gs_groups :=
         (gs_groups (rs_groups s))(gid \<mapsto> new_group (gs_relay_url (rs_groups s)) gid)\<rparr>\<rparr>"

definition reject_create ::
  "outside \<Rightarrow> request_context \<Rightarrow> string \<Rightarrow> event \<Rightarrow> 'd relay_state \<Rightarrow>
     reject_reason option \<times> 'd relay_state" where
  "reject_create out cx gid e s =
     (if gs_groups (rs_groups s) gid \<noteq> None then (Some GroupAlreadyExists, s)
      else case rs_limit (cx_ip cx) s of
             (True, s1) \<Rightarrow> (Some RateLimited, s1)
           | (False, s1) \<Rightarrow>
               (case rs_check out (ev_pubkey e) CheckTypeGroupCreate s1 of
                  (False, s2) \<Rightarrow> (Some MissingProfile, s2)
                | (True, s2) \<Rightarrow>
                    (case reject_parent (gs_groups (rs_groups s2)) gid e of
                       Some r \<Rightarrow> (Some r, s2)
                     | None \<Rightarrow> (None, store_placeholder gid s2))))"

subsection \<open>Joining\<close>

definition removal_filter :: "pubkey \<Rightarrow> nfilter" where
  "removal_filter pk =
     empty_filter\<lparr>f_kinds := Some [kRemoveUser], f_tags := [(''p'', [hex_of pk])]\<rparr>"

definition was_removed :: "'d store_ops \<Rightarrow> pubkey \<Rightarrow> 'd \<Rightarrow> bool" where
  "was_removed ops pk db =
     (case so_query ops (removal_filter pk) 1 db of
        [] \<Rightarrow> False
      | rem # _ \<Rightarrow> \<not> tags_has (ev_tags rem) ''self-removal'')"

definition valid_invite :: "group \<Rightarrow> event \<Rightarrow> bool" where
  "valid_invite g e =
     (case tags_find (ev_tags e) ''code'' of
        None \<Rightarrow> False
      | Some t \<Rightarrow> t ! 1 \<in> set (g_invite_codes g))"

definition reject_join ::
  "'d store_ops \<Rightarrow> outside \<Rightarrow> group \<Rightarrow> event \<Rightarrow> 'd relay_state \<Rightarrow>
     reject_reason option \<times> 'd relay_state" where
  "reject_join ops out g e s =
     (let (entry, s1) =
        (if g_closed g then (if valid_invite g e then None else Some NeedInviteCode, s)
         else case rs_check out (ev_pubkey e) CheckTypeFreeTransit s of
                (b, s') \<Rightarrow> (if b then None else Some MissingProfile, s'))
      in case entry of
           Some r \<Rightarrow> (Some r, s1)
         | None \<Rightarrow>
             if is_member g (ev_pubkey e) then (Some AlreadyMember, s1)
             else if was_removed ops (ev_pubkey e) (gs_db (rs_groups s1)) then (Some WasRemoved, s1)
             else (None, s1))"

subsection \<open>Moderation\<close>

text \<open>
  The loop over the targets of a put-user event stops at the first one it changes. The role names
  of a target are a slice of its tag, so the loop also returns the targets as it leaves them, and
  \<open>write_targets\<close> puts them back into the tags.
\<close>

fun put_user_ineffective ::
  "group \<Rightarrow> (pubkey \<times> string list) list \<Rightarrow> bool \<times> (pubkey \<times> string list) list" where
  "put_user_ineffective g [] = (True, [])"
| "put_user_ineffective g ((pk, names) # ts) =
     (case g_members g pk of
        None \<Rightarrow> (False, (pk, names) # ts)
      | Some roles \<Rightarrow>
          (case same_roles roles names of
             (False, names') \<Rightarrow> (False, (pk, names') # ts)
           | (True, names') \<Rightarrow>
               (case put_user_ineffective g ts of (b, ts') \<Rightarrow> (b, (pk, names') # ts'))))"

fun write_targets :: "tags \<Rightarrow> (pubkey \<times> string list) list \<Rightarrow> tags" where
  "write_targets [] targets = []"
| "write_targets (t # ts) targets =
     (if tag_is ''p'' t then
        (case targets of
           [] \<Rightarrow> t # write_targets ts []
         | (pk, names) # targets' \<Rightarrow> (take 2 t @ names) # write_targets ts targets')
      else t # write_targets ts targets)"

definition ids_filter :: "eid list \<Rightarrow> nfilter" where
  "ids_filter ids = empty_filter\<lparr>f_ids := Some ids\<rparr>"

text \<open>The last result is the tags of the event after the check.\<close>

fun reject_action ::
  "'d store_ops \<Rightarrow> group \<Rightarrow> bool \<Rightarrow> action \<Rightarrow> 'd \<Rightarrow> tags \<Rightarrow> reject_reason option \<times> tags" where
  "reject_action ops g isPrimary (CreateInvite codes) db ts =
     (if \<not> g_closed g then Some NoInvitesInOpenGroups else None, ts)"
| "reject_action ops g isPrimary (EditMetadata a) db ts =
     (if g_private g \<and> em_closed a = Some False then Some PrivateCantBeOpen
      else if g_private g \<and> em_private a = Some False then Some PrivateCantBePublic
      else if em_private a = Some True \<and> \<not> (g_closed g \<or> em_closed a = Some True)
        then Some PrivateMustBeClosed
      else None, ts)"
| "reject_action ops g isPrimary (PutUser targets code w) db ts =
     (case put_user_ineffective g targets of
        (ineffective, targets') \<Rightarrow>
          (if ineffective then Some TargetsAreMembers else None, write_targets ts targets'))"
| "reject_action ops g isPrimary (RemoveUser targets w) db ts =
     (if list_ex (is_member g) targets then None else Some TargetsHaveLeft, ts)"
| "reject_action ops g isPrimary (DeleteEvent ids) db ts =
     (let found = so_query ops (ids_filter ids) 500 db
      in if found = [] then Some TargetsDontExist
         else if \<not> isPrimary \<and> list_ex (\<lambda>x. has_primary_role (member_roles g (ev_pubkey x))) found
           then Some CantDeleteFromAdmin
         else None, ts)"
| "reject_action ops g isPrimary (DeleteGroup w) db ts =
     (if \<not> isPrimary then Some CantDeleteGroup else None, ts)"
| "reject_action ops g isPrimary (CreateGroup creator w) db ts = (None, ts)"

definition reject_moderation ::
  "'d store_ops \<Rightarrow> outside \<Rightarrow> group \<Rightarrow> event \<Rightarrow> 'd \<Rightarrow> reject_reason option \<times> tags" where
  "reject_moderation ops out g e db =
     (case prepare_moderation_action (cr_valid (out_crypto out)) e of
        Inl err \<Rightarrow> (Some (InvalidModeration err), ev_tags e)
      | Inr act \<Rightarrow>
          let roles = member_roles g (ev_pubkey e)
          in if roles = [] then (Some InsufficientPermissions, ev_tags e)
             else reject_action ops g (has_primary_role roles) act db (ev_tags e))"

subsection \<open>Supported kinds and previous events\<close>

definition reject_kind :: "group \<Rightarrow> kind \<Rightarrow> reject_reason option" where
  "reject_kind g k =
     (case g_supported_kinds g of
        None \<Rightarrow> None
      | Some ks \<Rightarrow>
          if ks = [] \<and> g_livekit g then Some LiveGroupOnly
          else if k \<notin> set ks then Some KindNotSupported
          else None)"

definition in_last50 :: "group \<Rightarrow> string \<Rightarrow> bool" where
  "in_last50 g s \<longleftrightarrow> list_ex (\<lambda>i. i \<noteq> 0 \<and> take (length s) (hex_of i) = s) (gr_last50 g)"

fun reject_previous_ids :: "group \<Rightarrow> string list \<Rightarrow> reject_reason option" where
  "reject_previous_ids g [] = None"
| "reject_previous_ids g (s # ss) =
     (if length s > 64 then Some (InvalidPrevious s)
      else if \<not> in_last50 g s then Some (PreviousNotFound s)
      else reject_previous_ids g ss)"

definition reject_previous :: "group \<Rightarrow> tags \<Rightarrow> reject_reason option" where
  "reject_previous g ts =
     (case tags_find ts ''previous'' of
        None \<Rightarrow> None
      | Some t \<Rightarrow> reject_previous_ids g (drop 1 t))"

subsection \<open>The handler\<close>

definition with_tags :: "event \<Rightarrow> tags \<Rightarrow> event" where
  "with_tags e ts = e\<lparr>ev_tags := ts\<rparr>"

text \<open>From the check of restricted groups on: events that write to a group that exists.\<close>

definition reject_write ::
  "'d store_ops \<Rightarrow> outside \<Rightarrow> group \<Rightarrow> event \<Rightarrow> 'd relay_state \<Rightarrow>
     reject_reason option \<times> event \<times> 'd relay_state" where
  "reject_write ops out g e s =
     (if (g_restricted g \<or> g_closed g) \<and> \<not> is_member g (ev_pubkey e) then (Some UnknownMember, e, s)
      else
        let (present, s1) =
          (if \<not> g_restricted g \<and> \<not> g_closed g then rs_check out (ev_pubkey e) CheckTypeFreeTransit s
           else (True, s))
        in if \<not> present then (Some MissingProfile, e, s1)
           else if ev_id e \<in> set (gs_deleted_cache (rs_groups s1)) then (Some WasDeleted, e, s1)
           else
             let (bad, ts) =
               (if kinds_includes moderation_event_kinds (ev_kind e)
                then reject_moderation ops out g e (gs_db (rs_groups s1)) else (None, ev_tags e));
               e1 = with_tags e ts
             in case bad of
                  Some r \<Rightarrow> (Some r, e1, s1)
                | None \<Rightarrow>
                    (case reject_kind g (ev_kind e) of
                       Some r \<Rightarrow> (Some r, e1, s1)
                     | None \<Rightarrow> (reject_previous g (ev_tags e1), e1, s1)))"

definition reject_in_group ::
  "'d store_ops \<Rightarrow> outside \<Rightarrow> request_context \<Rightarrow> string \<Rightarrow> event \<Rightarrow> 'd relay_state \<Rightarrow>
     reject_reason option \<times> event \<times> 'd relay_state" where
  "reject_in_group ops out cx gid e s =
     (if ev_kind e = kCreateGroup then
        (case reject_create out cx gid e s of (r, s1) \<Rightarrow> (r, e, s1))
      else case gs_groups (rs_groups s) gid of
             None \<Rightarrow> (Some (GroupDoesntExist gid), e, s)
           | Some g \<Rightarrow>
               if ev_kind e = kDeleteGroup \<and> st_owner_pub_key (rs_settings s) = ev_pubkey e
                 then (None, e, s)
               else if ev_kind e = kJoinRequest then
                 (case reject_join ops out g e s of (r, s1) \<Rightarrow> (r, e, s1))
               else reject_write ops out g e s)"

definition reject_event ::
  "'d store_ops \<Rightarrow> outside \<Rightarrow> timestamp \<Rightarrow> request_context \<Rightarrow> event \<Rightarrow> 'd relay_state \<Rightarrow>
     reject_reason option \<times> event \<times> 'd relay_state" where
  "reject_event ops out now cx e s =
     (if ev_pubkey e = relay_public_key (out_crypto out) (rs_settings s) then (None, e, s)
      else if kinds_includes moderation_event_kinds (ev_kind e) \<and> ev_created_at e < int64 (now - 60)
        then (Some ModerationTooOld, e, s)
      else if kinds_includes metadata_event_kinds (ev_kind e) then (Some MetadataInternal, e, s)
      else if ev_kind e = kGiftWrap then
        (case reject_gift_wrap_event out cx e s of (r, s1) \<Rightarrow> (r, e, s1))
      else if ev_kind e = kProfileMetadata then (None, e, s)
      else case tags_find (ev_tags e) ''h'' of
             None \<Rightarrow> (Some MissingGroupTag, e, s)
           | Some htag \<Rightarrow> reject_in_group ops out cx (htag ! 1) e s)"

subsection \<open>What the checks leave alone\<close>

lemma rs_check_frame:
  "rs_check out pk ct s = (b, s') \<Longrightarrow>
   rs_groups s' = rs_groups s \<and> rs_settings s' = rs_settings s \<and> rs_limiter s' = rs_limiter s"
  by (auto simp: rs_check_def split: prod.splits)

lemma rs_limit_frame:
  "rs_limit ip s = (b, s') \<Longrightarrow>
   rs_groups s' = rs_groups s \<and> rs_settings s' = rs_settings s \<and> rs_caches s' = rs_caches s"
  by (auto simp: rs_limit_def split: option.splits prod.splits)

lemma gift_recipients_frame:
  "gift_recipients out ts p s = (r, p', s') \<Longrightarrow>
   rs_groups s' = rs_groups s \<and> rs_settings s' = rs_settings s \<and> rs_limiter s' = rs_limiter s"
  by (induction out ts p s rule: gift_recipients.induct)
    (auto split: option.splits if_splits prod.splits dest!: rs_check_frame)

lemma reject_gift_wrap_frame:
  "reject_gift_wrap_event out cx e s = (r, s') \<Longrightarrow>
   rs_groups s' = rs_groups s \<and> rs_settings s' = rs_settings s"
  by (auto simp: reject_gift_wrap_event_def split: option.splits if_splits prod.splits
      dest!: gift_recipients_frame rs_check_frame)

lemma reject_join_frame:
  "reject_join ops out g e s = (r, s') \<Longrightarrow>
   rs_groups s' = rs_groups s \<and> rs_settings s' = rs_settings s"
  by (auto simp: reject_join_def Let_def split: option.splits if_splits prod.splits
      dest!: rs_check_frame)

lemma reject_write_frame:
  "reject_write ops out g e s = (r, e', s') \<Longrightarrow>
   rs_groups s' = rs_groups s \<and> rs_settings s' = rs_settings s"
  by (auto simp: reject_write_def Let_def split: option.splits if_splits prod.splits
      dest!: rs_check_frame)

lemma reject_create_refused:
  "reject_create out cx gid e s = (Some r, s') \<Longrightarrow>
   rs_groups s' = rs_groups s \<and> rs_settings s' = rs_settings s"
  by (auto simp: reject_create_def split: option.splits if_splits prod.splits bool.splits
      dest!: rs_check_frame rs_limit_frame)

lemma reject_create_accepted:
  "reject_create out cx gid e s = (None, s') \<Longrightarrow>
   gs_groups (rs_groups s) gid = None \<and> reject_parent (gs_groups (rs_groups s)) gid e = None \<and>
   rs_settings s' = rs_settings s \<and>
   rs_groups s' = (rs_groups s)\<lparr>gs_groups :=
     (gs_groups (rs_groups s))(gid \<mapsto> new_group (gs_relay_url (rs_groups s)) gid)\<rparr>"
  by (auto simp: reject_create_def store_placeholder_def
      split: option.splits if_splits prod.splits bool.splits
      dest!: rs_check_frame rs_limit_frame)

lemma reject_write_accepted:
  "reject_write ops out g e s = (None, e', s') \<Longrightarrow>
   (g_restricted g \<or> g_closed g \<longrightarrow> is_member g (ev_pubkey e)) \<and>
   ev_id e \<notin> set (gs_deleted_cache (rs_groups s)) \<and> reject_kind g (ev_kind e) = None \<and>
   (ev_kind e \<in> set moderation_event_kinds \<longrightarrow>
      fst (reject_moderation ops out g e (gs_db (rs_groups s))) = None)"
  by (auto simp: reject_write_def Let_def split: option.splits if_splits prod.splits
      dest!: rs_check_frame)

lemma reject_moderation_accepted:
  "fst (reject_moderation ops out g e db) = None \<Longrightarrow>
   \<exists>act. prepare_moderation_action (cr_valid (out_crypto out)) e = Inr act \<and>
     member_roles g (ev_pubkey e) \<noteq> [] \<and>
     fst (reject_action ops g (has_primary_role (member_roles g (ev_pubkey e))) act db (ev_tags e)) = None"
  by (auto simp: reject_moderation_def Let_def split: sum.splits if_splits)

lemma prepare_delete_group:
  "ev_kind e = kDeleteGroup \<Longrightarrow> prepare_moderation_action valid e = Inr (DeleteGroup (ev_created_at e))"
  by (simp add: prepare_moderation_action_def)

text \<open>An accepted event that is neither the relay's own nor outside the groups was checked in its group.\<close>

definition outsider :: "outside \<Rightarrow> event \<Rightarrow> 'd relay_state \<Rightarrow> bool" where
  "outsider out e s \<longleftrightarrow> ev_pubkey e \<noteq> relay_public_key (out_crypto out) (rs_settings s)"

definition owner_deletes :: "event \<Rightarrow> 'd relay_state \<Rightarrow> bool" where
  "owner_deletes e s \<longleftrightarrow> ev_kind e = kDeleteGroup \<and> st_owner_pub_key (rs_settings s) = ev_pubkey e"

lemma reject_event_in_group:
  assumes "reject_event ops out now cx e s = (None, e', s')" "outsider out e s"
    and "ev_kind e \<noteq> kGiftWrap" "ev_kind e \<noteq> kProfileMetadata"
  shows "\<exists>gid. get_group_id_from_event e = Some gid \<and>
    reject_in_group ops out cx gid e s = (None, e', s') \<and> ev_kind e \<notin> set metadata_event_kinds \<and>
    (ev_kind e \<in> set moderation_event_kinds \<longrightarrow> int64 (now - 60) \<le> ev_created_at e)"
  using assms
  by (auto simp: reject_event_def outsider_def get_group_id_from_event_def
      split: option.splits if_splits)

lemma reject_in_group_write:
  assumes "reject_in_group ops out cx gid e s = (None, e', s')" "ev_kind e \<noteq> kCreateGroup"
    and "\<not> owner_deletes e s" "ev_kind e \<noteq> kJoinRequest"
  shows "\<exists>g. gs_groups (rs_groups s) gid = Some g \<and> reject_write ops out g e s = (None, e', s')"
  using assms by (auto simp: reject_in_group_def owner_deletes_def split: option.splits if_splits)

definition ex_outside :: outside where
  "ex_outside = \<lparr>out_crypto = ex_crypto, out_pool = (\<lambda>_ _. True)\<rparr>"

definition ex_state :: "slice_store relay_state" where
  "ex_state = \<lparr>rs_groups = ex_groups, rs_settings = ex_settings,
     rs_caches = init_presence_caches, rs_limiter = None\<rparr>"

definition ex_context :: request_context where
  "ex_context = \<lparr>cx_authed = [], cx_ip = ''10.0.0.1''\<rparr>"

definition ex_remove :: event where
  "ex_remove = ex_event 1 kRemoveUser [[''h'', ''g''], [''p'', hex_of 2]]"

definition ex_create :: event where
  "ex_create = ex_event 3 kCreateGroup [[''h'', ''new'']]"

lemma ex_state_simps [simp]:
  "rs_groups ex_state = ex_groups" "rs_settings ex_state = ex_settings"
  "rs_limiter ex_state = None" "rs_caches ex_state = init_presence_caches"
  "out_crypto ex_outside = ex_crypto" "cx_authed ex_context = []"
  by (simp_all add: ex_state_def ex_outside_def ex_context_def)

lemma ex_remove_accepted:
  "reject_event slice_ops ex_outside 1000 ex_context ex_remove ex_state = (None, ex_remove, ex_state)"
  by (simp add: reject_event_def ex_remove_def reject_in_group_def reject_write_def
      moderation_set metadata_set is_member_def reject_moderation_def
      prepare_moderation_action_def prepare_remove_user_def member_roles_def with_tags_def
      reject_kind_def reject_previous_def int64_def)

lemma ex_create_accepted:
  "\<exists>s'. reject_event slice_ops ex_outside 1000 ex_context ex_create ex_state = (None, ex_create, s')"
  by (simp add: reject_event_def ex_create_def reject_in_group_def reject_create_def
      moderation_set metadata_set rs_limit_def rs_check_def
      has_presence_def ask_presence_def reject_parent_def get_parent_from_event_def int64_def)





text \<open>
  A refusal leaves no trace in the groups: the groups, the deleted groups and the store are as
  before; only the presence caches and the limiter may have moved.
\<close>

theorem refusal_changes_no_group:
  assumes "reject_event ops out now cx e s = (Some r, e', s')"
  shows "rs_groups s' = rs_groups s \<and> rs_settings s' = rs_settings s"
  using assms
  by (auto simp: reject_event_def reject_in_group_def split: option.splits if_splits prod.splits
      dest!: reject_gift_wrap_frame reject_join_frame reject_write_frame reject_create_refused)

theorem refusal_changes_no_group_witness:
  "rs_groups (snd (snd (reject_event slice_ops ex_outside 9000 ex_context ex_remove ex_state))) = ex_groups"
  using refusal_changes_no_group [of slice_ops ex_outside 9000 ex_context ex_remove ex_state
      ModerationTooOld ex_remove ex_state]
  by (simp add: reject_event_def ex_remove_def moderation_set int64_def)

text \<open>What an accepted event has done to the groups.\<close>

lemma creation_accepted:
  assumes acc: "reject_event ops out now cx e s = (None, e', s')" and o: "outsider out e s"
  shows "rs_groups s' =
     (if ev_kind e = kCreateGroup then
        (rs_groups s)\<lparr>gs_groups := (gs_groups (rs_groups s))
           (the (get_group_id_from_event e) \<mapsto>
              new_group (gs_relay_url (rs_groups s)) (the (get_group_id_from_event e)))\<rparr>
      else rs_groups s) \<and>
   (ev_kind e = kCreateGroup \<longrightarrow>
      (\<exists>gid. get_group_id_from_event e = Some gid \<and> gs_groups (rs_groups s) gid = None \<and>
         reject_parent (gs_groups (rs_groups s)) gid e = None))"
proof (cases "ev_kind e = kGiftWrap \<or> ev_kind e = kProfileMetadata")
  case True
  with acc o show ?thesis
    by (auto simp: reject_event_def outsider_def split: if_splits prod.splits
        dest!: reject_gift_wrap_frame)
next
  case False
  then obtain gid where gid: "get_group_id_from_event e = Some gid"
      "reject_in_group ops out cx gid e s = (None, e', s')"
    using reject_event_in_group [OF acc o] by blast
  show ?thesis
  proof (cases "ev_kind e = kCreateGroup")
    case True
    with gid(2) have "reject_create out cx gid e s = (None, s')"
      by (auto simp: reject_in_group_def split: prod.splits)
    from reject_create_accepted [OF this] gid(1) True show ?thesis by simp
  next
    case False
    with gid(2) show ?thesis
      by (auto simp: reject_in_group_def split: option.splits if_splits prod.splits
          dest!: reject_join_frame reject_write_frame)
  qed
qed



end
