(* ===== verification/Process.thy ===== *)
theory Process
  imports Reject
begin

text \<open>
  \<open>ProcessEvent\<close> (\<^verbatim>\<open>process_event.go\<close>): what a saved event does to the groups. Creating,
  joining and leaving make the relay sign an event of its own, store it and process it in turn.
  The result is the outcome (the ids of the affected groups, or a panic), the events broadcast on
  the way, and the state, which a panic leaves as far as it was changed.
\<close>

subsection \<open>The events the relay writes itself\<close>

definition add_creator_event :: "event \<Rightarrow> string \<Rightarrow> group \<Rightarrow> event" where
  "add_creator_event e gid g =
     zero_event\<lparr>ev_created_at := ev_created_at e, ev_kind := kPutUser,
       ev_tags := [[''h'', gid], [''p'', hex_of (ev_pubkey e), role_name (g_roles g ! 0)]]\<rparr>"

definition add_user_event :: "timestamp \<Rightarrow> event \<Rightarrow> string \<Rightarrow> event" where
  "add_user_event now e gid =
     zero_event\<lparr>ev_created_at := now, ev_kind := kPutUser,
       ev_tags := [[''h'', gid], [''p'', hex_of (ev_pubkey e)],
         [''code'', case tags_find (ev_tags e) ''code'' of None \<Rightarrow> [] | Some t \<Rightarrow> t ! 1]]\<rparr>"

definition remove_user_event :: "timestamp \<Rightarrow> event \<Rightarrow> string \<Rightarrow> event" where
  "remove_user_event now e gid =
     zero_event\<lparr>ev_created_at := now, ev_kind := kRemoveUser,
       ev_tags := [[''h'', gid], [''p'', hex_of (ev_pubkey e)], [''self-removal'']]\<rparr>"

text \<open>
  \<open>Sign\<close> then \<open>SaveEvent\<close>: the signed event if both succeed. A failure is logged and the handler
  returns.
\<close>

definition sign_and_save ::
  "'d store_ops \<Rightarrow> crypto \<Rightarrow> event \<Rightarrow> 'd groups_state \<Rightarrow> event option \<times> 'd groups_state" where
  "sign_and_save ops c e s =
     (case event_sign c (gs_secret_key s) e of
        (x, False) \<Rightarrow> (None, s)
      | (x, True) \<Rightarrow>
          (case so_save ops x (gs_db s) of
             (Some _, db) \<Rightarrow> (None, s\<lparr>gs_db := db\<rparr>)
           | (None, db) \<Rightarrow> (Some x, s\<lparr>gs_db := db\<rparr>)))"

lemma sign_and_save_Some:
  "sign_and_save ops c e s = (Some x, s') \<Longrightarrow>
   event_sign c (gs_secret_key s) e = (x, True) \<and>
   (\<exists>db. so_save ops x (gs_db s) = (None, db) \<and> s' = s\<lparr>gs_db := db\<rparr>)"
  by (auto simp: sign_and_save_def split: prod.splits bool.splits option.splits)

lemma sign_and_save_kind: "sign_and_save ops c e s = (Some x, s') \<Longrightarrow> ev_kind x = ev_kind e"
  by (metis event_sign_keeps(1) fst_conv sign_and_save_Some)

subsection \<open>Group creation\<close>

definition created_group :: "'d groups_state \<Rightarrow> string \<Rightarrow> event \<Rightarrow> group" where
  "created_group s gid e =
     (let g = new_group (gs_relay_url s) gid
      in case get_parent_from_event e of None \<Rightarrow> g | Some p \<Rightarrow> g\<lparr>gr_parent := p\<rparr>)"

definition create_group ::
  "string \<Rightarrow> event \<Rightarrow> 'd groups_state \<Rightarrow> string list \<times> 'd groups_state" where
  "create_group gid e s =
     (let g = created_group s gid e;
          gs1 = (gs_groups s)(gid \<mapsto> g);
          s1 = s\<lparr>gs_groups := gs1, gs_deleted := (gs_deleted s)(gid := None)\<rparr>
      in if gr_parent g \<noteq> [] then
           (case add_parent_child (gr_parent g) gid (ev_created_at e) gs1 of
              (gs2, _, added) \<Rightarrow>
                (append_unique (if added then [gr_parent g] else []) gid, s1\<lparr>gs_groups := gs2\<rparr>))
         else ([gid], s1))"

subsection \<open>Applying an action\<close>

definition update_group :: "string \<Rightarrow> (group \<Rightarrow> group) \<Rightarrow> 'd groups_state \<Rightarrow> 'd groups_state" where
  "update_group gid f s = s\<lparr>gs_groups := (gs_groups s)(gid := map_option f (gs_groups s gid))\<rparr>"

text \<open>The loop over the \<open>e\<close> tags: a value that is no id, or a failed delete, is passed over.\<close>

definition remember_deleted :: "eid \<Rightarrow> 'd groups_state \<Rightarrow> 'd groups_state" where
  "remember_deleted i s =
     (let n = gs_deleted_index s + 1
      in s\<lparr>gs_deleted_index := n, gs_deleted_cache := (gs_deleted_cache s)[unat n mod 128 := i]\<rparr>)"

fun delete_targets :: "'d store_ops \<Rightarrow> tag list \<Rightarrow> 'd groups_state \<Rightarrow> 'd groups_state" where
  "delete_targets ops [] s = s"
| "delete_targets ops (t # ts) s =
     (case id_from_hex (t ! 1) of
        None \<Rightarrow> delete_targets ops ts s
      | Some i \<Rightarrow>
          (case so_delete ops i (gs_db s) of
             (Some _, db) \<Rightarrow> delete_targets ops ts (s\<lparr>gs_db := db\<rparr>)
           | (None, db) \<Rightarrow> delete_targets ops ts (remember_deleted i (s\<lparr>gs_db := db\<rparr>))))"

definition drop_group ::
  "string \<Rightarrow> group \<Rightarrow> event \<Rightarrow> string list \<Rightarrow> 'd groups_state \<Rightarrow> string list \<times> 'd groups_state" where
  "drop_group gid g e aff s =
     (let (gs1, aff1) =
        (if gr_parent g \<noteq> [] then
           (case remove_parent_child (gr_parent g) gid (ev_created_at e) (gs_groups s) of
              (gs', _, removed) \<Rightarrow> (gs', if removed then append_unique aff (gr_parent g) else aff))
         else (gs_groups s, aff))
      in (aff1, s\<lparr>gs_deleted := (gs_deleted s)(gid \<mapsto>
                    \<lparr>dg_id = gid, dg_at = ev_created_at e, dg_by = ev_pubkey e\<rparr>),
                  gs_groups := gs1(gid := None)\<rparr>))"

text \<open>
  A stage of the handler ends with a return (or a panic), or goes on with the affected groups.
\<close>

datatype 'd stage =
    Stop "string list outcome" "event list" "'d groups_state"
  | Go "string list" "event list" "'d groups_state"

definition apply_stage ::
  "'d store_ops \<Rightarrow> action \<Rightarrow> event \<Rightarrow> string \<Rightarrow> group \<Rightarrow> string list \<Rightarrow> event list \<Rightarrow> 'd groups_state \<Rightarrow>
     'd stage" where
  "apply_stage ops act e gid g aff bs s =
     (let s1 = update_group gid (apply_action act) s;
          s2 = s1\<lparr>gs_all_members := update_all_members act (gs_all_members s1)\<rparr>
      in if ev_kind e = kDeleteEvent then
           Go aff bs (delete_targets ops (tags_find_all (ev_tags e) ''e'') s2)
         else if ev_kind e = kDeleteGroup then
           (case drop_group gid g e aff s2 of (aff', s3) \<Rightarrow> Stop (Returned aff') bs s3)
         else Go aff bs s2)"

subsection \<open>The last 50 events\<close>

text \<open>Go's \<open>%\<close> truncates towards 0; a negative index panics.\<close>

definition go_rem :: "int \<Rightarrow> int \<Rightarrow> int" where
  "go_rem a b = (if a < 0 then - ((- a) mod b) else a mod b)"

definition push_last50 :: "eid \<Rightarrow> group \<Rightarrow> unit outcome \<times> group" where
  "push_last50 i g =
     (let idx = gr_last50index g + 1; r = go_rem (sint (idx - 1)) 50;
          g1 = g\<lparr>gr_last50index := idx\<rparr>
      in if r < 0 then (Panicked, g1)
         else (Returned (), g1\<lparr>gr_last50 := (gr_last50 g1)[nat r := i]\<rparr>))"

definition finish_stage ::
  "event \<Rightarrow> string \<Rightarrow> string list \<Rightarrow> event list \<Rightarrow> 'd groups_state \<Rightarrow>
     string list outcome \<times> event list \<times> 'd groups_state" where
  "finish_stage e gid aff bs s =
     (case gs_groups s gid of
        None \<Rightarrow> (Returned aff, bs, s)
      | Some g \<Rightarrow>
          (case push_last50 (ev_id e) g of
             (r, g') \<Rightarrow>
               (case r of Panicked \<Rightarrow> Panicked | Returned _ \<Rightarrow> Returned aff, bs,
                s\<lparr>gs_groups := (gs_groups s)(gid \<mapsto> g')\<rparr>)))"

subsection \<open>The handler\<close>

text \<open>
  An event the relay wrote itself is signed, stored, processed and broadcast. The affected groups of the inner call are dropped: the source discards what
  \<open>AppendUnique\<close> returns.
\<close>

function process_event ::
  "'d store_ops \<Rightarrow> crypto \<Rightarrow> timestamp \<Rightarrow> event \<Rightarrow> 'd groups_state \<Rightarrow>
     string list outcome \<times> event list \<times> 'd groups_state" where
  "process_event ops c now e s =
     (case
        (case prepare_moderation_action (cr_valid c) e of
           Inl _ \<Rightarrow> Go [] [] s
         | Inr act \<Rightarrow>
             if ev_kind e = kCreateGroup then
               (case get_group_id_from_event e of
                  None \<Rightarrow> Stop (Returned []) [] s
                | Some gid \<Rightarrow>
                    (case create_group gid e s of (aff, s1) \<Rightarrow>
                    (case sign_and_save ops c (add_creator_event e gid (created_group s gid e)) s1 of
                       (None, s2) \<Rightarrow> Stop (Returned aff) [] s2
                     | (Some x, s2) \<Rightarrow>
                         (case process_event ops c now x s2 of
                            (Panicked, bs, s3) \<Rightarrow> Stop Panicked bs s3
                          | (Returned _, bs, s3) \<Rightarrow>
                              apply_stage ops act e gid (created_group s gid e) aff (bs @ [x]) s3))))
             else
               (case get_group_from_event (gs_groups s) e of
                  None \<Rightarrow> Stop Panicked [] s
                | Some g \<Rightarrow> apply_stage ops act e (g_id g) g [] [] s))
      of
        Stop r bs s1 \<Rightarrow> (r, bs, s1)
      | Go aff bs s1 \<Rightarrow>
          (case get_group_from_event (gs_groups s1) e of
             None \<Rightarrow> (Returned aff, bs, s1)
           | Some g \<Rightarrow>
               let aff1 = append_unique aff (g_id g)
               in if ev_kind e = kJoinRequest then
                    (case sign_and_save ops c (add_user_event now e (g_id g)) s1 of
                       (None, s2) \<Rightarrow> (Returned aff1, bs, s2)
                     | (Some x, s2) \<Rightarrow>
                         (case process_event ops c now x s2 of
                            (Panicked, bs', s3) \<Rightarrow> (Panicked, bs @ bs', s3)
                          | (Returned _, bs', s3) \<Rightarrow> finish_stage e (g_id g) aff1 (bs @ bs' @ [x]) s3))
                  else if ev_kind e = kLeaveRequest \<and> is_member g (ev_pubkey e) then
                    (case sign_and_save ops c (remove_user_event now e (g_id g)) s1 of
                       (None, s2) \<Rightarrow> (Returned aff1, bs, s2)
                     | (Some x, s2) \<Rightarrow>
                         (case process_event ops c now x s2 of
                            (Panicked, bs', s3) \<Rightarrow> (Panicked, bs @ bs', s3)
                          | (Returned _, bs', s3) \<Rightarrow> finish_stage e (g_id g) aff1 (bs @ bs' @ [x]) s3))
                  else finish_stage e (g_id g) aff1 bs s1))"
  by pat_completeness auto
termination
  by (relation "measure (\<lambda>(ops, c, now, e, s).
        if ev_kind e \<in> {kCreateGroup, kJoinRequest, kLeaveRequest} then 1 else 0)")
    (auto dest!: sign_and_save_kind [OF sym] simp: add_creator_event_def add_user_event_def
       remove_user_event_def)

declare process_event.simps [simp del]

subsection \<open>The two halves of the handler\<close>

definition moderation_stage ::
  "'d store_ops \<Rightarrow> crypto \<Rightarrow> timestamp \<Rightarrow> event \<Rightarrow> 'd groups_state \<Rightarrow> 'd stage" where
  "moderation_stage ops c now e s =
     (case prepare_moderation_action (cr_valid c) e of
        Inl _ \<Rightarrow> Go [] [] s
      | Inr act \<Rightarrow>
          if ev_kind e = kCreateGroup then
            (case get_group_id_from_event e of
               None \<Rightarrow> Stop (Returned []) [] s
             | Some gid \<Rightarrow>
                 (case create_group gid e s of (aff, s1) \<Rightarrow>
                 (case sign_and_save ops c (add_creator_event e gid (created_group s gid e)) s1 of
                    (None, s2) \<Rightarrow> Stop (Returned aff) [] s2
                  | (Some x, s2) \<Rightarrow>
                      (case process_event ops c now x s2 of
                         (Panicked, bs, s3) \<Rightarrow> Stop Panicked bs s3
                       | (Returned _, bs, s3) \<Rightarrow>
                           apply_stage ops act e gid (created_group s gid e) aff (bs @ [x]) s3))))
          else
            (case get_group_from_event (gs_groups s) e of
               None \<Rightarrow> Stop Panicked [] s
             | Some g \<Rightarrow> apply_stage ops act e (g_id g) g [] [] s))"

text \<open>The event a join or leave request makes the relay write.\<close>

definition answer_event :: "timestamp \<Rightarrow> event \<Rightarrow> group \<Rightarrow> event option" where
  "answer_event now e g =
     (if ev_kind e = kJoinRequest then Some (add_user_event now e (g_id g))
      else if ev_kind e = kLeaveRequest \<and> is_member g (ev_pubkey e)
        then Some (remove_user_event now e (g_id g))
      else None)"

definition reaction_stage ::
  "'d store_ops \<Rightarrow> crypto \<Rightarrow> timestamp \<Rightarrow> event \<Rightarrow> string list \<Rightarrow> event list \<Rightarrow> 'd groups_state \<Rightarrow>
     string list outcome \<times> event list \<times> 'd groups_state" where
  "reaction_stage ops c now e aff bs s =
     (case get_group_from_event (gs_groups s) e of
        None \<Rightarrow> (Returned aff, bs, s)
      | Some g \<Rightarrow>
          let aff1 = append_unique aff (g_id g)
          in case answer_event now e g of
               None \<Rightarrow> finish_stage e (g_id g) aff1 bs s
             | Some own \<Rightarrow>
                 (case sign_and_save ops c own s of
                    (None, s2) \<Rightarrow> (Returned aff1, bs, s2)
                  | (Some x, s2) \<Rightarrow>
                      (case process_event ops c now x s2 of
                         (Panicked, bs', s3) \<Rightarrow> (Panicked, bs @ bs', s3)
                       | (Returned _, bs', s3) \<Rightarrow>
                           finish_stage e (g_id g) aff1 (bs @ bs' @ [x]) s3)))"

lemma process_event_stages:
  "process_event ops c now e s =
     (case moderation_stage ops c now e s of
        Stop r bs s1 \<Rightarrow> (r, bs, s1)
      | Go aff bs s1 \<Rightarrow> reaction_stage ops c now e aff bs s1)"
  unfolding moderation_stage_def reaction_stage_def answer_event_def
  by (subst process_event.simps) (auto simp: Let_def intro!: stage.case_cong option.case_cong)

lemma answer_event_kind: "answer_event now e g = Some own \<Longrightarrow> ev_kind own \<in> {kPutUser, kRemoveUser}"
  by (auto simp: answer_event_def add_user_event_def remove_user_event_def split: if_splits)

subsection \<open>Invariants of the handler\<close>

definition stage_holds :: "('d groups_state \<Rightarrow> bool) \<Rightarrow> 'd stage \<Rightarrow> bool" where
  "stage_holds P st \<longleftrightarrow> (case st of Stop r bs s \<Rightarrow> P s | Go aff bs s \<Rightarrow> P s)"

lemma stage_holds_simps [simp]:
  "stage_holds P (Stop r bs s) = P s" "stage_holds P (Go aff bs s) = P s"
  by (simp_all add: stage_holds_def)

text \<open>
  What holds of the state through \<open>ProcessEvent\<close>: a predicate that each of its elementary changes
  keeps, storing an event the relay signed and deleting one among them, provided the event is one of the \<open>allowed\<close> ones if it creates a group.
\<close>

locale handler_invariant =
  fixes ops :: "'d store_ops"
    and c :: crypto
    and P :: "'d groups_state \<Rightarrow> bool"
    and allowed :: "event \<Rightarrow> bool"
  assumes inv_save: "P s \<Longrightarrow> event_sign c (gs_secret_key s) e = (x, True) \<Longrightarrow>
           so_save ops x (gs_db s) = (r, db) \<Longrightarrow> P (s\<lparr>gs_db := db\<rparr>)"
    and inv_delete: "P s \<Longrightarrow> so_delete ops i (gs_db s) = (r, db) \<Longrightarrow> P (s\<lparr>gs_db := db\<rparr>)"
    and inv_members: "P s \<Longrightarrow> P (s\<lparr>gs_all_members := m\<rparr>)"
    and inv_remember: "P s \<Longrightarrow> P (remember_deleted i s)"
    and inv_create: "P s \<Longrightarrow> allowed e \<Longrightarrow> get_group_id_from_event e = Some gid \<Longrightarrow>
           P (snd (create_group gid e s))"
    and inv_apply: "P s \<Longrightarrow> P (update_group gid (apply_action act) s)"
    and inv_push: "P s \<Longrightarrow> P (update_group gid (\<lambda>g. snd (push_last50 i g)) s)"
    and inv_drop: "P s \<Longrightarrow> P (snd (drop_group gid g e aff s))"
begin

lemma inv_delete_targets: "P s \<Longrightarrow> P (delete_targets ops ts s)"
proof (induction ts arbitrary: s)
  case (Cons t ts)
  show ?case
  proof (cases "id_from_hex (t ! 1)")
    case None
    with Cons show ?thesis by simp
  next
    case (Some i)
    obtain r db where d: "so_delete ops i (gs_db s) = (r, db)" by fastforce
    have "P (s\<lparr>gs_db := db\<rparr>)" using Cons.prems d by (rule inv_delete)
    with Cons.IH inv_remember Some d show ?thesis by (cases r) simp_all
  qed
qed simp

lemma inv_sign_and_save: "P s \<Longrightarrow> sign_and_save ops c e s = (r, s') \<Longrightarrow> P s'"
  by (auto simp: sign_and_save_def split: prod.splits bool.splits option.splits intro: inv_save)

lemma inv_apply_stage:
  assumes "P s" shows "stage_holds P (apply_stage ops act e gid g aff bs s)"
proof -
  let ?s2 = "(update_group gid (apply_action act) s)\<lparr>gs_all_members :=
    update_all_members act (gs_all_members (update_group gid (apply_action act) s))\<rparr>"
  have "P ?s2" by (intro inv_members inv_apply assms)
  with inv_drop [of ?s2 gid g e aff] inv_delete_targets show ?thesis
    by (auto simp: apply_stage_def stage_holds_def Let_def split: prod.splits)
qed

lemma inv_finish:
  assumes "P s" shows "P (snd (snd (finish_stage e gid aff bs s)))"
  using assms inv_push [OF assms, of gid "ev_id e"]
  by (auto simp: finish_stage_def update_group_def split: option.splits prod.splits)


text \<open>The part of the handler up to the reactions.\<close>

lemma inv_first_stage:
  assumes s: "P s" and al: "ev_kind e = kCreateGroup \<Longrightarrow> allowed e"
    and rec: "\<And>x s2 r bs s3. ev_kind x \<in> {kPutUser, kRemoveUser} \<Longrightarrow> P s2 \<Longrightarrow>
                process_event ops c now x s2 = (r, bs, s3) \<Longrightarrow> P s3"
  shows "stage_holds P (moderation_stage ops c now e s)"
proof (cases "prepare_moderation_action (cr_valid c) e")
  case (Inl err)
  with s show ?thesis by (simp add: moderation_stage_def)
next
  case (Inr act)
  show ?thesis
  proof (cases "ev_kind e = kCreateGroup")
    case False
    with Inr s show ?thesis
      by (auto simp: moderation_stage_def intro: inv_apply_stage split: option.splits)
  next
    case True
    show ?thesis
    proof (cases "get_group_id_from_event e")
      case None
      with True Inr s show ?thesis by (simp add: moderation_stage_def)
    next
      case (Some gid)
      obtain aff s1 where c1: "create_group gid e s = (aff, s1)" by fastforce
      with inv_create [OF s al [OF True] Some] have s1: "P s1" by simp
      let ?x = "add_creator_event e gid (created_group s gid e)"
      obtain r s2 where sv: "sign_and_save ops c ?x s1 = (r, s2)" by fastforce
      have s2: "P s2" by (rule inv_sign_and_save [OF s1 sv])
      show ?thesis
      proof (cases r)
        case None
        with True Inr Some c1 sv s2 show ?thesis by (simp add: moderation_stage_def)
      next
        case (Some x)
        obtain q bs s3 where p: "process_event ops c now x s2 = (q, bs, s3)" by (metis prod_cases3)
        have "ev_kind x = kPutUser"
          using sign_and_save_kind sv Some by (fastforce simp: add_creator_event_def)
        with rec [OF _ s2 p] have "P s3" by simp
        with True Inr \<open>get_group_id_from_event e = Some gid\<close> c1 sv Some p show ?thesis
          by (cases q) (simp_all add: moderation_stage_def inv_apply_stage)
      qed
    qed
  qed
qed

lemma inv_reaction_stage:
  assumes s: "P s"
    and rec: "\<And>x s2 r bs s3. ev_kind x \<in> {kPutUser, kRemoveUser} \<Longrightarrow> P s2 \<Longrightarrow>
                process_event ops c now x s2 = (r, bs, s3) \<Longrightarrow> P s3"
  shows "P (snd (snd (reaction_stage ops c now e aff bs s)))"
proof (cases "get_group_from_event (gs_groups s) e")
  case None
  with s show ?thesis by (simp add: reaction_stage_def)
next
  case (Some g)
  show ?thesis
  proof (cases "answer_event now e g")
    case None
    with Some s show ?thesis by (simp add: reaction_stage_def Let_def inv_finish)
  next
    case (Some own)
    obtain r s2 where sv: "sign_and_save ops c own s = (r, s2)" by fastforce
    have s2: "P s2" by (rule inv_sign_and_save [OF s sv])
    show ?thesis
    proof (cases r)
      case None
      with \<open>get_group_from_event _ e = _\<close> Some sv s2 show ?thesis
        by (simp add: reaction_stage_def Let_def)
    next
      case x: (Some x)
      obtain q bs' s3 where p: "process_event ops c now x s2 = (q, bs', s3)" by (metis prod_cases3)
      have "ev_kind x \<in> {kPutUser, kRemoveUser}"
        using sign_and_save_kind sv x answer_event_kind [OF Some] by fastforce
      from rec [OF this s2 p] have "P s3" .
      with \<open>get_group_from_event _ e = _\<close> Some sv x p show ?thesis
        by (cases q) (simp_all add: reaction_stage_def Let_def inv_finish)
    qed
  qed
qed

text \<open>First for the events the relay writes, which call the handler no further; then for all.\<close>

lemma inv_process_by_rec:
  assumes s: "P s" and al: "ev_kind e = kCreateGroup \<Longrightarrow> allowed e"
    and rec: "\<And>x s2 r bs s3. ev_kind x \<in> {kPutUser, kRemoveUser} \<Longrightarrow> P s2 \<Longrightarrow>
                process_event ops c now x s2 = (r, bs, s3) \<Longrightarrow> P s3"
  shows "P (snd (snd (process_event ops c now e s)))"
proof -
  have "stage_holds P (moderation_stage ops c now e s)"
    using s al rec by (rule inv_first_stage)
  moreover have "P (snd (snd (reaction_stage ops c now e aff bs s1)))" if "P s1" for aff bs s1
    using that rec by (rule inv_reaction_stage)
  ultimately show ?thesis
    by (cases "moderation_stage ops c now e s") (simp_all add: process_event_stages)
qed

lemma inv_process_own:
  assumes s: "P s" and k: "ev_kind e \<in> {kPutUser, kRemoveUser}"
  shows "P (snd (snd (process_event ops c now e s)))"
proof -
  have "stage_holds P (moderation_stage ops c now e s)"
    using s k by (auto simp: moderation_stage_def intro: inv_apply_stage split: sum.splits option.splits)
  moreover have "P (snd (snd (reaction_stage ops c now e aff bs s1)))" if "P s1" for aff bs s1
    using that k by (auto simp: reaction_stage_def answer_event_def Let_def intro: inv_finish split: option.splits)
  ultimately show ?thesis
    by (cases "moderation_stage ops c now e s") (simp_all add: process_event_stages)
qed

lemma inv_process:
  "P s \<Longrightarrow> (ev_kind e = kCreateGroup \<Longrightarrow> allowed e) \<Longrightarrow> P (snd (snd (process_event ops c now e s)))"
proof (rule inv_process_by_rec)
  fix x s2 r bs s3
  assume "ev_kind x \<in> {kPutUser, kRemoveUser}" "P s2" "process_event ops c now x s2 = (r, bs, s3)"
  then show "P s3" using inv_process_own [of s2 x now] by simp
qed

end
subsection \<open>Well-formed states\<close>

text \<open>
  Every group is filed under its own id, is well-formed, lists no child twice and has its 50 slots
  for recent events; the cache of deleted ids has its 128.
\<close>

definition group_ok :: "string \<Rightarrow> group \<Rightarrow> bool" where
  "group_ok gid g \<longleftrightarrow>
     g_id g = gid \<and> group_wf g \<and> distinct (gr_children g) \<and> length (gr_last50 g) = 50"

definition groups_ok :: "groups \<Rightarrow> bool" where
  "groups_ok gs \<longleftrightarrow> (\<forall>gid g. gs gid = Some g \<longrightarrow> group_ok gid g)"

definition state_ok :: "'d groups_state \<Rightarrow> bool" where
  "state_ok s \<longleftrightarrow> groups_ok (gs_groups s) \<and> length (gs_deleted_cache s) = 128"

lemma groups_okD: "groups_ok gs \<Longrightarrow> gs gid = Some g \<Longrightarrow> group_ok gid g"
  by (simp add: groups_ok_def)

lemma groups_ok_upd: "groups_ok gs \<Longrightarrow> group_ok gid g \<Longrightarrow> groups_ok (gs(gid \<mapsto> g))"
  by (simp add: groups_ok_def)

lemma groups_ok_del: "groups_ok gs \<Longrightarrow> groups_ok (gs(gid := None))"
  by (simp add: groups_ok_def)

lemma group_ok_new: "group_ok gid (new_group url gid)"
  by (simp add: group_ok_def new_group_def group_wf_def)

lemma group_wf_members: "g_members g' = g_members g \<Longrightarrow> group_wf g' = group_wf g"
  by (simp add: group_wf_def)

lemma group_ok_children:
  "group_ok gid g \<Longrightarrow> distinct cs \<Longrightarrow> group_ok gid (bump_metadata w (g\<lparr>gr_children := cs\<rparr>))"
  by (simp add: group_ok_def bump_metadata_def group_wf_def)

lemma groups_ok_add_parent_child:
  assumes "groups_ok gs" shows "groups_ok (fst (add_parent_child p c w gs))"
proof (cases "gs p")
  case None
  with assms show ?thesis by (simp add: add_parent_child_def)
next
  case (Some g)
  with assms have g: "group_ok p g" by (rule groups_okD)
  then have "c \<notin> set (gr_children g) \<Longrightarrow>
      group_ok p (bump_metadata w (g\<lparr>gr_children := gr_children g @ [c]\<rparr>))"
    by (intro group_ok_children) (auto simp: group_ok_def)
  with assms Some show ?thesis by (auto simp: add_parent_child_def groups_ok_upd)
qed

lemma groups_ok_remove_parent_child:
  assumes "groups_ok gs" shows "groups_ok (fst (remove_parent_child p c w gs))"
proof (cases "gs p")
  case None
  with assms show ?thesis by (simp add: remove_parent_child_def)
next
  case (Some g)
  with assms have g: "group_ok p g" by (rule groups_okD)
  show ?thesis
  proof (cases "slice_index (gr_children g) c")
    case None
    with Some assms show ?thesis
      by (simp add: remove_parent_child_def del: slice_index_None)
  next
    case i: (Some i)
    have "group_ok p (bump_metadata w (g\<lparr>gr_children := slice_delete (gr_children g) i\<rparr>))"
      using g by (intro group_ok_children) (auto simp: slice_delete_first [OF i] group_ok_def)
    with assms Some i show ?thesis by (simp add: remove_parent_child_def groups_ok_upd)
  qed
qed

lemma state_ok_create:
  assumes "state_ok s" shows "state_ok (snd (create_group gid e s))"
proof -
  have "group_ok gid (created_group s gid e)"
    using group_ok_new [of gid "gs_relay_url s"]
    by (auto simp: created_group_def Let_def group_ok_def group_wf_def split: option.splits)
  with assms have "groups_ok ((gs_groups s)(gid \<mapsto> created_group s gid e))"
    by (simp add: state_ok_def groups_ok_upd)
  with assms groups_ok_add_parent_child [OF this] show ?thesis
    by (auto simp: create_group_def Let_def state_ok_def split: prod.splits)
      (metis fst_conv)
qed

lemma group_ok_apply: "group_ok gid g \<Longrightarrow> group_ok gid (apply_action act g)" for g :: group
  by (simp add: group_ok_def apply_action_wf)

lemma group_ok_push: "group_ok gid g \<Longrightarrow> group_ok gid (snd (push_last50 i g))"
  by (auto simp: push_last50_def Let_def group_ok_def group_wf_def)

lemma state_ok_update_group:
  "state_ok s \<Longrightarrow> (\<And>g. group_ok gid g \<Longrightarrow> group_ok gid (f g)) \<Longrightarrow> state_ok (update_group gid f s)"
  by (auto simp: state_ok_def update_group_def groups_ok_def split: option.splits)

lemma state_ok_drop:
  assumes "state_ok s" shows "state_ok (snd (drop_group gid g e aff s))"
  using assms groups_ok_remove_parent_child [of "gs_groups s" "gr_parent g" gid "ev_created_at e"]
  by (auto simp: drop_group_def state_ok_def groups_ok_del split: prod.splits if_splits)

interpretation well_formed: handler_invariant ops c state_ok "\<lambda>_. True" for ops c
proof
  fix s :: "'d groups_state" and db m i gid e act g aff
  assume s: "state_ok s"
  show "state_ok (s\<lparr>gs_db := db\<rparr>)" "state_ok (s\<lparr>gs_db := db\<rparr>)" "state_ok (s\<lparr>gs_all_members := m\<rparr>)"
    using s by (simp_all add: state_ok_def)
  show "state_ok (remember_deleted i s)"
    using s by (simp add: state_ok_def remember_deleted_def Let_def)
  show "state_ok (snd (create_group gid e s))" by (rule state_ok_create [OF s])
  show "state_ok (update_group gid (apply_action act) s)"
    using s by (rule state_ok_update_group) (rule group_ok_apply)
  show "state_ok (update_group gid (\<lambda>g. snd (push_last50 i g)) s)"
    using s by (rule state_ok_update_group) (rule group_ok_push)
  show "state_ok (snd (drop_group gid g e aff s))" by (rule state_ok_drop [OF s])
qed

text \<open>
  Whatever event is processed, and however it ends, early returns and panics included, the
  state stays well-formed.
\<close>

theorem process_event_keeps_state_ok:
  "state_ok s \<Longrightarrow> state_ok (snd (snd (process_event ops c now e s)))"
  by (rule well_formed.inv_process) simp_all

lemma ex_groups_ok: "state_ok ex_groups"
  by (auto simp: state_ok_def groups_ok_def group_ok_def group_wf_def)

theorem process_event_keeps_state_ok_witness:
  "state_ok (snd (snd (process_event slice_ops ex_crypto 1000
     (ex_event 2 kLeaveRequest [[''h'', ''g'']]) ex_groups)))"
  by (rule process_event_keeps_state_ok [OF ex_groups_ok])

subsection \<open>What each kind of event does\<close>

definition index_ok :: "group \<Rightarrow> bool" where
  "index_ok g \<longleftrightarrow> 0 \<le> sint (gr_last50index g) \<and> sint (gr_last50index g) + 1 < 2 ^ 31"

definition pushed :: "eid \<Rightarrow> group \<Rightarrow> group" where
  "pushed i g = g\<lparr>gr_last50index := gr_last50index g + 1,
     gr_last50 := (gr_last50 g)[nat (sint (gr_last50index g) mod 50) := i]\<rparr>"

lemma push_last50_ok:
  "0 \<le> sint (gr_last50index g) \<Longrightarrow> push_last50 i g = (Returned (), pushed i g)"
  by (simp add: push_last50_def pushed_def go_rem_def Let_def)

lemma pushed_simps [simp]:
  "g_members (pushed i g) = g_members g" "g_invite_codes (pushed i g) = g_invite_codes g"
  "g_id (pushed i g) = g_id g" "gr_parent (pushed i g) = gr_parent g"
  "gr_children (pushed i g) = gr_children g" "g_roles (pushed i g) = g_roles g"
  by (simp_all add: pushed_def)

lemma index_ok_pushed: "index_ok g \<Longrightarrow> 0 \<le> sint (gr_last50index (pushed i g))"
  using sint_add_int32 [of "gr_last50index g" 1]
  by (simp add: index_ok_def pushed_def int32_def)

lemma finish_stage_ok:
  "gs_groups s gid = Some g \<Longrightarrow> 0 \<le> sint (gr_last50index g) \<Longrightarrow>
   finish_stage e gid aff bs s =
     (Returned aff, bs, s\<lparr>gs_groups := (gs_groups s)(gid \<mapsto> pushed (ev_id e) g)\<rparr>)"
  by (simp add: finish_stage_def push_last50_ok)

definition plain_kind :: "kind \<Rightarrow> bool" where
  "plain_kind k \<longleftrightarrow> k \<in> {kPutUser, kRemoveUser, kEditMetadata, kCreateInvite}"

definition group_of :: "'d groups_state \<Rightarrow> event \<Rightarrow> string \<Rightarrow> group \<Rightarrow> bool" where
  "group_of s e gid g \<longleftrightarrow>
     get_group_id_from_event e = Some gid \<and> gs_groups s gid = Some g \<and> g_id g = gid"

lemma group_of_get: "group_of s e gid g \<Longrightarrow> get_group_from_event (gs_groups s) e = Some g"
  by (simp add: group_of_def get_group_from_event_def)

lemma get_group_id_cong:
  "ev_kind x = ev_kind y \<Longrightarrow> ev_tags x = ev_tags y \<Longrightarrow>
   get_group_id_from_event x = get_group_id_from_event y"
  by (simp add: get_group_id_from_event_def)

text \<open>The moderation events that only change their group.\<close>

lemma process_plain:
  assumes act: "prepare_moderation_action (cr_valid c) e = Inr act" and k: "plain_kind (ev_kind e)"
    and g: "group_of s e gid g"
  shows "process_event ops c now e s = finish_stage e gid [gid] []
    (s\<lparr>gs_groups := (gs_groups s)(gid \<mapsto> apply_action act g),
       gs_all_members := update_all_members act (gs_all_members s)\<rparr>)"
proof -
  have kinds: "ev_kind e \<noteq> kCreateGroup" "ev_kind e \<noteq> kDeleteEvent" "ev_kind e \<noteq> kDeleteGroup"
      "ev_kind e \<noteq> kJoinRequest" "ev_kind e \<noteq> kLeaveRequest"
    using k by (auto simp: plain_kind_def)
  have gid: "gs_groups s gid = Some g" "g_id g = gid" "get_group_id_from_event e = Some gid"
    using g by (auto simp: group_of_def)
  have u: "update_group gid (apply_action act) s =
      s\<lparr>gs_groups := (gs_groups s)(gid \<mapsto> apply_action act g)\<rparr>"
    using gid by (simp add: update_group_def)
  have "moderation_stage ops c now e s = Go [] []
      (s\<lparr>gs_groups := (gs_groups s)(gid \<mapsto> apply_action act g),
         gs_all_members := update_all_members act (gs_all_members s)\<rparr>)"
    using act kinds group_of_get [OF g] gid
    by (simp add: moderation_stage_def apply_stage_def Let_def u)
  then show ?thesis
    using kinds gid
    by (simp add: process_event_stages reaction_stage_def answer_event_def get_group_from_event_def
        append_unique_def Let_def)
qed

text \<open>The handling of the event the relay writes for a request.\<close>

lemma process_answer:
  assumes g: "group_of s e gid g" and mod: "ev_kind e \<notin> set moderation_event_kinds"
    and own: "answer_event now e g = Some own" "get_group_id_from_event own = Some gid"
    and sv: "sign_and_save ops c own s = (Some x, s2)"
    and act: "\<And>sk. prepare_moderation_action (cr_valid c) (fst (event_sign c sk own)) = Inr act"
    and idx: "index_ok g"
  shows "process_event ops c now e s = (Returned [gid], [x],
    s2\<lparr>gs_groups := (gs_groups s)(gid \<mapsto> pushed (ev_id e) (pushed (ev_id x) (apply_action act g))),
       gs_all_members := update_all_members act (gs_all_members s)\<rparr>)"
proof -
  let ?g1 = "apply_action act g"
  from sign_and_save_Some [OF sv] obtain db where
    x: "event_sign c (gs_secret_key s) own = (x, True)" and s2: "s2 = s\<lparr>gs_db := db\<rparr>" by blast
  have gid: "gs_groups s gid = Some g" "g_id g = gid" "get_group_id_from_event e = Some gid"
    using g by (auto simp: group_of_def)
  have xk: "ev_kind x = ev_kind own" "ev_tags x = ev_tags own"
    using x event_sign_keeps [of c "gs_secret_key s" own] by simp_all
  have g2: "group_of s2 x gid g"
    using gid own(2) get_group_id_cong [OF xk] by (simp add: group_of_def s2)
  have pk: "plain_kind (ev_kind x)"
    using answer_event_kind [OF own(1)] xk by (auto simp: plain_kind_def)
  have ax: "prepare_moderation_action (cr_valid c) x = Inr act"
    using act [of "gs_secret_key s"] x by simp
  have i1: "0 \<le> sint (gr_last50index ?g1)" "index_ok ?g1"
    using idx by (simp_all add: index_ok_def)
  have inner: "process_event ops c now x s2 = (Returned [gid], [],
      s2\<lparr>gs_groups := (gs_groups s)(gid \<mapsto> pushed (ev_id x) ?g1),
         gs_all_members := update_all_members act (gs_all_members s)\<rparr>)"
    by (subst process_plain [OF ax pk g2]) (use i1(1) in \<open>simp add: finish_stage_ok s2\<close>)
  have "moderation_stage ops c now e s = Go [] [] s"
    using mod by (simp add: moderation_stage_def prepare_moderation_action_def moderation_set)
  then show ?thesis
    using gid own(1) sv inner index_ok_pushed [OF i1(2), of "ev_id x"]
    by (simp add: process_event_stages reaction_stage_def get_group_from_event_def
        append_unique_def Let_def finish_stage_ok)
qed

lemma prepare_cong:
  assumes "ev_kind x = ev_kind y" "ev_tags x = ev_tags y" "ev_created_at x = ev_created_at y"
    and "ev_kind y \<in> {kPutUser, kRemoveUser}"
  shows "prepare_moderation_action valid x = prepare_moderation_action valid y"
  unfolding prepare_moderation_action_def prepare_put_user_def prepare_remove_user_def assms(1-3)
  using assms(4) by auto

definition invite_code :: "event \<Rightarrow> string" where
  "invite_code e = (case tags_find (ev_tags e) ''code'' of None \<Rightarrow> [] | Some t \<Rightarrow> t ! 1)"

lemma prepare_add_user:
  "valid (ev_pubkey e) \<Longrightarrow> prepare_moderation_action valid (add_user_event now e gid) =
     Inr (PutUser [(ev_pubkey e, [])] (invite_code e) now)"
  by (simp add: prepare_moderation_action_def prepare_put_user_def add_user_event_def invite_code_def)

lemma prepare_remove_user_event:
  "valid (ev_pubkey e) \<Longrightarrow> prepare_moderation_action valid (remove_user_event now e gid) =
     Inr (RemoveUser [ev_pubkey e] now)"
  by (simp add: prepare_moderation_action_def prepare_remove_user_def remove_user_event_def)

lemma answer_group_id [simp]:
  "get_group_id_from_event (add_user_event now e gid) = Some gid"
  "get_group_id_from_event (remove_user_event now e gid) = Some gid"
  by (simp_all add: get_group_id_from_event_def add_user_event_def remove_user_event_def metadata_set)

text \<open>
  C5. A join request that got through makes its author a member, without roles: the relay's own
  put-user event is signed, stored and broadcast, one use of the invite code is taken, the member
  count goes up by one, and no other membership and no other group changes.
\<close>

theorem join_makes_member:
  assumes k: "ev_kind e = kJoinRequest" and g: "group_of s e gid g" and idx: "index_ok g"
    and v: "cr_valid c (ev_pubkey e)"
    and sv: "sign_and_save ops c (add_user_event now e gid) s = (Some x, s2)"
  shows "\<exists>g' s'. process_event ops c now e s = (Returned [gid], [x], s') \<and>
    gs_groups s' = (gs_groups s)(gid \<mapsto> g') \<and> gs_db s' = gs_db s2 \<and>
    g_members g' = (g_members g)(ev_pubkey e \<mapsto> []) \<and>
    g_invite_codes g' = consume_invite (invite_code e) (g_invite_codes g) \<and>
    gs_all_members s' = count_up (ev_pubkey e) (gs_all_members s)"
proof -
  let ?act = "PutUser [(ev_pubkey e, [])] (invite_code e) now"
  have gid: "g_id g = gid" using g by (simp add: group_of_def)
  have own: "answer_event now e g = Some (add_user_event now e gid)"
    using k gid by (simp add: answer_event_def)
  have act: "prepare_moderation_action (cr_valid c) (fst (event_sign c sk (add_user_event now e gid)))
      = Inr ?act" for sk
    using prepare_add_user [where valid = "cr_valid c", OF v]
    by (subst prepare_cong [where y = "add_user_event now e gid"]) (simp_all add: add_user_event_def)
  have "ev_kind e \<notin> set moderation_event_kinds" using k by (simp add: moderation_set)
  from process_answer [OF g this own _ sv act idx] show ?thesis
    by (intro exI [of _ "pushed (ev_id e) (pushed (ev_id x) (apply_action ?act g))"])
      (simp add: put_target_simps)
qed

text \<open>
  A member who leaves is removed: the relay stores and broadcasts its own remove-user event,
  marked as self-removal, and nobody else's membership changes.
\<close>

theorem leave_removes_member:
  assumes k: "ev_kind e = kLeaveRequest" and g: "group_of s e gid g" and idx: "index_ok g"
    and m: "is_member g (ev_pubkey e)" and v: "cr_valid c (ev_pubkey e)"
    and sv: "sign_and_save ops c (remove_user_event now e gid) s = (Some x, s2)"
  shows "\<exists>g' s'. process_event ops c now e s = (Returned [gid], [x], s') \<and>
    gs_groups s' = (gs_groups s)(gid \<mapsto> g') \<and> gs_db s' = gs_db s2 \<and>
    g_members g' = (g_members g)(ev_pubkey e := None) \<and> tags_has (ev_tags x) ''self-removal'' \<and>
    gs_all_members s' = count_down (ev_pubkey e) (gs_all_members s)"
proof -
  let ?act = "RemoveUser [ev_pubkey e] now"
  have gid: "g_id g = gid" using g by (simp add: group_of_def)
  have own: "answer_event now e g = Some (remove_user_event now e gid)"
    using k gid m by (simp add: answer_event_def)
  have act: "prepare_moderation_action (cr_valid c) (fst (event_sign c sk (remove_user_event now e gid)))
      = Inr ?act" for sk
    using prepare_remove_user_event [where valid = "cr_valid c", OF v]
    by (subst prepare_cong [where y = "remove_user_event now e gid"]) (simp_all add: remove_user_event_def)
  have "ev_kind e \<notin> set moderation_event_kinds" using k by (simp add: moderation_set)
  note p = process_answer [OF g this own _ sv act idx]
  have "ev_tags x = ev_tags (remove_user_event now e gid)"
    using sign_and_save_Some [OF sv] event_sign_keeps(2) by (metis fst_conv)
  then have "tags_has (ev_tags x) ''self-removal''"
    by (simp add: remove_user_event_def tags_has_def)
  with p show ?thesis
    by (intro exI [of _ "pushed (ev_id e) (pushed (ev_id x) (apply_action ?act g))"])
      (simp add: remove_target_simps)
qed

text \<open>The witnesses: in the example group, 3 joins with the invite code and 2 leaves.\<close>

definition ex_join :: event where
  "ex_join = ex_event 3 kJoinRequest [[''h'', ''g''], [''code'', ''c'']]"

definition ex_leave :: event where
  "ex_leave = ex_event 2 kLeaveRequest [[''h'', ''g'']]"

lemma ex_group_of:
  "group_of ex_groups ex_join ''g'' ex_group" "group_of ex_groups ex_leave ''g'' ex_group"
  "index_ok ex_group"
  by (simp_all add: group_of_def ex_join_def ex_leave_def get_group_id_from_event_def metadata_set
      index_ok_def)

lemma ex_sign_and_save:
  "sign_and_save slice_ops ex_crypto e ex_groups =
     (let x = fst (event_sign ex_crypto 7 e) in (Some x, ex_groups\<lparr>gs_db := [x]\<rparr>))"
  by (simp add: sign_and_save_def event_sign_def Let_def slice_ops_def slice_save_def bsearch.simps)

theorem join_makes_member_witness:
  "\<exists>g' s'. snd (snd (process_event slice_ops ex_crypto 1000 ex_join ex_groups)) = s' \<and>
     gs_groups s' ''g'' = Some g' \<and> is_member g' 3 \<and> g_invite_codes g' = []"
proof -
  have k: "ev_kind ex_join = kJoinRequest" "ev_pubkey ex_join = 3" "invite_code ex_join = ''c''"
    by (simp_all add: ex_join_def invite_code_def)
  show ?thesis
    using join_makes_member [OF k(1) ex_group_of(1,3) _
        ex_sign_and_save [of "add_user_event 1000 ex_join ''g''", unfolded Let_def]] k
    by (auto simp: is_member_def consume_invite_def slice_index_def)
qed

theorem leave_removes_member_witness:
  "\<exists>g' s'. snd (snd (process_event slice_ops ex_crypto 1000 ex_leave ex_groups)) = s' \<and>
     gs_groups s' ''g'' = Some g' \<and> \<not> is_member g' 2"
proof -
  have k: "ev_kind ex_leave = kLeaveRequest" "ev_pubkey ex_leave = 2"
    by (simp_all add: ex_leave_def)
  show ?thesis
    using leave_removes_member [OF k(1) ex_group_of(2,3) _ _
        ex_sign_and_save [of "remove_user_event 1000 ex_leave ''g''", unfolded Let_def]] k
    by (auto simp: is_member_def)
qed

subsection \<open>Creating a group\<close>

definition declared_parent :: "event \<Rightarrow> string" where
  "declared_parent e = (case get_parent_from_event e of None \<Rightarrow> [] | Some p \<Rightarrow> p)"

definition fresh_group :: "string \<Rightarrow> event \<Rightarrow> group \<Rightarrow> bool" where
  "fresh_group gid e g \<longleftrightarrow>
     g_id g = gid \<and> g_members g = Map.empty \<and> gr_last50index g = 0 \<and>
     g_roles g = g_roles (new_group [] gid) \<and> gr_parent g = declared_parent e"

lemma created_group_simps:
  "gr_parent (created_group s gid e) = declared_parent e"
  "g_roles (created_group s gid e) = g_roles (new_group [] gid)"
  "gr_children (created_group s gid e) = []"
  by (simp_all add: created_group_def declared_parent_def new_group_def Let_def split: option.splits)

lemma fresh_created: "fresh_group gid e (created_group s gid e)"
  by (simp add: fresh_group_def created_group_def declared_parent_def new_group_def Let_def
      split: option.splits)

lemma fresh_children: "fresh_group gid e g \<Longrightarrow> fresh_group gid e (bump_metadata w (g\<lparr>gr_children := cs\<rparr>))"
  by (simp add: fresh_group_def bump_metadata_def)

lemma add_parent_child_other:
  "q \<noteq> p \<Longrightarrow> fst (add_parent_child p c w gs) q = gs q"
  by (simp add: add_parent_child_def split: option.splits)

lemma add_parent_child_parent:
  "gs p = Some g \<Longrightarrow> \<exists>g'. fst (add_parent_child p c w gs) p = Some g' \<and> c \<in> set (gr_children g') \<and>
     (g' = g \<or> (\<exists>cs. g' = bump_metadata w (g\<lparr>gr_children := cs\<rparr>)))"
  by (auto simp: add_parent_child_def bump_metadata_def)

lemma create_group_result:
  assumes c: "create_group gid e s = (aff, s1)"
  shows "\<exists>g1. gs_groups s1 gid = Some g1 \<and> fresh_group gid e g1"
    and "gs_deleted s1 = (gs_deleted s)(gid := None) \<and> gs_db s1 = gs_db s \<and>
         gs_secret_key s1 = gs_secret_key s \<and> gid \<in> set aff"
    and "p = declared_parent e \<Longrightarrow> p \<noteq> [] \<Longrightarrow> p \<noteq> gid \<Longrightarrow> gs_groups s p = Some pg \<Longrightarrow>
         \<exists>pg'. gs_groups s1 p = Some pg' \<and> gid \<in> set (gr_children pg')"
    and "q \<noteq> gid \<Longrightarrow> q \<noteq> declared_parent e \<Longrightarrow> gs_groups s1 q = gs_groups s q"
proof -
  let ?g = "created_group s gid e"
  let ?gs1 = "(gs_groups s)(gid \<mapsto> ?g)"
  let ?add = "add_parent_child (declared_parent e) gid (ev_created_at e) ?gs1"
  have gs: "gs_groups s1 = (if declared_parent e \<noteq> [] then fst ?add else ?gs1)"
    and rest: "gs_deleted s1 = (gs_deleted s)(gid := None)" "gs_db s1 = gs_db s"
      "gs_secret_key s1 = gs_secret_key s" "gid \<in> set aff"
    using c by (auto simp: create_group_def Let_def created_group_simps split: prod.splits if_splits)
  then show "gs_deleted s1 = (gs_deleted s)(gid := None) \<and> gs_db s1 = gs_db s \<and>
      gs_secret_key s1 = gs_secret_key s \<and> gid \<in> set aff" by blast
  show "\<exists>g1. gs_groups s1 gid = Some g1 \<and> fresh_group gid e g1"
  proof (cases "declared_parent e = gid")
    case True
    from add_parent_child_parent [of ?gs1 gid ?g gid "ev_created_at e"] True show ?thesis
      by (auto simp: gs intro: fresh_created fresh_children)
  next
    case False
    then have "fst ?add gid = Some ?g" by (simp add: add_parent_child_other)
    then show ?thesis by (auto simp: gs intro: fresh_created)
  qed
  show "p = declared_parent e \<Longrightarrow> p \<noteq> [] \<Longrightarrow> p \<noteq> gid \<Longrightarrow> gs_groups s p = Some pg \<Longrightarrow>
         \<exists>pg'. gs_groups s1 p = Some pg' \<and> gid \<in> set (gr_children pg')"
    using add_parent_child_parent [of ?gs1 p pg gid "ev_created_at e"] by (auto simp: gs)
  show "q \<noteq> gid \<Longrightarrow> q \<noteq> declared_parent e \<Longrightarrow> gs_groups s1 q = gs_groups s q"
    by (simp add: gs add_parent_child_other)
qed

lemma prepare_add_creator:
  "valid (ev_pubkey e) \<Longrightarrow> prepare_moderation_action valid (add_creator_event e gid (created_group s gid e)) =
     Inr (PutUser [(ev_pubkey e, [primaryRoleName])] [] (ev_created_at e))"
  by (simp add: prepare_moderation_action_def prepare_put_user_def add_creator_event_def
      created_group_simps new_group_def)

lemma build_primary:
  "build_roles (g_roles (new_group [] gid)) [] [primaryRoleName] =
     [\<lparr>role_name = primaryRoleName, role_description = []\<rparr>]"
  by (simp add: new_group_def get_role_by_name_def)

text \<open>
  A group creation leaves a group under the declared id whose one member is the creator, as
  admin; it is no longer listed as deleted, a declared parent that exists lists it as a child, and
  no other group changes. The relay's put-user event for the creator is stored and broadcast.
\<close>

theorem creation_makes_admin:
  assumes k: "ev_kind e = kCreateGroup" and gid: "get_group_id_from_event e = Some gid"
    and v: "cr_valid c (ev_pubkey e)"
    and sv: "sign_and_save ops c (add_creator_event e gid (created_group s gid e))
               (snd (create_group gid e s)) = (Some x, s2)"
  shows "\<exists>aff g' s'. process_event ops c now e s = (Returned aff, [x], s') \<and> gid \<in> set aff \<and>
    gs_groups s' gid = Some g' \<and> gr_parent g' = declared_parent e \<and>
    g_members g' = [ev_pubkey e \<mapsto> [\<lparr>role_name = primaryRoleName, role_description = []\<rparr>]] \<and>
    gs_deleted s' = (gs_deleted s)(gid := None) \<and> gs_db s' = gs_db s2 \<and>
    (\<forall>p pg. p = declared_parent e \<longrightarrow> p \<noteq> [] \<longrightarrow> p \<noteq> gid \<longrightarrow> gs_groups s p = Some pg \<longrightarrow>
       (\<exists>pg'. gs_groups s' p = Some pg' \<and> gid \<in> set (gr_children pg'))) \<and>
    (\<forall>q. q \<noteq> gid \<longrightarrow> q \<noteq> declared_parent e \<longrightarrow> gs_groups s' q = gs_groups s q)"
proof -
  obtain aff s1 where c1: "create_group gid e s = (aff, s1)" by fastforce
  note res = create_group_result [OF c1]
  obtain g1 where g1: "gs_groups s1 gid = Some g1" "fresh_group gid e g1" using res(1) by blast
  let ?own = "add_creator_event e gid (created_group s gid e)"
  have sv1: "sign_and_save ops c ?own s1 = (Some x, s2)" using sv c1 by simp
  obtain db where x: "event_sign c (gs_secret_key s1) ?own = (x, True)" and s2: "s2 = s1\<lparr>gs_db := db\<rparr>"
    using sign_and_save_Some [OF sv1] by blast
  have xk: "ev_kind x = ev_kind ?own" "ev_tags x = ev_tags ?own" "ev_created_at x = ev_created_at ?own"
    using x event_sign_keeps [of c "gs_secret_key s1" ?own] by simp_all
  let ?act = "PutUser [(ev_pubkey e, [primaryRoleName])] [] (ev_created_at e)"
  have ax: "prepare_moderation_action (cr_valid c) x = Inr ?act"
    using prepare_add_creator [where valid = "cr_valid c", OF v] prepare_cong [OF xk]
    by (simp add: add_creator_event_def)
  have "get_group_id_from_event ?own = Some gid"
    by (simp add: get_group_id_from_event_def add_creator_event_def metadata_set)
  then have g2: "group_of s2 x gid g1"
    using g1 get_group_id_cong [OF xk(1,2)] by (simp add: group_of_def s2 fresh_group_def)
  have pk: "plain_kind (ev_kind x)" using xk by (simp add: plain_kind_def add_creator_event_def)
  let ?g2 = "pushed (ev_id x) (apply_action ?act g1)"
  let ?s3 = "s2\<lparr>gs_groups := (gs_groups s1)(gid \<mapsto> ?g2),
                gs_all_members := update_all_members ?act (gs_all_members s1)\<rparr>"
  have inner: "process_event ops c now x s2 = (Returned [gid], [], ?s3)"
    by (subst process_plain [OF ax pk g2])
      (use g1 in \<open>simp add: finish_stage_ok s2 fresh_group_def\<close>)
  let ?cr = "CreateGroup (ev_pubkey e) (ev_created_at e)"
  let ?g3 = "apply_action ?cr ?g2"
  let ?s4 = "?s3\<lparr>gs_groups := (gs_groups s1)(gid \<mapsto> ?g3)\<rparr>"
  have stage: "moderation_stage ops c now e s = Go aff [x] ?s4"
    using k gid c1 sv1 inner
    by (simp add: moderation_stage_def prepare_moderation_action_def apply_stage_def Let_def
        update_group_def)
  have idx: "0 \<le> sint (gr_last50index ?g3)" "g_id ?g3 = gid"
    using g1 by (simp_all add: pushed_def fresh_group_def put_target_simps)
  let ?s5 = "?s4\<lparr>gs_groups := (gs_groups s1)(gid \<mapsto> pushed (ev_id e) ?g3)\<rparr>"
  have "process_event ops c now e s = (Returned aff, [x], ?s5)"
    using k gid stage idx res(2)
    by (simp add: process_event_stages reaction_stage_def answer_event_def get_group_from_event_def
        append_unique_def Let_def finish_stage_ok)
  moreover have "g_members (pushed (ev_id e) ?g3) =
      [ev_pubkey e \<mapsto> [\<lparr>role_name = primaryRoleName, role_description = []\<rparr>]]"
    using g1 by (simp add: put_target_simps fresh_group_def build_primary del: build_roles.simps)
  ultimately show ?thesis
    using res g1(2)
    by (intro exI [of _ aff] exI [of _ "pushed (ev_id e) ?g3"] exI [of _ ?s5])
      (auto simp: s2 fresh_group_def)
qed

lemma ex_sign_and_save_any:
  "gs_db s = [] \<Longrightarrow> gs_secret_key s = 7 \<Longrightarrow>
   sign_and_save slice_ops ex_crypto e s =
     (Some (fst (event_sign ex_crypto 7 e)), s\<lparr>gs_db := [fst (event_sign ex_crypto 7 e)]\<rparr>)"
  by (simp add: sign_and_save_def event_sign_def Let_def slice_ops_def slice_save_def bsearch.simps)

lemma ex_create_simps:
  "ev_kind ex_create = kCreateGroup" "get_group_id_from_event ex_create = Some ''new''"
  "ev_pubkey ex_create = 3" "declared_parent ex_create = []" "get_parent_from_event ex_create = None"
  by (simp_all add: ex_create_def get_group_id_from_event_def metadata_set declared_parent_def
      get_parent_from_event_def)

theorem creation_makes_admin_witness:
  "\<exists>g' s'. snd (snd (process_event slice_ops ex_crypto 1000 ex_create ex_groups)) = s' \<and>
     gs_groups s' ''new'' = Some g' \<and> has_primary_role (member_roles g' 3)"
proof -
  have s1: "gs_db (snd (create_group ''new'' ex_create ex_groups)) = []"
      "gs_secret_key (snd (create_group ''new'' ex_create ex_groups)) = 7"
    by (simp_all add: create_group_def created_group_def ex_create_simps new_group_def Let_def)
  show ?thesis
    using creation_makes_admin [OF ex_create_simps(1,2) _ ex_sign_and_save_any [OF s1], of 1000]
    by (auto simp: ex_create_simps member_roles_def has_primary_role_def)
qed

subsection \<open>Deleting a group\<close>

lemma remove_parent_child_other:
  "q \<noteq> p \<Longrightarrow> fst (remove_parent_child p c w gs) q = gs q"
  by (simp add: remove_parent_child_def split: option.splits)

lemma remove_parent_child_parent:
  assumes "gs p = Some g" "distinct (gr_children g)"
  shows "\<exists>g'. fst (remove_parent_child p c w gs) p = Some g' \<and> set (gr_children g') = set (gr_children g) - {c}"
proof (cases "slice_index (gr_children g) c")
  case None
  then have "c \<notin> set (gr_children g)" by simp
  with assms None show ?thesis by (simp add: remove_parent_child_def del: slice_index_None)
next
  case (Some i)
  with assms show ?thesis
    by (simp add: remove_parent_child_def bump_metadata_def slice_delete_first [OF Some])
qed

lemma remove_parent_child_dom: "dom (fst (remove_parent_child p c w gs)) = dom gs"
  by (auto simp: remove_parent_child_def split: option.splits if_splits)

text \<open>The effect of a deletion, step by step.\<close>

lemma processed_deletion:
  assumes ok: "state_ok s" and k: "ev_kind e = kDeleteGroup" and g: "group_of s e gid g"
  shows "\<exists>aff s'. process_event ops c now e s = (Returned aff, [], s') \<and>
    gs_groups s' gid = None \<and> gs_db s' = gs_db s \<and>
    gs_deleted s' = (gs_deleted s)(gid \<mapsto>
      \<lparr>dg_id = gid, dg_at = ev_created_at e, dg_by = ev_pubkey e\<rparr>) \<and>
    (\<forall>pg. gr_parent g \<noteq> [] \<longrightarrow> gr_parent g \<noteq> gid \<longrightarrow> gs_groups s (gr_parent g) = Some pg \<longrightarrow>
       (\<exists>pg'. gs_groups s' (gr_parent g) = Some pg' \<and>
          set (gr_children pg') = set (gr_children pg) - {gid})) \<and>
    (\<forall>q. q \<noteq> gid \<longrightarrow> q \<noteq> gr_parent g \<longrightarrow> gs_groups s' q = gs_groups s q)"
proof -
  have gid: "gs_groups s gid = Some g" "g_id g = gid" using g by (auto simp: group_of_def)
  let ?act = "DeleteGroup (ev_created_at e)"
  let ?gs1 = "(gs_groups s)(gid \<mapsto> apply_action ?act g)"
  let ?gs2 = "if gr_parent g \<noteq> []
     then fst (remove_parent_child (gr_parent g) gid (ev_created_at e) ?gs1) else ?gs1"
  let ?s2 = "s\<lparr>gs_groups := ?gs1\<rparr>"
  obtain aff s' where d: "drop_group gid g e [] ?s2 = (aff, s')" by fastforce
  then have s': "gs_groups s' = ?gs2(gid := None)" "gs_db s' = gs_db s"
      "gs_deleted s' = (gs_deleted s)(gid \<mapsto> \<lparr>dg_id = gid, dg_at = ev_created_at e, dg_by = ev_pubkey e\<rparr>)"
    by (auto simp: drop_group_def split: prod.splits if_splits)
  have "moderation_stage ops c now e s = Stop (Returned aff) [] s'"
    using k gid group_of_get [OF g] d
    by (simp add: moderation_stage_def prepare_delete_group apply_stage_def update_group_def Let_def)
  then have p: "process_event ops c now e s = (Returned aff, [], s')"
    by (simp add: process_event_stages)
  have children: "\<exists>pg'. gs_groups s' (gr_parent g) = Some pg' \<and>
        set (gr_children pg') = set (gr_children pg) - {gid}"
    if "gr_parent g \<noteq> []" "gr_parent g \<noteq> gid" "gs_groups s (gr_parent g) = Some pg" for pg
  proof -
    have "distinct (gr_children pg)"
      using ok that(3) by (auto simp: state_ok_def group_ok_def dest: groups_okD)
    with remove_parent_child_parent [of ?gs1 "gr_parent g" pg gid "ev_created_at e"] that
    show ?thesis by (auto simp: s'(1))
  qed
  have "gs_groups s' q = gs_groups s q" if "q \<noteq> gid" "q \<noteq> gr_parent g" for q
    using that by (simp add: s'(1) remove_parent_child_other)
  with p s' children show ?thesis by (intro exI [of _ aff] exI [of _ s']) auto
qed

text \<open>
  C6. Deleting a group takes it off the active groups and records when and by whom it was
  deleted; its parent stops listing it, every other group is untouched, and no event is removed
  from the store.
\<close>

theorem deletion_removes_group:
  assumes ok: "state_ok s" and k: "ev_kind e = kDeleteGroup" and g: "group_of s e gid g"
  shows "\<exists>aff s'. process_event ops c now e s = (Returned aff, [], s') \<and>
    gs_groups s' gid = None \<and> gs_db s' = gs_db s \<and>
    gs_deleted s' = (gs_deleted s)(gid \<mapsto>
      \<lparr>dg_id = gid, dg_at = ev_created_at e, dg_by = ev_pubkey e\<rparr>) \<and>
    (\<forall>pg. gr_parent g \<noteq> [] \<longrightarrow> gr_parent g \<noteq> gid \<longrightarrow> gs_groups s (gr_parent g) = Some pg \<longrightarrow>
       (\<exists>pg'. gs_groups s' (gr_parent g) = Some pg' \<and>
          set (gr_children pg') = set (gr_children pg) - {gid})) \<and>
    (\<forall>q. q \<noteq> gid \<longrightarrow> q \<noteq> gr_parent g \<longrightarrow> gs_groups s' q = gs_groups s q)"
  using assms by (rule processed_deletion)

theorem deletion_removes_group_witness:
  "gs_groups (snd (snd (process_event slice_ops ex_crypto 1000
     (ex_event 1 kDeleteGroup [[''h'', ''g'']]) ex_groups))) ''g'' = None"
proof -
  have "group_of ex_groups (ex_event 1 kDeleteGroup [[''h'', ''g'']]) ''g'' ex_group"
    by (simp add: group_of_def get_group_id_from_event_def metadata_set)
  from deletion_removes_group [OF ex_groups_ok _ this, of slice_ops ex_crypto 1000] show ?thesis
    by auto
qed

subsection \<open>Deleting events\<close>

text \<open>The ring of deleted ids: 128 positions, a 32 bit counter that wraps.\<close>

lemma unat_Suc_mod: "unat (w + 1) mod 128 = (unat w + 1) mod 128" for w :: "32 word"
proof -
  have "unat (w + 1) = (unat w + 1) mod 2 ^ 32"
    by (simp add: unat_word_ariths)
  also have "\<dots> mod 128 = (unat w + 1) mod 128"
    by (rule mod_mod_cancel) simp
  finally show ?thesis .
qed

definition remember_all :: "eid list \<Rightarrow> 'd groups_state \<Rightarrow> 'd groups_state" where
  "remember_all ids s = fold remember_deleted ids s"

lemma remember_deleted_simps [simp]:
  "gs_db (remember_deleted i s) = gs_db s" "gs_groups (remember_deleted i s) = gs_groups s"
  "length (gs_deleted_cache (remember_deleted i s)) = length (gs_deleted_cache s)"
  "gs_all_members (remember_deleted i s) = gs_all_members s"
  by (simp_all add: remember_deleted_def Let_def)

lemma remember_all_simps [simp]:
  "gs_db (remember_all ids s) = gs_db s" "gs_groups (remember_all ids s) = gs_groups s"
  "length (gs_deleted_cache (remember_all ids s)) = length (gs_deleted_cache s)"
  by (induction ids arbitrary: s) (simp_all add: remember_all_def)

lemma remember_all_ring:
  assumes "length (gs_deleted_cache s) = 128" "length ids \<le> 128"
  shows "unat (gs_deleted_index (remember_all ids s)) mod 128 =
           (unat (gs_deleted_index s) + length ids) mod 128 \<and>
         (\<forall>k < length ids. gs_deleted_cache (remember_all ids s) !
            ((unat (gs_deleted_index s) + Suc k) mod 128) = ids ! k)"
  using assms(2)
proof (induction ids rule: rev_induct)
  case Nil
  then show ?case by (simp add: remember_all_def)
next
  case (snoc i ids)
  let ?s = "remember_all ids s" and ?b = "unat (gs_deleted_index s)"
  have IH: "unat (gs_deleted_index ?s) mod 128 = (?b + length ids) mod 128"
    "\<And>k. k < length ids \<Longrightarrow> gs_deleted_cache ?s ! ((?b + Suc k) mod 128) = ids ! k"
    using snoc by auto
  have step: "remember_all (ids @ [i]) s = remember_deleted i ?s"
    by (simp add: remember_all_def)
  have pos: "unat (gs_deleted_index ?s + 1) mod 128 = (?b + Suc (length ids)) mod 128"
    using IH(1) unat_Suc_mod [of "gs_deleted_index ?s"] by (metis add_Suc_right mod_Suc_eq Suc_eq_plus1)
  have len: "length (gs_deleted_cache ?s) = 128" using assms(1) by simp
  have "gs_deleted_cache (remember_all (ids @ [i]) s) ! ((?b + Suc k) mod 128) = (ids @ [i]) ! k"
    if k: "k < length (ids @ [i])" for k
  proof (cases "k = length ids")
    case True
    then show ?thesis using len by (simp add: step remember_deleted_def Let_def pos)
  next
    case False
    with k have k: "k < length ids" by simp
    have "(?b + Suc k) mod 128 \<noteq> (?b + Suc (length ids)) mod 128"
      using k snoc.prems by (auto simp: mod_eq_iff_dvd_symdiff_nat nat_diff_split dest!: dvd_imp_le)
    with IH(2) [OF k] k show ?thesis
      by (simp add: step remember_deleted_def Let_def pos nth_append)
  qed
  with pos show ?case by (simp add: step remember_deleted_def Let_def)
qed

lemma remember_all_mem:
  assumes "length (gs_deleted_cache s) = 128" "length ids \<le> 128"
  shows "set ids \<subseteq> set (gs_deleted_cache (remember_all ids s))"
proof
  fix i assume "i \<in> set ids"
  then obtain k where k: "k < length ids" "ids ! k = i" by (auto simp: in_set_conv_nth)
  have "gs_deleted_cache (remember_all ids s) ! ((unat (gs_deleted_index s) + Suc k) mod 128) = i"
    using remember_all_ring [OF assms] k by blast
  moreover have "(unat (gs_deleted_index s) + Suc k) mod 128
      < length (gs_deleted_cache (remember_all ids s))"
    using assms(1) by simp
  ultimately show "i \<in> set (gs_deleted_cache (remember_all ids s))" by (metis nth_mem)
qed

lemma remember_deleted_db: "remember_deleted i (s\<lparr>gs_db := db\<rparr>) = (remember_deleted i s)\<lparr>gs_db := db\<rparr>"
  by (simp add: remember_deleted_def Let_def)

lemma remember_all_db: "remember_all ids (s\<lparr>gs_db := db\<rparr>) = (remember_all ids s)\<lparr>gs_db := db\<rparr>"
  by (induction ids arbitrary: s) (simp_all add: remember_all_def remember_deleted_db)

lemma slice_delete_targets:
  assumes "collect_ids ts = Some ids" "slice_inv (gs_db s)"
  shows "\<exists>db. delete_targets slice_ops ts s = (remember_all ids s)\<lparr>gs_db := db\<rparr> \<and> slice_inv db \<and>
    set db = {x \<in> set (gs_db s). ev_id x \<notin> set ids}"
  using assms
proof (induction ts arbitrary: ids s)
  case Nil
  then show ?case by (intro exI [of _ "gs_db s"]) (simp add: remember_all_def)
next
  case (Cons t ts)
  obtain i ids' where i: "id_from_hex (t ! 1) = Some i" "collect_ids ts = Some ids'" "ids = i # ids'"
    using Cons.prems(1) by (auto split: option.splits)
  obtain db where d: "so_delete slice_ops i (gs_db s) = (None, db)"
    using slice_delete_event_None [of i "gs_db s"] by (auto simp: slice_ops_def prod_eq_iff)
  from slicestore.delete_ok [OF Cons.prems(2) this]
  have db: "slice_inv db" "set db = {x \<in> set (gs_db s). ev_id x \<noteq> i}" by auto
  let ?s1 = "remember_deleted i (s\<lparr>gs_db := db\<rparr>)"
  obtain db' where "delete_targets slice_ops ts ?s1 = (remember_all ids' ?s1)\<lparr>gs_db := db'\<rparr>"
      "slice_inv db'" "set db' = {x \<in> set db. ev_id x \<notin> set ids'}"
    using Cons.IH [OF i(2), of ?s1] db(1) by auto
  moreover have "delete_targets slice_ops (t # ts) s = delete_targets slice_ops ts ?s1"
    using i(1) d by simp
  moreover have "(remember_all ids' ?s1)\<lparr>gs_db := db'\<rparr> = (remember_all ids s)\<lparr>gs_db := db'\<rparr>"
    unfolding i(3) remember_deleted_db remember_all_db by (simp add: remember_all_def)
  moreover have "{x \<in> set db. ev_id x \<notin> set ids'} = {x \<in> set (gs_db s). ev_id x \<notin> set ids}"
    using db(2) i(3) by auto
  ultimately show ?case by metis
qed

lemma prepare_delete_ids:
  "ev_kind e = kDeleteEvent \<Longrightarrow> prepare_moderation_action valid e = Inr act \<Longrightarrow>
   \<exists>ids. act = DeleteEvent ids \<and> collect_ids (tags_find_all (ev_tags e) ''e'') = Some ids"
  by (auto simp: prepare_moderation_action_def prepare_delete_event_def split: option.splits if_splits)


definition ex_delete :: event where
  "ex_delete = ex_event 1 kDeleteEvent [[''h'', ''g''], [''e'', hex_of 5]]"

definition ex_stored :: "slice_store groups_state" where
  "ex_stored = ex_groups\<lparr>gs_db := [zero_event\<lparr>ev_id := 5, ev_created_at := 900\<rparr>]\<rparr>"


text \<open>
  What was deleted cannot be sent again: once an id is remembered as deleted, \<open>rejectEvent\<close>
  refuses every group event with that id from an outsider, joining, creating and the owner's
  group deletion apart.
\<close>

theorem deleted_stays_deleted:
  assumes "ev_id e \<in> set (gs_deleted_cache (rs_groups s))" "outsider out e s" "\<not> owner_deletes e s"
    and "ev_kind e \<notin> {kGiftWrap, kProfileMetadata, kCreateGroup, kJoinRequest}"
  shows "fst (reject_event ops out now cx e s) \<noteq> None"
proof
  obtain r e' s' where r: "reject_event ops out now cx e s = (r, e', s')" by (metis prod_cases3)
  assume "fst (reject_event ops out now cx e s) = None"
  with r have acc: "reject_event ops out now cx e s = (None, e', s')" by simp
  obtain gid where "reject_in_group ops out cx gid e s = (None, e', s')"
    using reject_event_in_group [OF acc assms(2)] assms(4) by blast
  then obtain g where "reject_write ops out g e s = (None, e', s')"
    using reject_in_group_write [of ops out cx gid e s e' s'] assms(3,4) by blast
  from reject_write_accepted [OF this] assms(1) show False by blast
qed

theorem deleted_stays_deleted_witness:
  "fst (reject_event slice_ops ex_outside 1000 ex_context ex_remove
     (ex_state\<lparr>rs_groups := ex_groups\<lparr>gs_deleted_cache := [77]\<rparr>\<rparr>)) \<noteq> None"
  by (rule deleted_stays_deleted) (simp_all add: ex_remove_def outsider_def owner_deletes_def)

subsection \<open>Panics\<close>

text \<open>
  Two things can panic: a moderation event for a group that does not exist (a nil \<open>*Group\<close>), and
  an index that has wrapped below 0.
\<close>

definition target_exists :: "'d groups_state \<Rightarrow> event \<Rightarrow> bool" where
  "target_exists s e \<longleftrightarrow>
     ev_kind e \<notin> set moderation_event_kinds \<or> ev_kind e = kCreateGroup \<or>
     get_group_from_event (gs_groups s) e \<noteq> None"

definition indexes_ok :: "'d groups_state \<Rightarrow> bool" where
  "indexes_ok s \<longleftrightarrow> (\<forall>gid g. gs_groups s gid = Some g \<longrightarrow> index_ok g)"

lemma unsupported_kind:
  "ev_kind e \<notin> set moderation_event_kinds \<Longrightarrow>
   prepare_moderation_action valid e = Inl (UnsupportedKind (ev_kind e))"
  by (simp add: prepare_moderation_action_def moderation_set)

lemma delete_targets_groups: "gs_groups (delete_targets ops ts s) = gs_groups s"
  by (induction ops ts s rule: delete_targets.induct) (auto split: option.splits prod.splits)

lemma sign_and_save_groups:
  "sign_and_save ops c e s = (r, s') \<Longrightarrow> gs_groups s' = gs_groups s"
  by (auto simp: sign_and_save_def split: prod.splits bool.splits option.splits)

text \<open>After the first half, the group of the event is still the one it was, and its index too.\<close>

lemma moderation_stage_moderates:
  assumes ok: "state_ok s" "indexes_ok s" and g: "group_of s e gid g"
    and k: "ev_kind e \<in> set moderation_event_kinds" "ev_kind e \<noteq> kCreateGroup"
  shows "(\<exists>aff s1. moderation_stage ops c now e s = Stop (Returned aff) [] s1) \<or>
         (\<exists>s1 g1. moderation_stage ops c now e s = Go [] [] s1 \<and> gs_groups s1 gid = Some g1 \<and>
            g_id g1 = gid \<and> index_ok g1)"
proof (cases "prepare_moderation_action (cr_valid c) e")
  case (Inl err)
  with g ok show ?thesis
    by (auto simp: moderation_stage_def group_of_def indexes_ok_def)
next
  case (Inr act)
  have gid: "gs_groups s gid = Some g" "g_id g = gid" using g by (auto simp: group_of_def)
  have i: "index_ok (apply_action act g)"
    using ok(2) gid(1) by (auto simp: indexes_ok_def index_ok_def)
  from Inr k(2) group_of_get [OF g] gid i show ?thesis
    by (auto simp: moderation_stage_def apply_stage_def Let_def update_group_def
        delete_targets_groups split: prod.splits)
qed

text \<open>An event the relay wrote returns, and leaves its group with a usable index.\<close>

lemma own_event_returns:
  assumes g: "group_of s x gid g" and k: "ev_kind x \<in> {kPutUser, kRemoveUser}" and i: "index_ok g"
  shows "\<exists>aff s3 g3. process_event ops c now x s = (Returned aff, [], s3) \<and>
    gs_groups s3 gid = Some g3 \<and> g_id g3 = gid \<and> 0 \<le> sint (gr_last50index g3)"
proof (cases "prepare_moderation_action (cr_valid c) x")
  case (Inl err)
  have gid: "gs_groups s gid = Some g" "g_id g = gid" using g by (auto simp: group_of_def)
  have "process_event ops c now x s = finish_stage x gid [gid] [] s"
    using k Inl gid group_of_get [OF g]
    by (auto simp: process_event_stages moderation_stage_def reaction_stage_def answer_event_def
        append_unique_def Let_def)
  with gid i index_ok_pushed [OF i] show ?thesis
    by (simp add: finish_stage_ok index_ok_def)
next
  case (Inr act)
  have gid: "gs_groups s gid = Some g" "g_id g = gid" using g by (auto simp: group_of_def)
  have pk: "plain_kind (ev_kind x)" using k by (auto simp: plain_kind_def)
  have i2: "index_ok (apply_action act g)" using i by (simp add: index_ok_def)
  then have i1: "0 \<le> sint (gr_last50index (apply_action act g))" by (simp add: index_ok_def)
  have "process_event ops c now x s = (Returned [gid], [],
      s\<lparr>gs_groups := (gs_groups s)(gid \<mapsto> pushed (ev_id x) (apply_action act g)),
        gs_all_members := update_all_members act (gs_all_members s)\<rparr>)"
    by (subst process_plain [OF Inr pk g]) (use i1 in \<open>simp add: finish_stage_ok\<close>)
  with gid index_ok_pushed [OF i2] show ?thesis by simp
qed

lemma finish_returns:
  "gs_groups s gid = Some g \<Longrightarrow> 0 \<le> sint (gr_last50index g) \<Longrightarrow>
   is_returned (fst (finish_stage e gid aff bs s))"
  by (simp add: finish_stage_ok)

lemma reaction_stage_returns:
  assumes g: "gs_groups s gid = Some g" "g_id g = gid" "index_ok g"
    and e: "get_group_id_from_event e = Some gid"
  shows "is_returned (fst (reaction_stage ops c now e aff bs s))"
proof -
  have get: "get_group_from_event (gs_groups s) e = Some g"
    using e g(1) by (simp add: get_group_from_event_def)
  have i0: "0 \<le> sint (gr_last50index g)" using g(3) by (simp add: index_ok_def)
  show ?thesis
  proof (cases "answer_event now e g")
    case None
    with get g i0 show ?thesis by (simp add: reaction_stage_def Let_def finish_returns)
  next
    case (Some own)
    have own: "get_group_id_from_event own = Some gid"
      using Some g(2) by (auto simp: answer_event_def split: if_splits)
    obtain r s2 where sv: "sign_and_save ops c own s = (r, s2)" by fastforce
    show ?thesis
    proof (cases r)
      case None
      with get Some sv show ?thesis by (simp add: reaction_stage_def Let_def)
    next
      case x: (Some x)
      obtain db where xs: "event_sign c (gs_secret_key s) own = (x, True)" "s2 = s\<lparr>gs_db := db\<rparr>"
        using sign_and_save_Some [OF sv [unfolded x]] by blast
      have xk: "ev_kind x = ev_kind own" "ev_tags x = ev_tags own"
        using xs event_sign_keeps [of c "gs_secret_key s" own] by simp_all
      have g2: "group_of s2 x gid g"
        using g own get_group_id_cong [OF xk] xs(2) by (simp add: group_of_def)
      have k: "ev_kind x \<in> {kPutUser, kRemoveUser}"
        using answer_event_kind [OF Some] xk(1) by simp
      obtain aff' s3 g3 where "process_event ops c now x s2 = (Returned aff', [], s3)"
          "gs_groups s3 gid = Some g3" "0 \<le> sint (gr_last50index g3)"
        using own_event_returns [OF g2 k g(3)] by blast
      with get g Some sv x show ?thesis
        by (simp add: reaction_stage_def Let_def finish_returns)
    qed
  qed
qed

text \<open>Group creation goes on to the second half with its new group, or stops on a failure.\<close>

lemma moderation_stage_creates:
  assumes k: "ev_kind e = kCreateGroup"
  shows "(\<exists>aff s1. moderation_stage ops c now e s = Stop (Returned aff) [] s1) \<or>
         (\<exists>aff bs s1 g1 gid. moderation_stage ops c now e s = Go aff bs s1 \<and>
            get_group_id_from_event e = Some gid \<and> gs_groups s1 gid = Some g1 \<and> g_id g1 = gid \<and>
            0 \<le> sint (gr_last50index g1))"
proof (cases "get_group_id_from_event e")
  case None
  with k show ?thesis by (simp add: moderation_stage_def prepare_moderation_action_def)
next
  case (Some gid)
  obtain aff s1 where c1: "create_group gid e s = (aff, s1)" by fastforce
  obtain g1 where g1: "gs_groups s1 gid = Some g1" "fresh_group gid e g1"
    using create_group_result(1) [OF c1] by blast
  let ?own = "add_creator_event e gid (created_group s gid e)"
  obtain r s2 where sv: "sign_and_save ops c ?own s1 = (r, s2)" by fastforce
  show ?thesis
  proof (cases r)
    case None
    with k Some c1 sv show ?thesis
      by (simp add: moderation_stage_def prepare_moderation_action_def)
  next
    case x: (Some x)
    obtain db where xs: "event_sign c (gs_secret_key s1) ?own = (x, True)" "s2 = s1\<lparr>gs_db := db\<rparr>"
      using sign_and_save_Some [OF sv [unfolded x]] by blast
    have xk: "ev_kind x = ev_kind ?own" "ev_tags x = ev_tags ?own"
      using xs event_sign_keeps [of c "gs_secret_key s1" ?own] by simp_all
    have "get_group_id_from_event ?own = Some gid"
      by (simp add: get_group_id_from_event_def add_creator_event_def metadata_set)
    then have g2: "group_of s2 x gid g1"
      using g1 get_group_id_cong [OF xk] xs(2) by (simp add: group_of_def fresh_group_def)
    have kx: "ev_kind x \<in> {kPutUser, kRemoveUser}" using xk(1) by (simp add: add_creator_event_def)
    have i: "index_ok g1" using g1(2) by (simp add: index_ok_def fresh_group_def)
    obtain aff' s3 g3 where p: "process_event ops c now x s2 = (Returned aff', [], s3)"
        "gs_groups s3 gid = Some g3" "g_id g3 = gid" "0 \<le> sint (gr_last50index g3)"
      using own_event_returns [OF g2 kx i] by blast
    with k Some c1 sv x show ?thesis
      by (simp add: moderation_stage_def prepare_moderation_action_def apply_stage_def Let_def
          update_group_def)
  qed
qed

lemma process_returns:
  assumes ok: "state_ok s" "indexes_ok s" and t: "target_exists s e"
  shows "is_returned (fst (process_event ops c now e s))"
proof (cases "ev_kind e \<in> set moderation_event_kinds")
  case False
  then have m: "moderation_stage ops c now e s = Go [] [] s"
    by (simp add: moderation_stage_def unsupported_kind)
  show ?thesis
  proof (cases "get_group_from_event (gs_groups s) e")
    case None
    with m show ?thesis by (simp add: process_event_stages reaction_stage_def)
  next
    case (Some g)
    then obtain gid where gid: "get_group_id_from_event e = Some gid" "gs_groups s gid = Some g"
      by (auto simp: get_group_from_event_def split: option.splits)
    then have "g_id g = gid" "index_ok g"
      using ok groups_okD by (auto simp: state_ok_def indexes_ok_def group_ok_def)
    with gid m show ?thesis by (simp add: process_event_stages reaction_stage_returns)
  qed
next
  case mod: True
  show ?thesis
  proof (cases "ev_kind e = kCreateGroup")
    case True
    with moderation_stage_creates [OF True, of ops c now s] show ?thesis
      by (auto simp: process_event_stages reaction_stage_def get_group_from_event_def
          answer_event_def Let_def intro: finish_returns)
  next
    case False
    with mod t obtain g where "get_group_from_event (gs_groups s) e = Some g"
      by (auto simp: target_exists_def)
    then obtain gid where gid: "get_group_id_from_event e = Some gid" "gs_groups s gid = Some g"
      by (auto simp: get_group_from_event_def split: option.splits)
    then have gof: "group_of s e gid g"
      using ok(1) groups_okD by (auto simp: state_ok_def group_ok_def group_of_def)
    from moderation_stage_moderates [OF ok gof mod False, of ops c now] gid show ?thesis
      by (auto simp: process_event_stages intro: reaction_stage_returns)
  qed
qed

text \<open>
  C20. \<open>ProcessEvent\<close> does not panic: in a well-formed state whose groups have taken fewer than
  \<open>2 ^ 31 - 1\<close> events, it returns for every event whose group exists when the event moderates one.
  Failures to sign or to store are returns, not panics.
\<close>

theorem process_event_returns:
  assumes "state_ok s" "indexes_ok s" "target_exists s e"
  shows "is_returned (fst (process_event ops c now e s))"
  using assms by (rule process_returns)

theorem process_event_returns_witness:
  "is_returned (fst (process_event slice_ops ex_crypto 1000 ex_remove ex_groups))"
proof (rule process_event_returns [OF ex_groups_ok])
  show "indexes_ok ex_groups" using ex_group_of(3) by (simp add: indexes_ok_def)
  show "target_exists ex_groups ex_remove"
    by (simp add: target_exists_def ex_remove_def get_group_from_event_def
        get_group_id_from_event_def metadata_set)
qed

text \<open>
  A moderation event for a group that does not exist panics (a nil group is dereferenced), with
  the state as it was.
\<close>

theorem missing_group_panics:
  assumes "prepare_moderation_action (cr_valid c) e = Inr act" "ev_kind e \<noteq> kCreateGroup"
    and "get_group_from_event (gs_groups s) e = None"
  shows "process_event ops c now e s = (Panicked, [], s)"
  using assms by (simp add: process_event_stages moderation_stage_def)

theorem missing_group_panics_witness:
  "process_event slice_ops ex_crypto 1000 (ex_event 7 kDeleteGroup [[''h'', ''none'']]) ex_groups
     = (Panicked, [], ex_groups)"
  by (rule missing_group_panics [of _ _ "DeleteGroup 1000"])
    (simp_all add: prepare_moderation_action_def get_group_from_event_def get_group_id_from_event_def
      metadata_set)

end
