(* ===== verification/Forest.thy ===== *)
theory Forest
  imports Process
begin

text \<open>
  The subgroup links over the whole handling of an event: what \<open>rejectEvent\<close> lets through and
  \<open>ProcessEvent\<close> applies keeps them a forest.
\<close>

subsection \<open>The parent links stay a forest\<close>

definition links_within :: "(string \<times> string) set \<Rightarrow> 'd groups_state \<Rightarrow> bool" where
  "links_within R s \<longleftrightarrow> parent_rel (gs_groups s) \<subseteq> R"

definition link_allowed :: "(string \<times> string) set \<Rightarrow> event \<Rightarrow> bool" where
  "link_allowed R e \<longleftrightarrow> declared_parent e = [] \<or>
     (\<forall>gid. get_group_id_from_event e = Some gid \<longrightarrow> (gid, declared_parent e) \<in> R)"

definition same_parents :: "groups \<Rightarrow> groups \<Rightarrow> bool" where
  "same_parents gs gs' \<longleftrightarrow> (\<forall>gid. map_option gr_parent (gs' gid) = map_option gr_parent (gs gid))"

lemma same_parents_rel: "same_parents gs gs' \<Longrightarrow> parent_rel gs' = parent_rel gs"
proof -
  assume s: "same_parents gs gs'"
  have *: "parent_rel gs = {(c, p). map_option gr_parent (gs c) = Some p \<and> p \<noteq> []}" for gs
    by (auto simp: parent_rel_def)
  show ?thesis unfolding * using s by (simp add: same_parents_def)
qed

lemma same_parents_add: "same_parents gs (fst (add_parent_child p c w gs))"
  by (auto simp: same_parents_def add_parent_child_def bump_metadata_def split: option.splits)

lemma same_parents_remove: "same_parents gs (fst (remove_parent_child p c w gs))"
  by (auto simp: same_parents_def remove_parent_child_def bump_metadata_def split: option.splits)

lemma same_parents_update:
  "(\<And>g. gr_parent (f g) = gr_parent g) \<Longrightarrow> same_parents (gs_groups s) (gs_groups (update_group gid f s))"
  by (auto simp: same_parents_def update_group_def map_option_case split: option.splits)

lemma parent_rel_add: "add_parent_child p c w gs = (gs', r) \<Longrightarrow> parent_rel gs' = parent_rel gs"
  by (metis fst_conv same_parents_add same_parents_rel)

lemma parent_rel_remove: "remove_parent_child p c w gs = (gs', r) \<Longrightarrow> parent_rel gs' = parent_rel gs"
  by (metis fst_conv same_parents_remove same_parents_rel)

lemma parent_rel_update:
  "(\<And>g. gr_parent (f g) = gr_parent g) \<Longrightarrow>
   parent_rel (gs_groups (update_group gid f s)) = parent_rel (gs_groups s)"
  by (rule same_parents_rel [OF same_parents_update])

lemma parent_rel_del: "parent_rel (gs(gid := None)) \<subseteq> parent_rel gs"
  by (auto simp: parent_rel_def split: if_splits)

lemma parent_rel_upd:
  "parent_rel (gs(gid \<mapsto> g)) \<subseteq> (if gr_parent g = [] then {} else {(gid, gr_parent g)}) \<union> parent_rel gs"
  by (auto simp: parent_rel_def split: if_splits)

lemma links_create:
  assumes "links_within R s" "link_allowed R e" "get_group_id_from_event e = Some gid"
  shows "links_within R (snd (create_group gid e s))"
proof -
  let ?gs1 = "(gs_groups s)(gid \<mapsto> created_group s gid e)"
  have "parent_rel ?gs1 \<subseteq> R"
    using parent_rel_upd [of "gs_groups s" gid "created_group s gid e"] assms
    by (auto simp: links_within_def link_allowed_def created_group_simps split: if_splits)
  then show ?thesis
    by (auto simp: links_within_def create_group_def Let_def created_group_simps
        dest!: parent_rel_add split: prod.splits)
qed

lemma links_drop:
  assumes "links_within R s" shows "links_within R (snd (drop_group gid g e aff s))"
proof -
  obtain gs' r where rm: "remove_parent_child (gr_parent g) gid (ev_created_at e) (gs_groups s) = (gs', r)"
    by (metis surj_pair)
  have "parent_rel (gs'(gid := None)) \<subseteq> R" "parent_rel ((gs_groups s)(gid := None)) \<subseteq> R"
    using assms parent_rel_remove [OF rm] parent_rel_del [of gs' gid] parent_rel_del [of "gs_groups s" gid]
    by (auto simp: links_within_def)
  with rm show ?thesis by (auto simp: links_within_def drop_group_def split: prod.splits)
qed

interpretation links: handler_invariant ops c "links_within R" "link_allowed R" for ops c R
proof
  fix s :: "'d groups_state" and db m i gid e act g aff
  assume s: "links_within R s"
  show "links_within R (s\<lparr>gs_db := db\<rparr>)" "links_within R (s\<lparr>gs_db := db\<rparr>)" "links_within R (s\<lparr>gs_all_members := m\<rparr>)"
      "links_within R (remember_deleted i s)"
    using s by (simp_all add: links_within_def)
  show "link_allowed R e \<Longrightarrow> get_group_id_from_event e = Some gid \<Longrightarrow>
      links_within R (snd (create_group gid e s))"
    using s by (rule links_create)
  show "links_within R (update_group gid (apply_action act) s)"
    using s by (simp add: links_within_def parent_rel_update)
  show "links_within R (update_group gid (\<lambda>g. snd (push_last50 i g)) s)"
    using s by (simp add: links_within_def parent_rel_update push_last50_def Let_def)
  show "links_within R (snd (drop_group gid g e aff s))" using s by (rule links_drop)
qed

lemma new_group_parent: "gr_parent (new_group url gid) = []"
  by (simp add: new_group_def)

text \<open>
  C7. The subgroup links stay a forest: when an event of an outsider is accepted and then
  processed, a parent relation without cycles stays without cycles.
\<close>

theorem accepted_events_keep_forest:
  assumes acc: "reject_event ops out now cx e s = (None, e', s')" and o: "outsider out e s"
    and acyc: "acyclic (parent_rel (gs_groups (rs_groups s)))"
  shows "acyclic (parent_rel (gs_groups (snd (snd (process_event ops c now' e (rs_groups s'))))))"
proof (cases "ev_kind e = kCreateGroup")
  case False
  let ?R = "parent_rel (gs_groups (rs_groups s))"
  have "rs_groups s' = rs_groups s" using creation_accepted [OF acc o] False by simp
  then have "links_within ?R (rs_groups s')" by (simp add: links_within_def)
  from links.inv_process [OF this] False
  have "parent_rel (gs_groups (snd (snd (process_event ops c now' e (rs_groups s'))))) \<subseteq> ?R"
    by (simp add: links_within_def)
  with acyc show ?thesis by (rule acyclic_subset)
next
  case True
  from creation_accepted [OF acc o] True obtain gid where
    gid: "get_group_id_from_event e = Some gid" "gs_groups (rs_groups s) gid = None"
      "reject_parent (gs_groups (rs_groups s)) gid e = None"
      "gs_groups (rs_groups s') = (gs_groups (rs_groups s))(gid \<mapsto> new_group (gs_relay_url (rs_groups s)) gid)"
    by auto
  let ?Old = "parent_rel (gs_groups (rs_groups s))"
  let ?R = "if declared_parent e = [] then ?Old else insert (gid, declared_parent e) ?Old"
  have "parent_rel (gs_groups (rs_groups s')) \<subseteq> ?Old"
    using parent_rel_upd [of "gs_groups (rs_groups s)" gid "new_group (gs_relay_url (rs_groups s)) gid"]
    by (simp add: gid(4) new_group_parent)
  moreover have "?Old \<subseteq> ?R" by auto
  ultimately have w: "links_within ?R (rs_groups s')" unfolding links_within_def by (rule subset_trans)
  have al: "link_allowed ?R e" using gid(1) by (simp add: link_allowed_def)
  have "(declared_parent e, gid) \<notin> ?Old\<^sup>*" if "declared_parent e \<noteq> []"
    using gid(3) that cycle_walk_reaches [of "declared_parent e" gid "gs_groups (rs_groups s)" max_depth]
    by (auto simp: reject_parent_def declared_parent_def would_create_cycle_def split: option.splits if_splits)
  with acyc have "acyclic ?R" by (auto simp: acyclic_insert)
  moreover have "parent_rel (gs_groups (snd (snd (process_event ops c now' e (rs_groups s'))))) \<subseteq> ?R"
    using links.inv_process [OF w al] by (simp add: links_within_def)
  ultimately show ?thesis by (rule acyclic_subset)
qed

theorem accepted_events_keep_forest_witness:
  "acyclic (parent_rel (gs_groups (snd (snd
     (process_event slice_ops ex_crypto 1000 ex_remove (rs_groups ex_state))))))"
proof (rule accepted_events_keep_forest [OF ex_remove_accepted])
  show "outsider ex_outside ex_remove ex_state" by (simp add: outsider_def ex_remove_def)
  have "parent_rel (gs_groups (rs_groups ex_state)) = {}"
    by (auto simp: parent_rel_def split: if_splits)
  then show "acyclic (parent_rel (gs_groups (rs_groups ex_state)))"
    by (simp add: acyclic_def)
qed

end
