(* ===== verification/Publish.thy ===== *)
theory Publish
  imports Examples
begin

text \<open>
  The events a group is published as: what the rosters say of its members, and what
  \<open>SyncGroupMetadataEvents\<close> achieves, proved over the store's interface.
\<close>

subsection \<open>Rosters\<close>

lemma admin_tag_mem:
  "''p'' # hex_of pk # names \<in> set (admin_tag g x) \<longleftrightarrow>
     x = pk \<and> (\<exists>roles. g_members g pk = Some roles \<and> roles \<noteq> [] \<and> names = map role_name roles)"
proof (cases "g_members g x")
  case None
  then show ?thesis by (auto simp: admin_tag_def)
next
  case (Some roles)
  then have "set (admin_tag g x) = (if roles = [] then {} else {''p'' # hex_of x # map role_name roles})"
    by (simp add: admin_tag_def)
  with Some show ?thesis by (cases "x = pk") simp_all
qed

text \<open>
  C13. The rosters say what the group says: whatever the order of the map, the members event lists
  exactly the members, and the admins event exactly the members with roles, with the names of
  their roles.
\<close>

theorem rosters_exact:
  assumes "enumerates ord (g_members g)"
  shows "([''p'', hex_of pk] \<in> set (ev_tags (to_members_event ord g)) \<longleftrightarrow> is_member g pk) \<and>
    (''p'' # hex_of pk # names \<in> set (ev_tags (to_admins_event ord g)) \<longleftrightarrow>
       (\<exists>roles. g_members g pk = Some roles \<and> roles \<noteq> [] \<and> names = map role_name roles))"
proof -
  have ord: "pk \<in> set ord \<longleftrightarrow> g_members g pk \<noteq> None"
    using enumerates_memD [OF assms] by auto
  have "''p'' # hex_of pk # names \<in> set (ev_tags (to_admins_event ord g)) \<longleftrightarrow>
      (\<exists>x \<in> set ord. ''p'' # hex_of pk # names \<in> set (admin_tag g x))"
    by (auto simp: to_admins_event_def)
  with ord show ?thesis
    by (auto simp: admin_tag_mem to_members_event_def is_member_def)
qed

theorem rosters_exact_witness:
  "[''p'', hex_of 2] \<in> set (ev_tags (to_members_event [2, 1] ex_group))"
  using rosters_exact [of "[2, 1]" ex_group 2 "[]"]
  by (auto simp: enumerates_def is_member_def)


subsection \<open>What publishing achieves\<close>

text \<open>A candidate for group \<open>gid\<close>: addressable, its \<open>d\<close> tag first.\<close>

definition candidate_for :: "string \<Rightarrow> event \<Rightarrow> bool" where
  "candidate_for gid e \<longleftrightarrow> is_addressable (ev_kind e) \<and> (\<exists>ts. ev_tags e = [''d'', gid] # ts)"

lemma sync_candidates_for: "\<forall>e \<in> set (sync_candidates ords g). candidate_for (g_id g) e"
  by (simp add: sync_candidates_def candidate_for_def group_metadata_event_def to_metadata_event_def
      to_admins_event_def to_members_event_def to_roles_event_def is_addressable_def Let_def)

lemma not_both: "is_addressable k \<Longrightarrow> \<not> is_replaceable k"
  by (auto simp: is_addressable_def is_replaceable_def word_le_nat_alt word_less_nat_alt)

lemma snapshot_limit: "is_addressable k \<Longrightarrow> effective_limit (snapshot_filter k a gid) 1 = 1"
  by (simp add: effective_limit_def theoretical_limit_def snapshot_filter_def empty_filter_def
      opt_len_def tag_values_def not_both Let_def)

lemma snapshot_matches:
  "filter_matches (snapshot_filter k a gid) x \<longleftrightarrow>
     ev_kind x = k \<and> ev_pubkey x = a \<and> tags_contains_any (ev_tags x) ''d'' [gid]"
  by (auto simp: filter_matches_def matches_ignoring_timestamps_def snapshot_filter_def
      empty_filter_def in_opt_def)

lemma slot_matches:
  "is_addressable (ev_kind e) \<Longrightarrow> filter_matches (slot_filter e) x \<longleftrightarrow>
     ev_kind x = ev_kind e \<and> ev_pubkey x = ev_pubkey e \<and>
     tags_contains_any (ev_tags x) ''d'' [tags_get_d (ev_tags e)]"
  by (auto simp: filter_matches_def matches_ignoring_timestamps_def slot_filter_def
      empty_filter_def in_opt_def Let_def)

lemma snapshot_since [simp]: "f_since (snapshot_filter k a gid) = 0"
  by (simp add: snapshot_filter_def empty_filter_def)

lemma supersede_newer:
  "in_int64 (ev_created_at current + 1) \<Longrightarrow> ev_created_at current < ev_created_at (supersede current e)"
  by (simp add: supersede_def int64_id)

lemma supersede_keeps [simp]:
  "ev_tags (supersede cur e) = ev_tags e" "ev_kind (supersede cur e) = ev_kind e"
  by (simp_all add: supersede_def)

context event_store
begin

text \<open>The current snapshot is at least as new as all events of its slot.\<close>

lemma current_snapshot_newest:
  assumes d: "inv d" and k: "is_addressable k"
    and x: "x \<in> contents d" "filter_matches (snapshot_filter k (cr_public c sk) gid) x"
  shows "ev_created_at x \<le> ev_created_at (current_snapshot ops c sk gid k d)"
proof -
  let ?f = "snapshot_filter k (cr_public c sk) gid"
  from query_limit [OF d, of 1 ?f] have len: "length (so_query ops ?f 1 d) \<le> 1" by simp
  from query_complete [OF d snapshot_since x, of 1]
  have c: "x \<in> set (so_query ops ?f 1 d) \<or> (1 \<le> length (so_query ops ?f 1 d) \<and>
      (\<forall>y \<in> set (so_query ops ?f 1 d). ev_created_at x \<le> ev_created_at y))"
    using snapshot_limit [OF k] by simp
  then obtain y where "so_query ops ?f 1 d = [y]"
    using len by (cases "so_query ops ?f 1 d") auto
  with c show ?thesis by (auto simp: current_snapshot_def)
qed

lemma sync_one_publishes:
  assumes d: "inv d" and cand: "candidate_for gid e"
    and cur: "cur = current_snapshot ops c sk gid (ev_kind e) d"
    and differs: "ev_tags cur \<noteq> ev_tags e" and range: "in_int64 (ev_created_at cur + 1)"
    and signed: "x = fst (event_sign c sk (supersede cur e))"
    and uniq: "id_unique (insert x (contents d))"
    and stored: "so_replace ops x d = (None, d')"
  shows "snd (sync_one ops c sk now gid e d) = d' \<and> inv d' \<and> ev_tags x = ev_tags e \<and>
    ev_created_at cur < ev_created_at x \<and> current_snapshot ops c sk gid (ev_kind e) d' = x"
proof -
  let ?f = "snapshot_filter (ev_kind e) (cr_public c sk) gid"
  have k: "is_addressable (ev_kind e)" using cand by (simp add: candidate_for_def)
  obtain ts where ts: "ev_tags e = [''d'', gid] # ts" using cand by (auto simp: candidate_for_def)
  have x: "ev_tags x = ev_tags e" "ev_kind x = ev_kind e" "ev_pubkey x = cr_public c sk"
      "ev_created_at x = ev_created_at (supersede cur e)"
    using signed by simp_all
  have newer: "ev_created_at cur < ev_created_at x"
    using supersede_newer [OF range] x(4) by simp
  have slot: "filter_matches (slot_filter x) y \<longleftrightarrow> filter_matches ?f y" for y
    using k x ts by (simp add: slot_matches snapshot_matches tags_get_d_def)
  have "so_query ops ?f 1 d' = [x]"
  proof (rule replace_then_query [OF d uniq stored])
    show "\<forall>y \<in> contents d. filter_matches (slot_filter x) y \<longrightarrow> ev_created_at y < ev_created_at x"
      using current_snapshot_newest [OF d k] newer slot cur by fastforce
    show "effective_limit ?f 1 = 1" by (rule snapshot_limit [OF k])
    show "filter_matches ?f x" using x ts by (simp add: snapshot_matches)
  qed (simp_all add: slot)
  moreover have "snd (sync_one ops c sk now gid e d) = d'"
    using differs stored by (simp add: sync_one_def cur [symmetric] signed [symmetric] Let_def)
  moreover have "inv d'" using replace_ok [OF d uniq stored] by blast
  ultimately show ?thesis using x newer by (simp add: current_snapshot_def)
qed

end

lemma sync_one_unchanged:
  "ev_tags (current_snapshot ops c sk gid (ev_kind e) d) = ev_tags e \<Longrightarrow>
   sync_one ops c sk now gid e d = ([], d)"
  by (simp add: sync_one_def Let_def)


definition ex_admins :: event where
  "ex_admins = fst (event_sign ex_crypto 7 (supersede zero_event (to_admins_event [1, 2] ex_group)))"


end
