(* ===== verification/Query.thy ===== *)
theory Query
  imports Reject
begin

text \<open>
  Reading: which requests the relay refuses (\<open>rejectRequest\<close> in \<^verbatim>\<open>state.go\<close>), what a query yields
  and what is broadcast to whom (\<^verbatim>\<open>query.go\<close>).
\<close>

subsection \<open>Requests\<close>

text \<open>The groups a filter names; a nil slice is \<open>None\<close>.\<close>

definition requested_group_ids :: "nfilter \<Rightarrow> string list option" where
  "requested_group_ids f =
     (case tag_values f ''h'' of
        Some (x # xs) \<Rightarrow> Some (x # xs)
      | _ \<Rightarrow> tag_values f ''d'')"

definition or_nil :: "'a list option \<Rightarrow> 'a list" where
  "or_nil xs = (case xs of None \<Rightarrow> [] | Some l \<Rightarrow> l)"

datatype request_reason =
    GiftWrapsNeedAuth | GiftWrapsOfOthers | SearchNeedsGroups | PrivateGroupNeedsAuth
  | PrivateGroupNotMember

text \<open>The loop over the groups asked for.\<close>

fun reject_private :: "groups \<Rightarrow> pubkey list \<Rightarrow> string list \<Rightarrow> request_reason option" where
  "reject_private gs authed [] = None"
| "reject_private gs authed (gid # gids) =
     (case gs gid of
        None \<Rightarrow> reject_private gs authed gids
      | Some g \<Rightarrow>
          if g_private g then
            (if authed = [] then Some PrivateGroupNeedsAuth
             else if \<not> any_of_these_is_a_member g authed then Some PrivateGroupNotMember
             else reject_private gs authed gids)
          else reject_private gs authed gids)"

definition wants_gift_wraps :: "nfilter \<Rightarrow> bool" where
  "wants_gift_wraps f \<longleftrightarrow> kGiftWrap \<in> set (or_nil (f_kinds f))"

definition reject_request :: "groups \<Rightarrow> pubkey list \<Rightarrow> nfilter \<Rightarrow> request_reason option" where
  "reject_request gs authed f =
     (if wants_gift_wraps f \<and> authed = [] then Some GiftWrapsNeedAuth
      else if wants_gift_wraps f \<and>
              \<not> authed_same_as_p_tagged authed (or_nil (tag_values f ''p'')) then
        Some GiftWrapsOfOthers
      else
        let gids = or_nil (requested_group_ids f)
        in if f_search f \<noteq> [] \<and> (length gids > 5 \<or> gids = []) then Some SearchNeedsGroups
           else reject_private gs authed gids)"

subsection \<open>Queries\<close>

definition hide_event_from_reader :: "groups \<Rightarrow> nfilter \<Rightarrow> event \<Rightarrow> pubkey list \<Rightarrow> bool" where
  "hide_event_from_reader gs f e authed =
     (if ev_kind e = kProfileMetadata then False
      else case get_group_from_event gs e of
             None \<Rightarrow> True
           | Some g \<Rightarrow>
               if g_hidden g \<and> requested_group_ids f = None \<and> f_ids f = None then True
               else if g_private g then
                 (if ev_kind e = kGroupMetadata then
                    (if g_hidden g then
                       (if any_of_these_is_a_member g authed then False else True)
                     else False)
                  else if any_of_these_is_a_member g authed then False
                  else False)
               else False)"

definition should_prevent_broadcast ::
  "groups \<Rightarrow> pubkey list option \<Rightarrow> nfilter \<Rightarrow> event \<Rightarrow> bool" where
  "should_prevent_broadcast gs ws f e =
     (case ws of None \<Rightarrow> True | Some authed \<Rightarrow> hide_event_from_reader gs f e authed)"

definition max_int :: int where "max_int = 2 ^ 63 - 1"

text \<open>\<open>query\<close> with a consumer that takes everything.\<close>

definition relay_query ::
  "'d store_ops \<Rightarrow> groups \<Rightarrow> pubkey list \<Rightarrow> bool \<Rightarrow> nfilter \<Rightarrow> 'd \<Rightarrow> event list" where
  "relay_query ops gs authed negentropy f db =
     (if wants_gift_wraps f then so_query ops f 500 db
      else if f_search f \<noteq> [] then []
      else filter (\<lambda>e. \<not> hide_event_from_reader gs f e authed)
             (so_query ops f (if negentropy then max_int else 1500) db))"

subsection \<open>What readers see\<close>

lemma reject_private_None:
  "reject_private gs authed gids = None \<Longrightarrow> gid \<in> set gids \<Longrightarrow> gs gid = Some g \<Longrightarrow> g_private g \<Longrightarrow>
   any_of_these_is_a_member g authed"
  by (induction gs authed gids rule: reject_private.induct) (auto split: option.splits if_splits)

text \<open>
  Asking for a private group by its id takes membership: an accepted request that names a
  private group comes from a connection one of whose keys is a member.
\<close>

theorem private_group_request_needs_member:
  assumes "reject_request gs authed f = None" "gid \<in> set (or_nil (requested_group_ids f))"
    and "gs gid = Some g" "g_private g"
  shows "any_of_these_is_a_member g authed"
  using assms reject_private_None by (auto simp: reject_request_def Let_def split: if_splits)

definition ex_private :: groups where
  "ex_private = [''g'' \<mapsto> ex_group\<lparr>g_private := True\<rparr>]"

definition ex_private_filter :: nfilter where
  "ex_private_filter = empty_filter\<lparr>f_tags := [(''h'', [''g''])]\<rparr>"

theorem private_group_request_needs_member_witness:
  "any_of_these_is_a_member (ex_group\<lparr>g_private := True\<rparr>) [2]"
  by (rule private_group_request_needs_member [of ex_private "[2]" ex_private_filter "''g''"])
    (simp_all add: reject_request_def wants_gift_wraps_def ex_private_filter_def empty_filter_def
      or_nil_def requested_group_ids_def tag_values_def ex_private_def any_of_these_is_a_member_def
      is_member_def)

lemma not_hidden:
  "\<not> hide_event_from_reader gs f e authed \<Longrightarrow> ev_kind e \<noteq> kProfileMetadata \<Longrightarrow>
   \<exists>g. get_group_from_event gs e = Some g \<and>
     (g_hidden g \<longrightarrow> requested_group_ids f \<noteq> None \<or> f_ids f \<noteq> None)"
  by (auto simp: hide_event_from_reader_def split: option.splits if_splits)

text \<open>
  What is hidden, exactly: events of no live group; events of hidden groups when the filter
  names neither groups nor ids; and the metadata of a group both hidden and private, from
  non-members. In particular a group that is only private hides nothing here, from nobody.
\<close>

theorem hidden_exactly:
  "hide_event_from_reader gs f e authed \<longleftrightarrow>
     ev_kind e \<noteq> kProfileMetadata \<and>
     (get_group_from_event gs e = None \<or>
      (\<exists>g. get_group_from_event gs e = Some g \<and> g_hidden g \<and>
         ((requested_group_ids f = None \<and> f_ids f = None) \<or>
          (g_private g \<and> ev_kind e = kGroupMetadata \<and> \<not> any_of_these_is_a_member g authed))))"
  by (auto simp: hide_event_from_reader_def split: option.splits)

lemma authed_among_iff: "authed_among as ps \<longleftrightarrow> hex_of ` set as \<subseteq> set ps"
  by (induction as) (auto simp: list_ex_iff)

text \<open>As many \<open>p\<close> tags as keys, all keys among them: with distinct keys, the tags are the keys.\<close>

lemma authed_same_set:
  assumes "authed_same_as_p_tagged authed ps" "distinct authed"
  shows "set ps = hex_of ` set authed"
proof -
  have l: "length ps = length authed" and sub: "hex_of ` set authed \<subseteq> set ps"
    using assms(1) by (auto simp: authed_same_as_p_tagged_def authed_among_iff split: if_splits)
  have "card (hex_of ` set authed) = length authed"
    using assms(2) by (simp add: card_image inj_on_def distinct_card)
  moreover have "card (set ps) \<le> length ps" by (rule card_length)
  ultimately show ?thesis using card_seteq [OF _ sub] l by simp
qed

text \<open>
  The keys of a connection stay distinct: khatru's handling of an AUTH message, at most \<open>mx\<close> keys.
\<close>

definition authenticate :: "nat \<Rightarrow> pubkey \<Rightarrow> pubkey list \<Rightarrow> pubkey list" where
  "authenticate mx pk keys =
     (case slice_index keys pk of
        None \<Rightarrow>
          if length keys < mx then keys @ [pk]
          else keys[0 := keys ! (length keys - 1), length keys - 1 := pk]
      | Some idx \<Rightarrow> slice_swap keys idx (length keys - 1))"

lemma distinct_replace_first:
  assumes "distinct keys" "keys \<noteq> []" "pk \<notin> set keys"
  shows "distinct (keys[0 := keys ! (length keys - 1), length keys - 1 := pk])"
proof (cases keys rule: rev_cases)
  case (snoc ys y)
  with assms show ?thesis by (cases ys) (auto simp: nth_append list_update_append)
qed (use assms in simp)

lemma authenticate_distinct:
  assumes "distinct keys" "0 < mx" shows "distinct (authenticate mx pk keys)"
proof (cases "slice_index keys pk")
  case None
  then have "pk \<notin> set keys" by simp
  have eq: "authenticate mx pk keys = (if length keys < mx then keys @ [pk]
      else keys[0 := keys ! (length keys - 1), length keys - 1 := pk])"
    unfolding authenticate_def None by simp
  show ?thesis
  proof (cases "length keys < mx")
    case True
    with assms(1) \<open>pk \<notin> set keys\<close> show ?thesis unfolding eq by simp
  next
    case False
    with assms(2) have "keys \<noteq> []" by auto
    from distinct_replace_first [OF assms(1) this \<open>pk \<notin> set keys\<close>] False show ?thesis
      unfolding eq by (simp only: if_False)
  qed
next
  case (Some idx)
  have "idx < length keys" using slice_index_SomeD [OF Some] by simp
  then have "mset (slice_swap keys idx (length keys - 1)) = mset keys" by (intro mset_slice_swap) auto
  from mset_eq_imp_distinct_iff [OF this] assms(1)
  show ?thesis unfolding authenticate_def Some by simp
qed

text \<open>
  C19. Gift wraps reach their recipients only: when the relay accepts a request that asks for gift
  wraps, every event the query yields has a \<open>p\<close> tag with one of the keys the connection has
  authenticated.
\<close>

theorem gift_wraps_for_recipients:
  assumes "reject_request gs authed f = None" "wants_gift_wraps f" "distinct authed" "slice_inv db"
    and "distinct (map fst (f_tags f))" "e \<in> set (relay_query slice_ops gs authed neg f db)"
  shows "\<exists>t \<in> set (ev_tags e). \<exists>pk \<in> set authed. tag_is ''p'' t \<and> t ! 1 = hex_of pk"
proof -
  have a: "authed \<noteq> []" "authed_same_as_p_tagged authed (or_nil (tag_values f ''p''))"
    using assms(1,2) by (auto simp: reject_request_def split: if_splits)
  have ps: "set (or_nil (tag_values f ''p'')) = hex_of ` set authed"
    using authed_same_set [OF a(2) assms(3)] .
  with a(1) obtain vs where vs: "tag_values f ''p'' = Some vs" "set vs = hex_of ` set authed"
    by (cases "tag_values f ''p''") (auto simp: or_nil_def)
  have "filter_matches f e"
    using slicestore.query_sound [OF assms(4), of e f 500] assms(2,6) by (simp add: relay_query_def)
  moreover have "(''p'', vs) \<in> set (f_tags f)"
    using vs(1) by (simp add: tag_values_def map_of_SomeD)
  ultimately have "tags_contains_any (ev_tags e) ''p'' vs"
    by (fastforce simp: filter_matches_def matches_ignoring_timestamps_def list_all_iff)
  with vs(2) show ?thesis by (auto simp: tags_contains_any_iff)
qed

definition ex_wrap :: event where
  "ex_wrap = ex_event 5 kGiftWrap [[''p'', hex_of 4]]"

definition ex_wrap_filter :: nfilter where
  "ex_wrap_filter = empty_filter\<lparr>f_kinds := Some [kGiftWrap], f_tags := [(''p'', [hex_of 4])]\<rparr>"

theorem gift_wraps_for_recipients_witness:
  "\<exists>t \<in> set (ev_tags ex_wrap). \<exists>pk \<in> set [4]. tag_is ''p'' t \<and> t ! 1 = hex_of pk"
proof (rule gift_wraps_for_recipients)
  show "reject_request Map.empty [4] ex_wrap_filter = None" "wants_gift_wraps ex_wrap_filter"
    by (simp_all add: reject_request_def wants_gift_wraps_def ex_wrap_filter_def empty_filter_def
        or_nil_def requested_group_ids_def tag_values_def authed_same_as_p_tagged_def)
  show "slice_inv [ex_wrap]" by (simp add: slice_inv_def id_unique_def)
  show "ex_wrap \<in> set (relay_query slice_ops Map.empty [4] False ex_wrap_filter [ex_wrap])"
    by (simp add: relay_query_def wants_gift_wraps_def ex_wrap_filter_def empty_filter_def or_nil_def
        slice_ops_def slice_query_def effective_limit_def theoretical_limit_def filter_matches_def
        matches_ignoring_timestamps_def in_opt_def ex_wrap_def opt_len_def tag_values_def)
qed (simp_all add: ex_wrap_filter_def empty_filter_def)



end
