(* ===== verification/Relay.thy ===== *)
theory Relay
  imports Forest Publish Query
begin

text \<open>
  The pipeline an event goes through: khatru's \<open>handleNormal\<close> with the hooks \<^verbatim>\<open>relay.go\<close> sets
  (\<open>OnEvent\<close>, \<open>StoreEvent\<close>, \<open>ReplaceEvent\<close>, \<open>OnEventSaved\<close>), and \<open>handleEventSaved\<close> of \<^verbatim>\<open>state.go\<close>.
\<close>

subsection \<open>Storing\<close>

definition with_groups :: "'d relay_state \<Rightarrow> 'd groups_state \<Rightarrow> 'd relay_state" where
  "with_groups s gs = s\<lparr>rs_groups := gs\<rparr>"

text \<open>A failed creation takes its placeholder back, unless the event was stored before.\<close>

definition store_event ::
  "'d store_ops \<Rightarrow> event \<Rightarrow> 'd groups_state \<Rightarrow> store_error option \<times> 'd groups_state" where
  "store_event ops e s =
     (case so_save ops e (gs_db s) of
        (err, db) \<Rightarrow>
          (err,
           let s1 = s\<lparr>gs_db := db\<rparr>
           in if err \<noteq> None \<and> err \<noteq> Some ErrDupEvent \<and> ev_kind e = kCreateGroup then
                (case get_group_id_from_event e of
                   None \<Rightarrow> s1
                 | Some gid \<Rightarrow> s1\<lparr>gs_groups := (gs_groups s1)(gid := None)\<rparr>)
              else s1))"

definition replace_event ::
  "'d store_ops \<Rightarrow> event \<Rightarrow> 'd groups_state \<Rightarrow> store_error option \<times> 'd groups_state" where
  "replace_event ops e s =
     (case so_replace ops e (gs_db s) of (err, db) \<Rightarrow> (err, s\<lparr>gs_db := db\<rparr>))"

subsection \<open>After storing\<close>

text \<open>The groups an event affected are published again; all events to broadcast are returned.\<close>

definition handle_event_saved ::
  "'d store_ops \<Rightarrow> crypto \<Rightarrow> timestamp \<Rightarrow> (string \<Rightarrow> roster_orders) \<Rightarrow> event \<Rightarrow> 'd groups_state \<Rightarrow>
     unit outcome \<times> event list \<times> 'd groups_state" where
  "handle_event_saved ops c now ords e s =
     (case process_event ops c now e s of
        (Panicked, bs, s1) \<Rightarrow> (Panicked, bs, s1)
      | (Returned aff, bs, s1) \<Rightarrow>
          (case sync_all ops c now ords aff s1 of (ys, s2) \<Rightarrow> (Returned (), bs @ ys, s2)))"

subsection \<open>The pipeline\<close>

datatype write_result =
    Refused reject_reason
  | StoreFailed store_error
  | Duplicate
  | Saved
  | Crashed

definition handle_normal ::
  "'d store_ops \<Rightarrow> outside \<Rightarrow> timestamp \<Rightarrow> (string \<Rightarrow> roster_orders) \<Rightarrow> request_context \<Rightarrow> event \<Rightarrow>
     'd relay_state \<Rightarrow> write_result \<times> event list \<times> 'd relay_state" where
  "handle_normal ops out now ords cx e s =
     (case reject_event ops out now cx e s of
        (Some r, _, s1) \<Rightarrow> (Refused r, [], s1)
      | (None, e1, s1) \<Rightarrow>
          (case (if is_regular (ev_kind e1) then store_event ops e1 (rs_groups s1)
                 else replace_event ops e1 (rs_groups s1)) of
             (Some err, g2) \<Rightarrow>
               (if err = ErrDupEvent then Duplicate else StoreFailed err, [], with_groups s1 g2)
           | (None, g2) \<Rightarrow>
               (case handle_event_saved ops (out_crypto out) now ords e1 g2 of
                  (r, bs, g3) \<Rightarrow>
                    (case r of Panicked \<Rightarrow> Crashed | Returned _ \<Rightarrow> Saved, bs, with_groups s1 g3))))"

text \<open>The states reached by events that outsiders send, in any context and at any time.\<close>

inductive relay_reaches :: "'d store_ops \<Rightarrow> outside \<Rightarrow> 'd relay_state \<Rightarrow> 'd relay_state \<Rightarrow> bool"
  for ops out s0 where
  reach_start: "relay_reaches ops out s0 s0"
| reach_event:
    "relay_reaches ops out s0 s \<Longrightarrow> outsider out e s \<Longrightarrow>
     handle_normal ops out now ords cx e s = (r, bs, s') \<Longrightarrow> relay_reaches ops out s0 s'"

subsection \<open>What the steps leave alone\<close>

lemma sync_group_groups:
  "sync_group_metadata_events ops c now o1 g s = (ys, s') \<Longrightarrow>
   gs_groups s' = gs_groups s \<and> gs_deleted_cache s' = gs_deleted_cache s"
  by (auto simp: sync_group_metadata_events_def split: prod.splits)

lemma sync_all_groups:
  "sync_all ops c now ords gids s = (ys, s') \<Longrightarrow>
   gs_groups s' = gs_groups s \<and> gs_deleted_cache s' = gs_deleted_cache s"
proof (induction gids arbitrary: s ys s')
  case (Cons gid gids)
  show ?case
  proof (cases "gs_groups s gid")
    case None
    with Cons show ?thesis by simp
  next
    case (Some g)
    obtain ys1 s1 where s1: "sync_group_metadata_events ops c now (ords gid) g s = (ys1, s1)" by fastforce
    obtain ys2 s2 where s2: "sync_all ops c now ords gids s1 = (ys2, s2)" by fastforce
    have "s' = s2" using Cons.prems Some s1 s2 by simp
    with sync_group_groups [OF s1] Cons.IH [OF s2] show ?thesis by simp
  qed
qed simp

lemma store_event_frame:
  "store_event ops e s = (err, s') \<Longrightarrow> gs_deleted_cache s' = gs_deleted_cache s \<and>
   (gs_groups s' = gs_groups s \<or> (\<exists>gid. gs_groups s' = (gs_groups s)(gid := None)))"
  by (auto simp: store_event_def Let_def split: prod.splits option.splits if_splits)

lemma store_event_ok: "store_event ops e s = (None, s') \<Longrightarrow> gs_groups s' = gs_groups s"
  by (auto simp: store_event_def Let_def split: prod.splits option.splits if_splits)

lemma handle_event_saved_state:
  assumes "handle_event_saved ops c now ords e s = (r, bs, s')"
  shows "gs_groups s' = gs_groups (snd (snd (process_event ops c now e s))) \<and>
    gs_deleted_cache s' = gs_deleted_cache (snd (snd (process_event ops c now e s))) \<and>
    (r = Panicked \<longleftrightarrow> fst (process_event ops c now e s) = Panicked)"
proof -
  obtain q bs1 s1 where p: "process_event ops c now e s = (q, bs1, s1)" by (metis prod_cases3)
  show ?thesis
  proof (cases q)
    case Panicked
    with assms p show ?thesis by (simp add: handle_event_saved_def)
  next
    case (Returned aff)
    obtain ys s2 where "sync_all ops c now ords aff s1 = (ys, s2)" by fastforce
    with assms p Returned sync_all_groups [OF this] show ?thesis
      by (auto simp: handle_event_saved_def)
  qed
qed

lemma state_ok_parts:
  "gs_groups s' = gs_groups s \<Longrightarrow> gs_deleted_cache s' = gs_deleted_cache s \<Longrightarrow> state_ok s' = state_ok s"
  by (simp add: state_ok_def)

text \<open>The cases of the pipeline after an acceptance.\<close>

lemma handle_normal_accepted:
  assumes rej: "reject_event ops out now cx e s = (None, e1, s1)"
    and h: "handle_normal ops out now ords cx e s = (r, bs, s')"
  shows "\<exists>err g2. (if is_regular (ev_kind e1) then store_event ops e1 (rs_groups s1)
              else replace_event ops e1 (rs_groups s1)) = (err, g2) \<and>
     (case err of
        Some x \<Rightarrow> rs_groups s' = g2 \<and> bs = [] \<and> r = (if x = ErrDupEvent then Duplicate else StoreFailed x)
      | None \<Rightarrow> (\<exists>q. handle_event_saved ops (out_crypto out) now ords e1 g2 = (q, bs, rs_groups s') \<and>
                  r = (case q of Panicked \<Rightarrow> Crashed | Returned _ \<Rightarrow> Saved)))"
proof -
  obtain err g2 where st: "(if is_regular (ev_kind e1) then store_event ops e1 (rs_groups s1)
      else replace_event ops e1 (rs_groups s1)) = (err, g2)" by (metis surj_pair)
  obtain q bs3 g3 where q: "handle_event_saved ops (out_crypto out) now ords e1 g2 = (q, bs3, g3)"
    by (metis prod_cases3)
  from h rej st q show ?thesis
    by (cases err) (auto simp: handle_normal_def with_groups_def)
qed

lemma stored_state:
  assumes "(if is_regular k then store_event ops e1 g1 else replace_event ops e1 g1) = (err, g2)"
  shows "gs_deleted_cache g2 = gs_deleted_cache g1 \<and>
    (gs_groups g2 = gs_groups g1 \<or> (\<exists>gid. gs_groups g2 = (gs_groups g1)(gid := None))) \<and>
    (err = None \<longrightarrow> gs_groups g2 = gs_groups g1)"
  using assms store_event_frame [of ops e1 g1 err g2] store_event_ok [of ops e1 g1 g2]
  by (auto simp: replace_event_def split: if_splits prod.splits)

subsection \<open>What a check does to the event\<close>

lemma write_targets_find:
  assumes "key \<noteq> ''p''" shows "tags_find (write_targets ts tg) key = tags_find ts key"
proof (induction ts tg rule: write_targets.induct)
  case (2 t ts tg)
  have "\<not> tag_is key (take 2 t @ names)" "\<not> tag_is key t" if "tag_is ''p'' t" for names
    using that assms by (cases t; auto simp: tag_is_def)+
  with 2 show ?case by (auto split: list.splits prod.splits)
qed simp

lemma reject_moderation_tags:
  "snd (reject_moderation ops out g e db) = ev_tags e \<or>
   (ev_kind e = kPutUser \<and> (\<exists>tg. snd (reject_moderation ops out g e db) = write_targets (ev_tags e) tg))"
proof (cases "prepare_moderation_action (cr_valid (out_crypto out)) e")
  case (Inr act)
  then have "(\<exists>ts w c. act = PutUser ts w c) \<longrightarrow> ev_kind e = kPutUser"
    by (auto simp: prepare_moderation_action_def prepare_remove_user_def prepare_edit_metadata_def
        prepare_delete_event_def prepare_create_invite_def Let_def
        split: if_splits option.splits sum.splits)
  with Inr show ?thesis
    by (cases act) (auto simp: reject_moderation_def Let_def split: prod.splits)
qed (simp add: reject_moderation_def)

definition same_event :: "event \<Rightarrow> event \<Rightarrow> bool" where
  "same_event e e' \<longleftrightarrow> e' = e \<or> (ev_kind e = kPutUser \<and> (\<exists>tg. e' = with_tags e (write_targets (ev_tags e) tg)))"

lemma with_own_tags [simp]: "with_tags e (ev_tags e) = e"
  by (simp add: with_tags_def)

lemma reject_write_event:
  assumes "reject_write ops out g e s = (r, e', s')" shows "same_event e e'"
proof -
  have "same_event e (with_tags e (snd (reject_moderation ops out g e db)))" for db
    using reject_moderation_tags [of ops out g e db] by (auto simp: same_event_def)
  moreover have "same_event e e" by (simp add: same_event_def)
  moreover have "e' = e \<or> (\<exists>db. e' = with_tags e (snd (reject_moderation ops out g e db)))"
    using assms by (auto simp: reject_write_def Let_def split: prod.splits if_splits option.splits)
      (metis snd_conv)+
  ultimately show ?thesis by auto
qed

lemma reject_event_event:
  assumes "reject_event ops out now cx e s = (r, e', s')" shows "same_event e e'"
proof -
  have "same_event e e" by (simp add: same_event_def)
  with assms reject_write_event show ?thesis
    unfolding reject_event_def reject_in_group_def
    by (auto split: if_splits option.splits prod.splits)
qed

lemma same_event_simps:
  assumes "same_event e e'"
  shows "ev_kind e' = ev_kind e" "get_group_id_from_event e' = get_group_id_from_event e"
    "ev_pubkey e' = ev_pubkey e" "ev_id e' = ev_id e"
  using assms by (auto simp: same_event_def with_tags_def get_group_id_from_event_def write_targets_find)

lemma same_event_kind: "same_event e e' \<Longrightarrow> ev_kind e \<noteq> kPutUser \<Longrightarrow> e' = e"
  by (simp add: same_event_def)

lemma store_event_failed:
  "store_event ops e s = (Some err, s') \<Longrightarrow> err \<noteq> ErrDupEvent \<Longrightarrow> ev_kind e = kCreateGroup \<Longrightarrow>
   get_group_id_from_event e = Some gid \<Longrightarrow> gs_groups s' = (gs_groups s)(gid := None)"
  by (auto simp: store_event_def Let_def split: prod.splits)

lemma index_ok_new: "index_ok (new_group url gid)"
  by (simp add: index_ok_def new_group_def)

lemma handle_normal_result:
  assumes "reject_event ops out now cx e s = (None, e1, s1)"
    and "handle_normal ops out now ords cx e s = (r, bs, s')"
  shows "\<exists>err g2. (if is_regular (ev_kind e1) then store_event ops e1 (rs_groups s1)
            else replace_event ops e1 (rs_groups s1)) = (err, g2) \<and>
    (rs_groups s' = g2 \<or>
     (\<exists>q. handle_event_saved ops (out_crypto out) now ords e1 g2 = (q, bs, rs_groups s')))"
  using assms
  by (auto simp: handle_normal_def with_groups_def split: prod.splits option.splits outcome.splits if_splits)

lemma handle_normal_failed:
  assumes "reject_event ops out now cx e s = (None, e1, s1)"
    and "handle_normal ops out now ords cx e s = (StoreFailed err, bs, s')"
  shows "\<exists>g2. (if is_regular (ev_kind e1) then store_event ops e1 (rs_groups s1)
            else replace_event ops e1 (rs_groups s1)) = (Some err, g2) \<and>
    rs_groups s' = g2 \<and> err \<noteq> ErrDupEvent"
  using assms
  by (auto simp: handle_normal_def with_groups_def split: prod.splits option.splits outcome.splits if_splits)

lemma handle_normal_crashed:
  assumes "reject_event ops out now cx e s = (None, e1, s1)"
    and "handle_normal ops out now ords cx e s = (Crashed, bs, s')"
  shows "\<exists>g2. (if is_regular (ev_kind e1) then store_event ops e1 (rs_groups s1)
            else replace_event ops e1 (rs_groups s1)) = (None, g2) \<and>
    handle_event_saved ops (out_crypto out) now ords e1 g2 = (Panicked, bs, rs_groups s')"
  using assms
  by (auto simp: handle_normal_def with_groups_def split: prod.splits option.splits outcome.splits if_splits)

subsection \<open>What holds of the pipeline\<close>

lemma refusal_frame:
  "reject_event ops out now cx e s = (Some r, e1, s1) \<Longrightarrow> rs_groups s1 = rs_groups s"
  by (auto simp: reject_event_def reject_in_group_def split: option.splits if_splits prod.splits
      dest!: reject_gift_wrap_frame reject_join_frame reject_write_frame reject_create_refused)

text \<open>
  C11. A refused event leaves nothing behind: no group, no deleted group and no stored event
  changes, and nothing is broadcast.
\<close>

theorem refused_event_leaves_nothing:
  assumes "handle_normal ops out now ords cx e s = (Refused r, bs, s')"
  shows "rs_groups s' = rs_groups s \<and> bs = []"
proof -
  obtain q e1 s1 where rej: "reject_event ops out now cx e s = (q, e1, s1)" by (metis prod_cases3)
  show ?thesis
  proof (cases q)
    case None
    with rej have "fst (handle_normal ops out now ords cx e s) \<noteq> Refused r"
      by (auto simp: handle_normal_def split: prod.splits option.splits outcome.splits)
    with assms show ?thesis by simp
  next
    case (Some x)
    with rej have "rs_groups s1 = rs_groups s" using refusal_frame by blast
    with assms rej Some show ?thesis by (auto simp: handle_normal_def)
  qed
qed

theorem refused_event_leaves_nothing_witness:
  "rs_groups (snd (snd (handle_normal slice_ops ex_outside 9000 (\<lambda>_. ([], [])) ex_context ex_remove ex_state)))
     = ex_groups"
proof -
  have "handle_normal slice_ops ex_outside 9000 (\<lambda>_. ([], [])) ex_context ex_remove ex_state
      = (Refused ModerationTooOld, [], ex_state)"
    by (simp add: handle_normal_def reject_event_def ex_remove_def moderation_set int64_def)
  from refused_event_leaves_nothing [OF this] this show ?thesis by simp
qed

text \<open>
  A creation whose event cannot be stored is undone: the placeholder is taken back and the
  groups are exactly as before, so the creation can be tried again.
\<close>

theorem failed_creation_rolled_back:
  assumes o: "outsider out e s" and k: "ev_kind e = kCreateGroup"
    and h: "handle_normal ops out now ords cx e s = (StoreFailed err, bs, s')"
  shows "gs_groups (rs_groups s') = gs_groups (rs_groups s)"
proof -
  obtain q e1 s1 where rej: "reject_event ops out now cx e s = (q, e1, s1)" by (metis prod_cases3)
  have "q = None" using h rej by (cases q) (auto simp: handle_normal_def)
  with rej have acc: "reject_event ops out now cx e s = (None, e1, s1)" by simp
  have e1: "e1 = e" using same_event_kind [OF reject_event_event [OF acc]] k by simp
  obtain gid where gid: "get_group_id_from_event e = Some gid" "gs_groups (rs_groups s) gid = None"
      "gs_groups (rs_groups s1) = (gs_groups (rs_groups s))(gid \<mapsto> new_group (gs_relay_url (rs_groups s)) gid)"
    using creation_accepted [OF acc o] k by auto
  from handle_normal_failed [OF acc h] k e1 obtain g2 where
    st: "store_event ops e (rs_groups s1) = (Some err, g2)" "rs_groups s' = g2" "err \<noteq> ErrDupEvent"
    by (auto simp: is_regular_def)
  have "gs_groups g2 = (gs_groups (rs_groups s1))(gid := None)"
    by (rule store_event_failed [OF st(1,3) k gid(1)])
  with st gid show ?thesis by (auto simp: fun_eq_iff)
qed

text \<open>A store whose writes fail: the one that was closed.\<close>

definition ex_failing :: "slice_store store_ops" where
  "ex_failing = slice_ops\<lparr>so_save := \<lambda>e d. (Some ErrStoreClosed, d)\<rparr>"

theorem failed_creation_rolled_back_witness:
  "\<exists>bs s'. handle_normal ex_failing ex_outside 1000 (\<lambda>_. ([], [])) ex_context ex_create ex_state
       = (StoreFailed ErrStoreClosed, bs, s') \<and> gs_groups (rs_groups s') = [''g'' \<mapsto> ex_group]"
proof -
  obtain s1 where "reject_event ex_failing ex_outside 1000 ex_context ex_create ex_state
      = (None, ex_create, s1)"
    by (simp add: reject_event_def ex_create_def reject_in_group_def reject_create_def
      moderation_set metadata_set rs_limit_def rs_check_def
      has_presence_def ask_presence_def reject_parent_def get_parent_from_event_def int64_def)
  then obtain bs s' where h: "handle_normal ex_failing ex_outside 1000 (\<lambda>_. ([], [])) ex_context
      ex_create ex_state = (StoreFailed ErrStoreClosed, bs, s')"
    by (simp add: handle_normal_def store_event_def ex_failing_def is_regular_def ex_create_def)
  have "outsider ex_outside ex_create ex_state" "ev_kind ex_create = kCreateGroup"
    by (simp_all add: outsider_def ex_create_def)
  from failed_creation_rolled_back [OF this h] h show ?thesis by simp
qed

text \<open>
  A creation that was stored before is not undone: the placeholder stays, a group without members
  that nothing will complete.
\<close>

lemma duplicate_creation_stays:
  assumes "reject_event ops out now cx e s = (None, e, s1)" "outsider out e s"
    and "ev_kind e = kCreateGroup" "so_save ops e (gs_db (rs_groups s1)) = (Some ErrDupEvent, db)"
  shows "\<exists>s' gid g. handle_normal ops out now ords cx e s = (Duplicate, [], s') \<and>
    get_group_id_from_event e = Some gid \<and> gs_groups (rs_groups s') gid = Some g \<and>
    g_members g = Map.empty"
proof -
  obtain gid where gid: "get_group_id_from_event e = Some gid"
      "gs_groups (rs_groups s1) = (gs_groups (rs_groups s))(gid \<mapsto> new_group (gs_relay_url (rs_groups s)) gid)"
    using creation_accepted [OF assms(1,2)] assms(3) by auto
  have "store_event ops e (rs_groups s1) = (Some ErrDupEvent, (rs_groups s1)\<lparr>gs_db := db\<rparr>)"
    using assms(4) by (simp add: store_event_def)
  with assms(1,3) have "handle_normal ops out now ords cx e s =
      (Duplicate, [], with_groups s1 ((rs_groups s1)\<lparr>gs_db := db\<rparr>))"
    by (simp add: handle_normal_def is_regular_def)
  with gid show ?thesis by (simp add: with_groups_def new_group_def)
qed

text \<open>The group of an accepted moderation event exists.\<close>

lemma accepted_target_exists:
  assumes acc: "reject_event ops out now cx e s = (None, e1, s1)" and o: "outsider out e s"
  shows "target_exists (rs_groups s1) e1"
proof (cases "ev_kind e \<in> set moderation_event_kinds \<and> ev_kind e \<noteq> kCreateGroup")
  case False
  with same_event_simps [OF reject_event_event [OF acc]] show ?thesis
    by (auto simp: target_exists_def)
next
  case True
  then have nk: "ev_kind e \<noteq> kGiftWrap" "ev_kind e \<noteq> kProfileMetadata"
    by (auto simp: moderation_set)
  obtain gid where gid: "get_group_id_from_event e = Some gid"
      "reject_in_group ops out cx gid e s = (None, e1, s1)"
    using reject_event_in_group [OF acc o nk] by blast
  then have "gs_groups (rs_groups s) gid \<noteq> None"
    using True by (auto simp: reject_in_group_def split: option.splits)
  moreover have "rs_groups s1 = rs_groups s" using creation_accepted [OF acc o] True by simp
  ultimately show ?thesis
    using gid(1) same_event_simps(2) [OF reject_event_event [OF acc]]
    by (auto simp: target_exists_def get_group_from_event_def)
qed

lemma accepted_state:
  assumes "reject_event ops out now cx e s = (None, e1, s1)" "outsider out e s"
  shows "gs_deleted_cache (rs_groups s1) = gs_deleted_cache (rs_groups s) \<and>
    (gs_groups (rs_groups s1) = gs_groups (rs_groups s) \<or>
     (\<exists>gid url. gs_groups (rs_groups s1) = (gs_groups (rs_groups s))(gid \<mapsto> new_group url gid)))"
  using creation_accepted [OF assms] by (auto split: if_splits)

lemma accepted_state_ok:
  assumes "reject_event ops out now cx e s = (None, e1, s1)" "outsider out e s"
    and "state_ok (rs_groups s)"
  shows "state_ok (rs_groups s1)"
proof -
  have "groups_ok ((gs_groups (rs_groups s))(gid \<mapsto> new_group url gid))" for gid url
    using assms(3) group_ok_new by (intro groups_ok_upd) (simp_all add: state_ok_def)
  with accepted_state [OF assms(1,2)] assms(3) show ?thesis by (auto simp: state_ok_def)
qed

lemma accepted_indexes_ok:
  assumes "reject_event ops out now cx e s = (None, e1, s1)" "outsider out e s"
    and "indexes_ok (rs_groups s)"
  shows "indexes_ok (rs_groups s1)"
  unfolding indexes_ok_def
proof (intro allI impI)
  fix gid g assume g: "gs_groups (rs_groups s1) gid = Some g"
  show "index_ok g"
  proof (cases "gs_groups (rs_groups s) gid = Some g")
    case True
    with assms(3) show ?thesis unfolding indexes_ok_def by blast
  next
    case False
    with accepted_state [OF assms(1,2)] g obtain gid' url where "g = new_group url gid'"
      by (metis fun_upd_apply option.inject)
    then show ?thesis by (simp only: index_ok_new)
  qed
qed

lemma target_exists_groups:
  "gs_groups s' = gs_groups s \<Longrightarrow> target_exists s' e = target_exists s e"
  by (simp add: target_exists_def)

text \<open>
  C3. No event an outsider can send crashes its handler: in a well-formed state whose groups have
  taken fewer than \<open>2 ^ 31 - 1\<close> events, the pipeline ends in a refusal, a store failure, a
  duplicate or a success.
\<close>

theorem outsiders_cannot_crash:
  assumes ok: "state_ok (rs_groups s)" "indexes_ok (rs_groups s)" and o: "outsider out e s"
  shows "fst (handle_normal ops out now ords cx e s) \<noteq> Crashed"
proof
  obtain r bs s' where h: "handle_normal ops out now ords cx e s = (r, bs, s')" by (metis prod_cases3)
  assume "fst (handle_normal ops out now ords cx e s) = Crashed"
  with h have r: "r = Crashed" by simp
  obtain q e1 s1 where rej: "reject_event ops out now cx e s = (q, e1, s1)" by (metis prod_cases3)
  have "q = None" using h r rej by (cases q) (auto simp: handle_normal_def)
  with rej have acc: "reject_event ops out now cx e s = (None, e1, s1)" by simp
  from handle_normal_crashed [OF acc h [unfolded r]] obtain g2 where
    st: "(if is_regular (ev_kind e1) then store_event ops e1 (rs_groups s1)
          else replace_event ops e1 (rs_groups s1)) = (None, g2)"
    and p: "handle_event_saved ops (out_crypto out) now ords e1 g2 = (Panicked, bs, rs_groups s')"
    by blast
  have g2: "gs_groups g2 = gs_groups (rs_groups s1)" "gs_deleted_cache g2 = gs_deleted_cache (rs_groups s1)"
    using stored_state [OF st] by auto
  have "state_ok (rs_groups s1)"
    by (rule accepted_state_ok [OF acc o ok(1)])
  moreover have "indexes_ok (rs_groups s1)"
    by (rule accepted_indexes_ok [OF acc o ok(2)])
  ultimately have "state_ok g2" "indexes_ok g2" "target_exists g2 e1"
    using accepted_target_exists [OF acc o] g2(1)
    by (simp_all add: state_ok_parts [OF g2] target_exists_groups [OF g2(1)] indexes_ok_def)
  from process_returns [OF this, of ops "out_crypto out" now] handle_event_saved_state [OF p]
  show False by simp
qed

theorem outsiders_cannot_crash_witness:
  "fst (handle_normal slice_ops ex_outside 1000 (\<lambda>_. ([], [])) ex_context ex_remove ex_state) \<noteq> Crashed"
proof (rule outsiders_cannot_crash)
  show "state_ok (rs_groups ex_state)" using ex_groups_ok by simp
  show "indexes_ok (rs_groups ex_state)" using ex_group_of(3) by (simp add: indexes_ok_def)
  show "outsider ex_outside ex_remove ex_state" by (simp add: outsider_def ex_remove_def)
qed

lemma handle_normal_state_ok:
  assumes ok: "state_ok (rs_groups s)" and o: "outsider out e s"
    and h: "handle_normal ops out now ords cx e s = (r, bs, s')"
  shows "state_ok (rs_groups s')"
proof -
  obtain q e1 s1 where rej: "reject_event ops out now cx e s = (q, e1, s1)" by (metis prod_cases3)
  show ?thesis
  proof (cases q)
    case (Some x)
    with rej h have "s' = s1" by (simp add: handle_normal_def)
    moreover have "rs_groups s1 = rs_groups s"
      using rej Some refusal_frame by blast
    ultimately show ?thesis using ok by simp
  next
    case None
    with rej have acc: "reject_event ops out now cx e s = (None, e1, s1)" by simp
    have s1: "state_ok (rs_groups s1)"
      by (rule accepted_state_ok [OF acc o ok])
    from handle_normal_result [OF acc h] obtain err g2 where
      st: "(if is_regular (ev_kind e1) then store_event ops e1 (rs_groups s1)
          else replace_event ops e1 (rs_groups s1)) = (err, g2)"
      and rest: "rs_groups s' = g2 \<or>
        (\<exists>q. handle_event_saved ops (out_crypto out) now ords e1 g2 = (q, bs, rs_groups s'))" by blast
    have g2: "state_ok g2"
      using stored_state [OF st] s1 by (auto simp: state_ok_def intro: groups_ok_del)
    have "state_ok (rs_groups s')"
      if q: "handle_event_saved ops (out_crypto out) now ords e1 g2 = (q, bs, rs_groups s')" for q
    proof -
      have "state_ok (snd (snd (process_event ops (out_crypto out) now e1 g2)))"
        using g2 by (rule well_formed.inv_process) simp
      moreover note handle_event_saved_state [OF q]
      ultimately show ?thesis
        using state_ok_parts [of "rs_groups s'" "snd (snd (process_event ops (out_crypto out) now e1 g2))"]
        by blast
    qed
    with rest g2 show ?thesis by blast
  qed
qed

text \<open>
  C1. Every state outsiders can bring the relay to is well-formed, if it started from one: groups
  filed under their ids, members finitely many with no role twice, no child listed twice.
\<close>

theorem reachable_states_ok:
  assumes "relay_reaches ops out s0 s" "state_ok (rs_groups s0)"
  shows "state_ok (rs_groups s)"
  using assms by (induction rule: relay_reaches.induct) (blast intro: handle_normal_state_ok)+

theorem reachable_states_ok_witness:
  "state_ok (rs_groups (snd (snd
     (handle_normal slice_ops ex_outside 1000 (\<lambda>_. ([], [])) ex_context ex_remove ex_state))))"
proof (rule reachable_states_ok)
  obtain r bs s' where h: "handle_normal slice_ops ex_outside 1000 (\<lambda>_. ([], [])) ex_context
      ex_remove ex_state = (r, bs, s')" by (metis prod_cases3)
  have "outsider ex_outside ex_remove ex_state" by (simp add: outsider_def ex_remove_def)
  from reach_event [OF reach_start this h] h
  show "relay_reaches slice_ops ex_outside ex_state (snd (snd (handle_normal slice_ops ex_outside 1000
      (\<lambda>_. ([], [])) ex_context ex_remove ex_state)))" by simp
  show "state_ok (rs_groups ex_state)" using ex_groups_ok by simp
qed

end
