(* ===== verification/Dispatch.thy ===== *)
theory Dispatch
  imports Nostr
begin

text \<open>
  Who listens for what: khatru's dispatcher (\<^verbatim>\<open>khatru/listener.go\<close>) with its indexes by author and by
  kind, over the sorted slices of \<^verbatim>\<open>lib/set/sliceset.go\<close>. The locale \<open>subscription_index\<close> is what the
  connections rely on; the dispatcher is proved to keep its laws. A connection is a number, nil is
  \<open>None\<close>.
\<close>

subsection \<open>Sets as sorted slices\<close>

definition set_add :: "'a::linorder \<Rightarrow> 'a list \<Rightarrow> 'a list" where
  "set_add x xs =
     (case binary_search xs x of (i, exists) \<Rightarrow> if exists then xs else take i xs @ x # drop i xs)"

definition set_remove :: "'a::linorder \<Rightarrow> 'a list \<Rightarrow> 'a list" where
  "set_remove x xs =
     (case binary_search xs x of (i, exists) \<Rightarrow> if exists then take i xs @ drop (Suc i) xs else xs)"

definition set_has :: "'a::linorder list \<Rightarrow> 'a \<Rightarrow> bool" where
  "set_has xs x = snd (binary_search xs x)"

abbreviation ascending :: "'a::linorder list \<Rightarrow> bool" where
  "ascending \<equiv> sorted_wrt (<)"

lemma binary_search_at:
  assumes "ascending xs"
  shows "binary_search xs x = (length (takeWhile (\<lambda>y. y < x) xs), x \<in> set xs)"
proof -
  have s: "sorted xs" using assms by (simp add: strict_sorted_iff)
  with binary_search_mem [OF s, of x] show ?thesis
    by (simp add: binary_search_def Let_def bsearch_takeWhile partitioned_sorted)
qed

lemma ascending_split:
  assumes "ascending xs"
  shows "xs = takeWhile (\<lambda>y. y < x) xs @ (if x \<in> set xs then [x] else []) @
    filter (\<lambda>y. x < y) xs"
  using assms
proof (induction xs)
  case (Cons a xs)
  consider "a < x" | "a = x" | "x < a" by fastforce
  then show ?case
  proof cases
    case 1
    with Cons show ?thesis by auto
  next
    case 2
    with Cons.prems have "\<forall>y \<in> set xs. x < y" by auto
    with 2 show ?thesis by (auto simp: filter_id_conv)
  next
    case 3
    with Cons.prems have "\<forall>y \<in> set xs. x < y" by force
    with 3 show ?thesis by (auto simp: filter_id_conv)
  qed
qed simp

lemma set_has_mem [simp]: "ascending xs \<Longrightarrow> set_has xs x \<longleftrightarrow> x \<in> set xs"
  by (simp add: set_has_def binary_search_at)

lemma set_add_split:
  assumes "ascending xs"
  shows "set_add x xs = takeWhile (\<lambda>y. y < x) xs @ x # filter (\<lambda>y. x < y) xs"
proof -
  let ?b = "takeWhile (\<lambda>y. y < x) xs" and ?a = "filter (\<lambda>y. x < y) xs"
  have eq: "xs = ?b @ (if x \<in> set xs then [x] else []) @ ?a" by (rule ascending_split [OF assms])
  show ?thesis
  proof (cases "x \<in> set xs")
    case True
    with eq assms show ?thesis by (simp add: set_add_def binary_search_at)
  next
    case False
    with eq have "xs = ?b @ ?a" by simp
    then have "take (length ?b) xs = ?b" "drop (length ?b) xs = ?a"
      by (metis append_eq_conv_conj)+
    with False assms show ?thesis by (simp add: set_add_def binary_search_at)
  qed
qed

lemma set_remove_split:
  assumes "ascending xs"
  shows "set_remove x xs = takeWhile (\<lambda>y. y < x) xs @ filter (\<lambda>y. x < y) xs"
proof -
  let ?b = "takeWhile (\<lambda>y. y < x) xs" and ?a = "filter (\<lambda>y. x < y) xs"
  have eq: "xs = ?b @ (if x \<in> set xs then [x] else []) @ ?a" by (rule ascending_split [OF assms])
  show ?thesis
  proof (cases "x \<in> set xs")
    case True
    with eq have "xs = ?b @ x # ?a" by simp
    then have "take (length ?b) xs = ?b" "drop (Suc (length ?b)) xs = ?a"
      by (metis append_eq_conv_conj, metis append_eq_conv_conj drop_Suc list.sel(3) tl_drop)
    with True assms show ?thesis by (simp add: set_remove_def binary_search_at)
  next
    case False
    with eq assms show ?thesis by (simp add: set_remove_def binary_search_at)
  qed
qed

lemma below_mem: "ascending xs \<Longrightarrow> set (takeWhile (\<lambda>y. y < x) xs) = {y \<in> set xs. y < x}"
proof (induction xs)
  case (Cons a xs)
  then show ?case by (cases "a < x") force+
qed simp

lemma ascending_below: "ascending xs \<Longrightarrow> ascending (takeWhile (\<lambda>y. y < x) xs)"
  by (metis sorted_wrt_append takeWhile_dropWhile_id)

lemma set_add_mem [simp]: "ascending xs \<Longrightarrow> set (set_add x xs) = insert x (set xs)"
  by (auto simp: set_add_split below_mem)

lemma set_remove_mem [simp]: "ascending xs \<Longrightarrow> set (set_remove x xs) = set xs - {x}"
  by (auto simp: set_remove_split below_mem)

lemma ascending_add [simp]: "ascending xs \<Longrightarrow> ascending (set_add x xs)"
  by (auto simp: set_add_split sorted_wrt_append sorted_wrt_filter ascending_below below_mem)

lemma ascending_remove [simp]: "ascending xs \<Longrightarrow> ascending (set_remove x xs)"
  by (auto simp: set_remove_split sorted_wrt_append sorted_wrt_filter ascending_below below_mem)

lemma ascending_distinct: "ascending xs \<Longrightarrow> distinct xs"
  by (simp add: strict_sorted_iff)

subsection \<open>Subscriptions\<close>

record subscription =
  sb_id :: string
  sb_filter :: nfilter
  sb_ws :: "nat option"

definition zero_subscription :: subscription where
  "zero_subscription = \<lparr>sb_id = [], sb_filter = empty_filter, sb_ws = None\<rparr>"

definition matches_time :: "nfilter \<Rightarrow> event \<Rightarrow> bool" where
  "matches_time f e =
     (if f_since f \<noteq> 0 \<and> ev_created_at e < f_since f then False
      else if f_until f \<noteq> 0 \<and> f_until f < ev_created_at e then False
      else True)"

definition matches_time_and_tags :: "nfilter \<Rightarrow> event \<Rightarrow> bool" where
  "matches_time_and_tags f e =
     (if \<not> matches_time f e then False
      else list_all (\<lambda>(k, vs). tags_contains_any (ev_tags e) k vs) (f_tags f))"

text \<open>What a subscription asks for; ids are not compared, for a filter with ids never listens.\<close>

definition listens_for :: "nfilter \<Rightarrow> event \<Rightarrow> bool" where
  "listens_for f e = filter_matches (f\<lparr>f_ids := None\<rparr>) e"

lemma listens_for_parts:
  "listens_for f e \<longleftrightarrow> in_opt (ev_kind e) (f_kinds f) \<and> in_opt (ev_pubkey e) (f_authors f) \<and>
     matches_time_and_tags f e"
  by (auto simp: listens_for_def filter_matches_def matches_ignoring_timestamps_def in_opt_def
      matches_time_and_tags_def matches_time_def)

subsection \<open>The interface\<close>

locale subscription_index =
  fixes empty :: 'd
    and add :: "subscription \<Rightarrow> 'd \<Rightarrow> nat \<times> 'd"
    and remove :: "nat \<Rightarrow> 'd \<Rightarrow> nfilter \<times> 'd"
    and candidates :: "'d \<Rightarrow> event \<Rightarrow> subscription list"
    and subs :: "'d \<Rightarrow> nat \<rightharpoonup> subscription"
    and inv :: "'d \<Rightarrow> bool"
  assumes inv_empty: "inv empty"
    and subs_empty: "subs empty = Map.empty"
    and add_ok: "inv d \<Longrightarrow> add s d = (i, d') \<Longrightarrow> inv d' \<and> subs d i = None \<and> subs d' = (subs d)(i \<mapsto> s)"
    and remove_ok: "inv d \<Longrightarrow> inv (snd (remove i d)) \<and> subs (snd (remove i d)) = (subs d)(i := None)"
    and candidates_exact:
      "inv d \<Longrightarrow> \<exists>is. distinct is \<and> candidates d e = map (\<lambda>i. the (subs d i)) is \<and>
         set is = {i. \<exists>s. subs d i = Some s \<and> listens_for (sb_filter s) e}"
begin

lemma candidate_listens:
  "inv d \<Longrightarrow> s \<in> set (candidates d e) \<Longrightarrow> listens_for (sb_filter s) e \<and> (\<exists>i. subs d i = Some s)"
  using candidates_exact [of d e] by force

lemma listener_candidate:
  "inv d \<Longrightarrow> subs d i = Some s \<Longrightarrow> listens_for (sb_filter s) e \<Longrightarrow> s \<in> set (candidates d e)"
  using candidates_exact [of d e] by force

text \<open>Removing several subscriptions, one after the other.\<close>

lemma remove_all:
  "inv d \<Longrightarrow> inv (fold (\<lambda>i d. snd (remove i d)) is d) \<and>
   subs (fold (\<lambda>i d. snd (remove i d)) is d) = (subs d) |` (- set is)"
proof (induction "is" arbitrary: d)
  case (Cons i "is")
  from remove_ok [OF Cons.prems, of i]
  have "inv (snd (remove i d))" "subs (snd (remove i d)) = (subs d)(i := None)" by auto
  with Cons.IH [of "snd (remove i d)"] show ?case
    by (auto simp: restrict_map_def fun_eq_iff)
qed (simp add: restrict_map_def)

end

subsection \<open>The dispatcher\<close>

record dispatcher =
  dp_serial :: nat
  dp_subs :: "nat \<rightharpoonup> subscription"
  dp_by_author :: "pubkey \<rightharpoonup> nat list"
  dp_by_kind :: "kind \<rightharpoonup> nat list"
  dp_tags :: "nat list"
  dp_nothing :: "nat list"

definition new_dispatcher :: dispatcher where
  "new_dispatcher = \<lparr>dp_serial = 0, dp_subs = Map.empty, dp_by_author = Map.empty,
     dp_by_kind = Map.empty, dp_tags = [], dp_nothing = []\<rparr>"

definition ids_of :: "('k \<rightharpoonup> nat list) \<Rightarrow> 'k \<Rightarrow> nat list" where
  "ids_of m k = (case m k of None \<Rightarrow> [] | Some s \<Rightarrow> s)"

fun index_add :: "'k list \<Rightarrow> nat \<Rightarrow> ('k \<rightharpoonup> nat list) \<Rightarrow> ('k \<rightharpoonup> nat list)" where
  "index_add [] i m = m"
| "index_add (k # ks) i m = index_add ks i (m(k \<mapsto> set_add i (ids_of m k)))"

text \<open>An index entry that becomes empty is dropped.\<close>

fun index_remove :: "'k list \<Rightarrow> nat \<Rightarrow> ('k \<rightharpoonup> nat list) \<Rightarrow> ('k \<rightharpoonup> nat list)" where
  "index_remove [] i m = m"
| "index_remove (k # ks) i m =
     (case m k of
        None \<Rightarrow> index_remove ks i m
      | Some s \<Rightarrow>
          let s' = set_remove i s
          in index_remove ks i (m(k := if length s' = 0 then None else Some s')))"

definition add_subscription :: "subscription \<Rightarrow> dispatcher \<Rightarrow> nat \<times> dispatcher" where
  "add_subscription s d =
     (let i = dp_serial d + 1;
          d1 = d\<lparr>dp_serial := i, dp_subs := (dp_subs d)(i \<mapsto> s)\<rparr>;
          d2 = (case f_authors (sb_filter s) of
                  None \<Rightarrow> d1
                | Some as \<Rightarrow> d1\<lparr>dp_by_author := index_add as i (dp_by_author d1)\<rparr>);
          d3 = (case f_kinds (sb_filter s) of
                  None \<Rightarrow> d2
                | Some ks \<Rightarrow> d2\<lparr>dp_by_kind := index_add ks i (dp_by_kind d2)\<rparr>);
          indexed = (f_authors (sb_filter s) \<noteq> None \<or> f_kinds (sb_filter s) \<noteq> None)
      in (i, if indexed then d3
             else if f_tags (sb_filter s) \<noteq> [] then d3\<lparr>dp_tags := set_add i (dp_tags d3)\<rparr>
             else d3\<lparr>dp_nothing := set_add i (dp_nothing d3)\<rparr>))"

definition load_subscription :: "dispatcher \<Rightarrow> nat \<Rightarrow> subscription" where
  "load_subscription d i = (case dp_subs d i of None \<Rightarrow> zero_subscription | Some s \<Rightarrow> s)"

definition remove_subscription :: "nat \<Rightarrow> dispatcher \<Rightarrow> nfilter \<times> dispatcher" where
  "remove_subscription i d =
     (let f = sb_filter (load_subscription d i);
          d1 = (case f_authors f of
                  None \<Rightarrow> d
                | Some as \<Rightarrow> d\<lparr>dp_by_author := index_remove as i (dp_by_author d)\<rparr>);
          d2 = (case f_kinds f of
                  None \<Rightarrow> d1
                | Some ks \<Rightarrow> d1\<lparr>dp_by_kind := index_remove ks i (dp_by_kind d1)\<rparr>);
          indexed = (f_authors f \<noteq> None \<or> f_kinds f \<noteq> None);
          d3 = (if indexed then d2
                else if f_tags f \<noteq> [] then d2\<lparr>dp_tags := set_remove i (dp_tags d2)\<rparr>
                else d2\<lparr>dp_nothing := set_remove i (dp_nothing d2)\<rparr>)
      in (f, d3\<lparr>dp_subs := (dp_subs d3)(i := None)\<rparr>))"

definition candidate_ids :: "dispatcher \<Rightarrow> event \<Rightarrow> nat list" where
  "candidate_ids d e =
     (let flt = (\<lambda>i. sb_filter (load_subscription d i));
          fits = (\<lambda>i. matches_time_and_tags (flt i) e)
      in (case (dp_by_author d (ev_pubkey e), dp_by_kind d (ev_kind e)) of
            (Some as, Some ks) \<Rightarrow>
              filter (\<lambda>i. (set_has ks i \<or> f_kinds (flt i) = None) \<and> fits i) as @
              filter (\<lambda>i. f_authors (flt i) = None \<and> fits i) ks
          | (Some as, None) \<Rightarrow> filter (\<lambda>i. f_kinds (flt i) = None \<and> fits i) as
          | (None, Some ks) \<Rightarrow> filter (\<lambda>i. f_authors (flt i) = None \<and> fits i) ks
          | (None, None) \<Rightarrow> []) @
         (if length (ev_tags e) > 0 then filter fits (dp_tags d) else []) @
         filter (\<lambda>i. matches_time (flt i) e) (dp_nothing d))"

definition candidates :: "dispatcher \<Rightarrow> event \<Rightarrow> subscription list" where
  "candidates d e = map (load_subscription d) (candidate_ids d e)"

subsection \<open>What the indexes hold\<close>

definition files_exactly ::
  "('k \<Rightarrow> nat list) \<Rightarrow> (subscription \<Rightarrow> 'k set) \<Rightarrow> (nat \<rightharpoonup> subscription) \<Rightarrow> bool" where
  "files_exactly idx keys subs \<longleftrightarrow>
     (\<forall>k. ascending (idx k) \<and> set (idx k) = {i. \<exists>s. subs i = Some s \<and> k \<in> keys s})"

definition opt_set :: "'a list option \<Rightarrow> 'a set" where
  "opt_set xs = (case xs of None \<Rightarrow> {} | Some l \<Rightarrow> set l)"

definition unindexed :: "bool \<Rightarrow> subscription \<Rightarrow> unit set" where
  "unindexed tagged s =
     {_. f_authors (sb_filter s) = None \<and> f_kinds (sb_filter s) = None \<and> (f_tags (sb_filter s) \<noteq> []) = tagged}"

definition dispatcher_ok :: "dispatcher \<Rightarrow> bool" where
  "dispatcher_ok d \<longleftrightarrow>
     (\<forall>i > dp_serial d. dp_subs d i = None) \<and>
     files_exactly (ids_of (dp_by_author d)) (\<lambda>s. opt_set (f_authors (sb_filter s))) (dp_subs d) \<and>
     files_exactly (ids_of (dp_by_kind d)) (\<lambda>s. opt_set (f_kinds (sb_filter s))) (dp_subs d) \<and>
     files_exactly (\<lambda>_. dp_tags d) (unindexed True) (dp_subs d) \<and>
     files_exactly (\<lambda>_. dp_nothing d) (unindexed False) (dp_subs d)"

lemma files_add:
  assumes "files_exactly idx keys subs" "subs i = None"
    and "\<And>k. idx' k = (if k \<in> keys s then set_add i (idx k) else idx k)"
  shows "files_exactly idx' keys (subs(i \<mapsto> s))"
  unfolding files_exactly_def
proof (intro allI conjI)
  fix k
  from assms(1) have idx: "ascending (idx k)" "set (idx k) = {i. \<exists>s. subs i = Some s \<and> k \<in> keys s}"
    unfolding files_exactly_def by auto
  then show "ascending (idx' k)" by (simp add: assms(3))
  from idx assms(2) show "set (idx' k) = {j. \<exists>t. (subs(i \<mapsto> s)) j = Some t \<and> k \<in> keys t}"
    by (auto simp: assms(3))
qed

lemma files_remove:
  assumes "files_exactly idx keys subs"
    and "\<And>k. idx' k = (if \<exists>s. subs i = Some s \<and> k \<in> keys s then set_remove i (idx k) else idx k)"
  shows "files_exactly idx' keys (subs(i := None))"
  unfolding files_exactly_def
proof (intro allI conjI)
  fix k
  from assms(1) have idx: "ascending (idx k)" "set (idx k) = {i. \<exists>s. subs i = Some s \<and> k \<in> keys s}"
    unfolding files_exactly_def by auto
  then show "ascending (idx' k)" by (simp add: assms(2))
  from idx show "set (idx' k) = {j. \<exists>t. (subs(i := None)) j = Some t \<and> k \<in> keys t}"
    by (auto simp: assms(2))
qed

lemma set_add_again: "ascending xs \<Longrightarrow> set_add i (set_add i xs) = set_add i xs"
  unfolding set_add_def [of i "set_add i xs"] by (simp add: binary_search_at)

lemma set_remove_absent: "ascending xs \<Longrightarrow> i \<notin> set xs \<Longrightarrow> set_remove i xs = xs"
  by (simp add: set_remove_def binary_search_at)

lemma ids_of_index_add:
  "\<forall>k. ascending (ids_of m k) \<Longrightarrow>
   ids_of (index_add ks i m) k = (if k \<in> set ks then set_add i (ids_of m k) else ids_of m k)"
proof (induction ks arbitrary: m)
  case (Cons a ks)
  let ?m = "m(a \<mapsto> set_add i (ids_of m a))"
  have ids: "ids_of ?m k = (if k = a then set_add i (ids_of m a) else ids_of m k)" for k
    by (simp add: ids_of_def)
  with Cons.prems have "\<forall>k. ascending (ids_of ?m k)" by simp
  note IH = Cons.IH [OF this, unfolded ids]
  show ?case using Cons.prems unfolding index_add.simps IH by (auto simp: set_add_again)
qed simp

lemma ids_of_index_remove:
  "\<forall>k. ascending (ids_of m k) \<Longrightarrow>
   ids_of (index_remove ks i m) k = (if k \<in> set ks then set_remove i (ids_of m k) else ids_of m k)"
proof (induction ks arbitrary: m)
  case (Cons a ks)
  show ?case
  proof (cases "m a")
    case None
    then have "ids_of m a = []" by (simp add: ids_of_def)
    then have "set_remove i (ids_of m a) = ids_of m a" by (simp add: set_remove_absent)
    with None Cons show ?thesis by simp
  next
    case (Some s)
    let ?m = "m(a := if length (set_remove i s) = 0 then None else Some (set_remove i s))"
    have ids: "ids_of ?m k = (if k = a then set_remove i (ids_of m a) else ids_of m k)" for k
      by (simp add: ids_of_def Some)
    with Cons.prems have "\<forall>k. ascending (ids_of ?m k)" by simp
    note IH = Cons.IH [OF this, unfolded ids]
    have eq: "index_remove (a # ks) i m = index_remove ks i ?m" by (simp add: Some Let_def)
    show ?thesis using Cons.prems unfolding eq IH by (auto simp: set_remove_absent)
  qed
qed simp

lemma dispatcher_okD:
  assumes "dispatcher_ok d"
  shows "\<And>i. dp_serial d < i \<Longrightarrow> dp_subs d i = None"
    "files_exactly (ids_of (dp_by_author d)) (\<lambda>s. opt_set (f_authors (sb_filter s))) (dp_subs d)"
    "files_exactly (ids_of (dp_by_kind d)) (\<lambda>s. opt_set (f_kinds (sb_filter s))) (dp_subs d)"
    "files_exactly (\<lambda>_. dp_tags d) (unindexed True) (dp_subs d)"
    "files_exactly (\<lambda>_. dp_nothing d) (unindexed False) (dp_subs d)"
  using assms by (auto simp: dispatcher_ok_def)

lemma files_ascending: "files_exactly idx keys subs \<Longrightarrow> \<forall>k. ascending (idx k)"
  by (simp add: files_exactly_def)

lemma new_dispatcher_ok: "dispatcher_ok new_dispatcher"
  by (simp add: dispatcher_ok_def new_dispatcher_def files_exactly_def ids_of_def)

lemma added_parts:
  assumes "add_subscription s d = (i, d')"
  shows "i = dp_serial d + 1" "dp_serial d' = i" "dp_subs d' = (dp_subs d)(i \<mapsto> s)"
    "dp_by_author d' = (case f_authors (sb_filter s) of None \<Rightarrow> dp_by_author d
       | Some as \<Rightarrow> index_add as i (dp_by_author d))"
    "dp_by_kind d' = (case f_kinds (sb_filter s) of None \<Rightarrow> dp_by_kind d
       | Some ks \<Rightarrow> index_add ks i (dp_by_kind d))"
    "dp_tags d' = (if unindexed True s = {} then dp_tags d else set_add i (dp_tags d))"
    "dp_nothing d' = (if unindexed False s = {} then dp_nothing d else set_add i (dp_nothing d))"
  using assms
  by (auto simp: add_subscription_def Let_def unindexed_def split: option.splits if_splits)

lemma removed_parts:
  fixes i d
  defines "f \<equiv> sb_filter (load_subscription d i)" and "d' \<equiv> snd (remove_subscription i d)"
  shows "dp_serial d' = dp_serial d" "dp_subs d' = (dp_subs d)(i := None)"
    "dp_by_author d' = (case f_authors f of None \<Rightarrow> dp_by_author d
       | Some as \<Rightarrow> index_remove as i (dp_by_author d))"
    "dp_by_kind d' = (case f_kinds f of None \<Rightarrow> dp_by_kind d
       | Some ks \<Rightarrow> index_remove ks i (dp_by_kind d))"
    "dp_tags d' = (if unindexed True (load_subscription d i) = {} then dp_tags d else set_remove i (dp_tags d))"
    "dp_nothing d' =
       (if unindexed False (load_subscription d i) = {} then dp_nothing d else set_remove i (dp_nothing d))"
  by (auto simp: f_def d'_def remove_subscription_def Let_def unindexed_def split: option.splits)

lemma unindexed_mem: "u \<in> unindexed b s \<longleftrightarrow> unindexed b s \<noteq> {}"
  by (auto simp: unindexed_def)

lemma add_subscription_ok:
  assumes ok: "dispatcher_ok d" and a: "add_subscription s d = (i, d')"
  shows "dispatcher_ok d' \<and> dp_subs d i = None \<and> dp_subs d' = (dp_subs d)(i \<mapsto> s)"
proof -
  note parts = added_parts [OF a]
  have new: "dp_subs d i = None" using dispatcher_okD(1) [OF ok, of i] parts(1) by simp
  have later: "dp_subs d' j = None" if "dp_serial d' < j" for j
    using that dispatcher_okD(1) [OF ok, of j] parts(1-3) by simp
  have authors: "ids_of (dp_by_author d') k =
      (if k \<in> opt_set (f_authors (sb_filter s)) then set_add i (ids_of (dp_by_author d) k)
       else ids_of (dp_by_author d) k)" for k
    using ids_of_index_add [OF files_ascending [OF dispatcher_okD(2) [OF ok]]]
    by (simp add: parts(4) opt_set_def split: option.splits)
  have kinds: "ids_of (dp_by_kind d') k =
      (if k \<in> opt_set (f_kinds (sb_filter s)) then set_add i (ids_of (dp_by_kind d) k)
       else ids_of (dp_by_kind d) k)" for k
    using ids_of_index_add [OF files_ascending [OF dispatcher_okD(3) [OF ok]]]
    by (simp add: parts(5) opt_set_def split: option.splits)
  have "files_exactly (ids_of (dp_by_author d')) (\<lambda>s. opt_set (f_authors (sb_filter s))) (dp_subs d')"
    unfolding parts(3) by (rule files_add [OF dispatcher_okD(2) [OF ok] new authors])
  moreover have "files_exactly (ids_of (dp_by_kind d')) (\<lambda>s. opt_set (f_kinds (sb_filter s))) (dp_subs d')"
    unfolding parts(3) by (rule files_add [OF dispatcher_okD(3) [OF ok] new kinds])
  moreover have "files_exactly (\<lambda>_. dp_tags d') (unindexed True) (dp_subs d')"
    unfolding parts(3)
    by (rule files_add [OF dispatcher_okD(4) [OF ok] new]) (simp add: parts(6) unindexed_mem)
  moreover have "files_exactly (\<lambda>_. dp_nothing d') (unindexed False) (dp_subs d')"
    unfolding parts(3)
    by (rule files_add [OF dispatcher_okD(5) [OF ok] new]) (simp add: parts(7) unindexed_mem)
  ultimately have "dispatcher_ok d'" using later by (simp add: dispatcher_ok_def)
  with new parts(3) show ?thesis by blast
qed

text \<open>An id that is not subscribed is on no list.\<close>

lemma remove_subscription_ok:
  assumes ok: "dispatcher_ok d"
  shows "dispatcher_ok (snd (remove_subscription i d)) \<and>
    dp_subs (snd (remove_subscription i d)) = (dp_subs d)(i := None)"
proof -
  let ?d = "snd (remove_subscription i d)"
  note parts = removed_parts [where d = d and i = i]
  have absent: "i \<notin> set (idx k)" if "files_exactly idx keys (dp_subs d)" "dp_subs d i = None"
    for idx :: "'k \<Rightarrow> nat list" and keys k
    using that by (auto simp: files_exactly_def)
  have step: "files_exactly idx' keys ((dp_subs d)(i := None))"
    if f: "files_exactly idx keys (dp_subs d)"
      and idx': "\<And>k. idx' k = (if k \<in> keys (load_subscription d i) then set_remove i (idx k) else idx k)"
    for idx idx' :: "'k \<Rightarrow> nat list" and keys
  proof (rule files_remove [OF f])
    fix k
    show "idx' k = (if \<exists>s. dp_subs d i = Some s \<and> k \<in> keys s then set_remove i (idx k) else idx k)"
    proof (cases "dp_subs d i")
      case None
      have "ascending (idx k)" using files_ascending [OF f] by blast
      then have "set_remove i (idx k) = idx k"
        using absent [OF f None] by (rule set_remove_absent)
      with None show ?thesis by (simp add: idx')
    next
      case (Some s)
      then show ?thesis by (simp add: idx' load_subscription_def)
    qed
  qed
  have authors: "ids_of (dp_by_author ?d) k =
      (if k \<in> opt_set (f_authors (sb_filter (load_subscription d i)))
       then set_remove i (ids_of (dp_by_author d) k) else ids_of (dp_by_author d) k)" for k
    using ids_of_index_remove [OF files_ascending [OF dispatcher_okD(2) [OF ok]]]
    by (simp add: parts(3) opt_set_def split: option.splits)
  have kinds: "ids_of (dp_by_kind ?d) k =
      (if k \<in> opt_set (f_kinds (sb_filter (load_subscription d i)))
       then set_remove i (ids_of (dp_by_kind d) k) else ids_of (dp_by_kind d) k)" for k
    using ids_of_index_remove [OF files_ascending [OF dispatcher_okD(3) [OF ok]]]
    by (simp add: parts(4) opt_set_def split: option.splits)
  have "files_exactly (ids_of (dp_by_author ?d)) (\<lambda>s. opt_set (f_authors (sb_filter s))) (dp_subs ?d)"
    unfolding parts(2) by (rule step [OF dispatcher_okD(2) [OF ok] authors])
  moreover have "files_exactly (ids_of (dp_by_kind ?d)) (\<lambda>s. opt_set (f_kinds (sb_filter s))) (dp_subs ?d)"
    unfolding parts(2) by (rule step [OF dispatcher_okD(3) [OF ok] kinds])
  moreover have "files_exactly (\<lambda>_. dp_tags ?d) (unindexed True) (dp_subs ?d)"
    unfolding parts(2) by (rule step [OF dispatcher_okD(4) [OF ok]]) (simp add: parts(5) unindexed_mem)
  moreover have "files_exactly (\<lambda>_. dp_nothing ?d) (unindexed False) (dp_subs ?d)"
    unfolding parts(2) by (rule step [OF dispatcher_okD(5) [OF ok]]) (simp add: parts(6) unindexed_mem)
  moreover have "dp_subs ?d j = None" if "dp_serial ?d < j" for j
    using that dispatcher_okD(1) [OF ok, of j] by (simp add: parts(1,2))
  ultimately show ?thesis by (simp add: dispatcher_ok_def parts(2))
qed

subsection \<open>The candidates are exactly the listeners\<close>

definition indexed_ids :: "dispatcher \<Rightarrow> event \<Rightarrow> nat list" where
  "indexed_ids d e =
     (let flt = (\<lambda>i. sb_filter (load_subscription d i));
          as = ids_of (dp_by_author d) (ev_pubkey e); ks = ids_of (dp_by_kind d) (ev_kind e)
      in filter (\<lambda>i. (i \<in> set ks \<or> f_kinds (flt i) = None) \<and> matches_time_and_tags (flt i) e) as @
         filter (\<lambda>i. f_authors (flt i) = None \<and> matches_time_and_tags (flt i) e) ks)"

lemma candidate_ids_parts:
  assumes "\<forall>k. ascending (ids_of (dp_by_kind d) k)"
  shows "candidate_ids d e = indexed_ids d e @
    (if length (ev_tags e) > 0 then
       filter (\<lambda>i. matches_time_and_tags (sb_filter (load_subscription d i)) e) (dp_tags d) else []) @
    filter (\<lambda>i. matches_time (sb_filter (load_subscription d i)) e) (dp_nothing d)"
proof -
  have "ascending ks" if "dp_by_kind d (ev_kind e) = Some ks" for ks
    using assms [rule_format, of "ev_kind e"] that by (simp add: ids_of_def)
  then show ?thesis
    by (auto simp: candidate_ids_def indexed_ids_def ids_of_def Let_def split: option.splits
        intro!: filter_cong)
qed

lemma untagged_event: "f_tags f \<noteq> [] \<Longrightarrow> ev_tags e = [] \<Longrightarrow> \<not> matches_time_and_tags f e"
  by (cases "f_tags f") (auto simp: matches_time_and_tags_def)

lemma untagged_filter: "f_tags f = [] \<Longrightarrow> matches_time_and_tags f e = matches_time f e"
  by (simp add: matches_time_and_tags_def)

lemma dispatcher_filed:
  assumes ok: "dispatcher_ok d"
  shows "i \<in> set (ids_of (dp_by_author d) a) \<longleftrightarrow>
      (\<exists>s. dp_subs d i = Some s \<and> a \<in> opt_set (f_authors (sb_filter s)))"
    "i \<in> set (ids_of (dp_by_kind d) k) \<longleftrightarrow>
      (\<exists>s. dp_subs d i = Some s \<and> k \<in> opt_set (f_kinds (sb_filter s)))"
    "i \<in> set (dp_tags d) \<longleftrightarrow> (\<exists>s. dp_subs d i = Some s \<and> f_authors (sb_filter s) = None \<and>
      f_kinds (sb_filter s) = None \<and> f_tags (sb_filter s) \<noteq> [])"
    "i \<in> set (dp_nothing d) \<longleftrightarrow> (\<exists>s. dp_subs d i = Some s \<and> f_authors (sb_filter s) = None \<and>
      f_kinds (sb_filter s) = None \<and> f_tags (sb_filter s) = [])"
  using dispatcher_okD(2-5) [OF ok] by (auto simp: files_exactly_def unindexed_def)

lemma dispatcher_distinct:
  assumes ok: "dispatcher_ok d"
  shows "distinct (ids_of (dp_by_author d) a)" "distinct (ids_of (dp_by_kind d) k)"
    "distinct (dp_tags d)" "distinct (dp_nothing d)"
  using dispatcher_okD(2-5) [OF ok] by (auto simp: files_exactly_def ascending_distinct)

lemma opt_set_iff: "x \<in> opt_set xs \<longleftrightarrow> xs \<noteq> None \<and> in_opt x xs"
  by (auto simp: opt_set_def in_opt_def split: option.splits)

lemma in_opt_None [simp]: "in_opt x None"
  by (simp add: in_opt_def)

lemma candidate_ids_mem:
  assumes ok: "dispatcher_ok d"
  shows "i \<in> set (candidate_ids d e) \<longleftrightarrow>
    (\<exists>s. dp_subs d i = Some s \<and> listens_for (sb_filter s) e)"
proof (cases "dp_subs d i")
  case None
  with dispatcher_filed [OF ok] show ?thesis
    by (auto simp: candidate_ids_parts [OF files_ascending [OF dispatcher_okD(3) [OF ok]]] indexed_ids_def)
next
  case (Some s)
  then have l: "load_subscription d i = s" by (simp add: load_subscription_def)
  let ?f = "sb_filter s"
  have "i \<in> set (candidate_ids d e) \<longleftrightarrow>
      (ev_pubkey e \<in> opt_set (f_authors ?f) \<and> (ev_kind e \<in> opt_set (f_kinds ?f) \<or> f_kinds ?f = None) \<and>
         matches_time_and_tags ?f e) \<or>
      (ev_kind e \<in> opt_set (f_kinds ?f) \<and> f_authors ?f = None \<and> matches_time_and_tags ?f e) \<or>
      (ev_tags e \<noteq> [] \<and> f_authors ?f = None \<and> f_kinds ?f = None \<and> f_tags ?f \<noteq> [] \<and>
         matches_time_and_tags ?f e) \<or>
      (f_authors ?f = None \<and> f_kinds ?f = None \<and> f_tags ?f = [] \<and> matches_time ?f e)"
    by (auto simp: candidate_ids_parts [OF files_ascending [OF dispatcher_okD(3) [OF ok]]]
        indexed_ids_def dispatcher_filed [OF ok] Some l)
  also have "\<dots> \<longleftrightarrow> listens_for ?f e"
    using untagged_event [of ?f e] untagged_filter [of ?f e]
    by (cases "f_authors ?f"; cases "f_kinds ?f") (auto simp: listens_for_parts opt_set_iff)
  finally show ?thesis using Some by simp
qed

lemma candidate_ids_distinct:
  assumes ok: "dispatcher_ok d" shows "distinct (candidate_ids d e)"
proof -
  have load: "load_subscription d i = s" if "dp_subs d i = Some s" for i s
    using that by (simp add: load_subscription_def)
  have "distinct (indexed_ids d e)"
    using dispatcher_distinct [OF ok] dispatcher_filed [OF ok]
    by (fastforce simp: indexed_ids_def Let_def load opt_set_def)
  moreover have "set (indexed_ids d e) \<inter> set (dp_tags d) = {}" "set (indexed_ids d e) \<inter> set (dp_nothing d) = {}"
    using dispatcher_filed [OF ok] by (fastforce simp: indexed_ids_def Let_def opt_set_def)+
  moreover have "set (dp_tags d) \<inter> set (dp_nothing d) = {}"
    using dispatcher_filed [OF ok] by fastforce
  ultimately show ?thesis
    using dispatcher_distinct(3,4) [OF ok]
    by (auto simp: candidate_ids_parts [OF files_ascending [OF dispatcher_okD(3) [OF ok]]])
qed

interpretation listeners: subscription_index new_dispatcher add_subscription remove_subscription
  candidates dp_subs dispatcher_ok
proof unfold_locales
  show "dispatcher_ok new_dispatcher" by (rule new_dispatcher_ok)
  show "dp_subs new_dispatcher = Map.empty" by (simp add: new_dispatcher_def)
  show "dispatcher_ok d' \<and> dp_subs d i = None \<and> dp_subs d' = (dp_subs d)(i \<mapsto> s)"
    if "dispatcher_ok d" "add_subscription s d = (i, d')" for d d' i s
    using that by (rule add_subscription_ok)
  show "dispatcher_ok (snd (remove_subscription i d)) \<and>
      dp_subs (snd (remove_subscription i d)) = (dp_subs d)(i := None)"
    if "dispatcher_ok d" for d i
    using that by (rule remove_subscription_ok)
  show "\<exists>is. distinct is \<and> candidates d e = map (\<lambda>i. the (dp_subs d i)) is \<and>
      set is = {i. \<exists>s. dp_subs d i = Some s \<and> listens_for (sb_filter s) e}"
    if ok: "dispatcher_ok d" for d e
  proof (intro exI conjI)
    show "distinct (candidate_ids d e)" by (rule candidate_ids_distinct [OF ok])
    show "candidates d e = map (\<lambda>i. the (dp_subs d i)) (candidate_ids d e)"
      using candidate_ids_mem [OF ok] by (auto simp: candidates_def load_subscription_def)
    show "set (candidate_ids d e) = {i. \<exists>s. dp_subs d i = Some s \<and> listens_for (sb_filter s) e}"
      using candidate_ids_mem [OF ok] by blast
  qed
qed

subsection \<open>Any run of subscriptions\<close>

datatype listen_act = Subscribe subscription | Unsubscribe nat

fun listen_step :: "listen_act \<Rightarrow> dispatcher \<Rightarrow> dispatcher" where
  "listen_step (Subscribe s) d = snd (add_subscription s d)"
| "listen_step (Unsubscribe i) d = snd (remove_subscription i d)"

text \<open>The reference: a counter and a map, with every filter compared.\<close>

fun plain_step :: "listen_act \<Rightarrow> nat \<times> (nat \<rightharpoonup> subscription) \<Rightarrow> nat \<times> (nat \<rightharpoonup> subscription)" where
  "plain_step (Subscribe s) (n, m) = (n + 1, m(n + 1 \<mapsto> s))"
| "plain_step (Unsubscribe i) (n, m) = (n, m(i := None))"

definition plain_notified :: "nat \<times> (nat \<rightharpoonup> subscription) \<Rightarrow> event \<Rightarrow> subscription multiset" where
  "plain_notified p e =
     mset (filter (\<lambda>s. filter_matches ((sb_filter s)\<lparr>f_ids := None\<rparr>) e)
             (List.map_filter (snd p) [0..<fst p + 1]))"

lemma listen_run:
  "dispatcher_ok (fold listen_step xs new_dispatcher) \<and>
   fold plain_step xs (0, Map.empty) =
     (dp_serial (fold listen_step xs new_dispatcher), dp_subs (fold listen_step xs new_dispatcher))"
proof (induction xs rule: rev_induct)
  case Nil
  show ?case by (simp add: new_dispatcher_ok) (simp add: new_dispatcher_def)
next
  case (snoc x xs)
  let ?d = "fold listen_step xs new_dispatcher"
  show ?case
  proof (cases x)
    case (Subscribe s)
    obtain i d' where a: "add_subscription s ?d = (i, d')" by fastforce
    with snoc Subscribe add_subscription_ok [OF _ a] added_parts(1-3) [OF a] show ?thesis
      by (simp add: fun_upd_def)
  next
    case (Unsubscribe i)
    with snoc remove_subscription_ok [of ?d i] removed_parts(1) [of i ?d] show ?thesis
      by (simp add: fun_upd_def)
  qed
qed

lemma filter_below:
  fixes n :: nat
  shows "(\<And>i. P i \<Longrightarrow> i < n) \<Longrightarrow> set (filter P [0..<n]) = Collect P"
  by auto

lemma map_filter_the:
  "mset (filter P (List.map_filter m is)) =
   image_mset (\<lambda>i. the (m i)) (filter_mset (\<lambda>i. \<exists>s. m i = Some s \<and> P s) (mset is))"
  by (induction "is") (auto simp: List.map_filter_def)

text \<open>
  C14. The dispatcher's indexes lose nobody and invent nobody: after any run of subscriptions and
  removals the listeners it finds for an event are those that comparing the event with every
  subscription's filter gives, each once.
\<close>

theorem dispatcher_finds_listeners:
  "mset (candidates (fold listen_step xs new_dispatcher) e) =
   plain_notified (fold plain_step xs (0, Map.empty)) e"
proof -
  let ?d = "fold listen_step xs new_dispatcher"
  let ?P = "\<lambda>i. \<exists>s. dp_subs ?d i = Some s \<and> listens_for (sb_filter s) e"
  from listen_run [of xs] have ok: "dispatcher_ok ?d"
    and run: "fold plain_step xs (0, Map.empty) = (dp_serial ?d, dp_subs ?d)" by auto
  obtain "is" where "is": "distinct is" "candidates ?d e = map (\<lambda>i. the (dp_subs ?d i)) is" "set is = Collect ?P"
    using listeners.candidates_exact [OF ok, of e] by blast
  have "i < dp_serial ?d + 1" if "?P i" for i
    using that dispatcher_okD(1) [OF ok, of i] by (cases "dp_serial ?d < i") auto
  from filter_below [of ?P, OF this] have "set is = set (filter ?P [0..<dp_serial ?d + 1])"
    unfolding "is"(3) by (rule sym)
  then have "mset is = filter_mset ?P (mset [0..<dp_serial ?d + 1])"
    using "is"(1) by (metis (no_types, lifting) distinct_filter distinct_upt mset_filter
        set_eq_iff_mset_eq_distinct)
  then have "mset (candidates ?d e) =
      mset (filter (\<lambda>s. listens_for (sb_filter s) e)
        (List.map_filter (dp_subs ?d) [0..<dp_serial ?d + 1]))"
    unfolding "is"(2) mset_map map_filter_the by (rule arg_cong)
  then show ?thesis unfolding run plain_notified_def fst_conv snd_conv listens_for_def .
qed

end
