(* ===== verification/Text.thy ===== *)
theory Text
  imports Nostr
begin

text \<open>
  What the relay uses of Go's \<open>strings\<close>, \<open>strconv\<close> and \<open>encoding/base64\<close>. A string is the list of
  its bytes.
\<close>

subsection \<open>Splitting and joining\<close>

text \<open>\<open>strings.Split\<close> at a byte, \<open>strings.Join\<close>.\<close>

fun split_at :: "char \<Rightarrow> string \<Rightarrow> string list" where
  "split_at c [] = [[]]"
| "split_at c (x # xs) =
     (if x = c then [] # split_at c xs
      else case split_at c xs of [] \<Rightarrow> [[x]] | h # t \<Rightarrow> (x # h) # t)"

fun join_with :: "string \<Rightarrow> string list \<Rightarrow> string" where
  "join_with sep [] = []"
| "join_with sep [x] = x"
| "join_with sep (x # y # ys) = x @ sep @ join_with sep (y # ys)"

lemma split_at_ne [simp]: "split_at c s \<noteq> []"
  by (induction s) (auto split: list.split)

lemma split_at_free: "c \<notin> set x \<Longrightarrow> split_at c x = [x]"
  by (induction x) auto

lemma split_at_append: "c \<notin> set x \<Longrightarrow> split_at c (x @ c # s) = x # split_at c s"
  by (induction x) auto

lemma split_at_parts: "p \<in> set (split_at c s) \<Longrightarrow> c \<notin> set p"
  by (induction s arbitrary: p) (auto split: list.splits if_splits)

lemma split_at_join:
  "xs \<noteq> [] \<Longrightarrow> (\<And>x. x \<in> set xs \<Longrightarrow> c \<notin> set x) \<Longrightarrow> split_at c (join_with [c] xs) = xs"
proof (induction xs rule: induct_list012)
  case (2 x)
  then show ?case by (simp add: split_at_free)
next
  case (3 x y zs)
  then show ?case by (simp add: split_at_append)
qed simp

lemma split_at_join_space:
  "(\<And>y. y \<in> set (x # xs) \<Longrightarrow> CHR '','' \<notin> set y) \<Longrightarrow>
   split_at (CHR '','') (join_with '', '' (x # xs)) = x # map (\<lambda>y. CHR '' '' # y) xs"
proof (induction xs arbitrary: x)
  case (Cons y ys)
  from Cons.IH [of y] Cons.prems
  have "split_at (CHR '','') (CHR '' '' # join_with '', '' (y # ys)) = map (\<lambda>y. CHR '' '' # y) (y # ys)"
    by simp
  with Cons.prems show ?case by (simp add: split_at_append)
qed (simp add: split_at_free)

text \<open>\<open>strings.SplitN(s, c, 2)\<close>: the part before the first separator and the part after it.\<close>

definition cut_at :: "char \<Rightarrow> string \<Rightarrow> (string \<times> string) option" where
  "cut_at c s = (if c \<in> set s then Some (takeWhile (\<lambda>x. x \<noteq> c) s, tl (dropWhile (\<lambda>x. x \<noteq> c) s))
                 else None)"

subsection \<open>Trimming\<close>

text \<open>
  \<open>strings.TrimSpace\<close>: the ASCII spaces, and the encodings of the other runes \<open>unicode.IsSpace\<close>
  accepts (U+0085, U+00A0, U+1680, U+2000 to U+200A, U+2028, U+2029, U+202F, U+205F, U+3000).
\<close>

definition spaces :: "string list" where
  "spaces =
     [[CHR 0x09], [CHR 0x0A], [CHR 0x0B], [CHR 0x0C], [CHR 0x0D], [CHR 0x20],
      [CHR 0xC2, CHR 0x85], [CHR 0xC2, CHR 0xA0], [CHR 0xE1, CHR 0x9A, CHR 0x80],
      [CHR 0xE2, CHR 0x80, CHR 0x80], [CHR 0xE2, CHR 0x80, CHR 0x81], [CHR 0xE2, CHR 0x80, CHR 0x82],
      [CHR 0xE2, CHR 0x80, CHR 0x83], [CHR 0xE2, CHR 0x80, CHR 0x84], [CHR 0xE2, CHR 0x80, CHR 0x85],
      [CHR 0xE2, CHR 0x80, CHR 0x86], [CHR 0xE2, CHR 0x80, CHR 0x87], [CHR 0xE2, CHR 0x80, CHR 0x88],
      [CHR 0xE2, CHR 0x80, CHR 0x89], [CHR 0xE2, CHR 0x80, CHR 0x8A],
      [CHR 0xE2, CHR 0x80, CHR 0xA8], [CHR 0xE2, CHR 0x80, CHR 0xA9], [CHR 0xE2, CHR 0x80, CHR 0xAF],
      [CHR 0xE2, CHR 0x81, CHR 0x9F], [CHR 0xE3, CHR 0x80, CHR 0x80]]"

definition starts_with :: "string \<Rightarrow> string \<Rightarrow> bool" where
  "starts_with p s \<longleftrightarrow> take (length p) s = p"

fun trim_prefixes :: "nat \<Rightarrow> string list \<Rightarrow> string \<Rightarrow> string" where
  "trim_prefixes 0 ps s = s"
| "trim_prefixes (Suc n) ps s =
     (case find (\<lambda>p. starts_with p s) ps of
        None \<Rightarrow> s
      | Some p \<Rightarrow> trim_prefixes n ps (drop (length p) s))"

definition trim_left :: "string list \<Rightarrow> string \<Rightarrow> string" where
  "trim_left ps s = trim_prefixes (length s) ps s"

definition trim_space :: "string \<Rightarrow> string" where
  "trim_space s = rev (trim_left (map rev spaces) (rev (trim_left spaces s)))"

definition clean_left :: "string list \<Rightarrow> string \<Rightarrow> bool" where
  "clean_left ps s \<longleftrightarrow> list_all (\<lambda>p. \<not> starts_with p s) ps"

definition clean :: "string \<Rightarrow> bool" where
  "clean s \<longleftrightarrow> clean_left spaces s \<and> clean_left (map rev spaces) (rev s)"

lemma find_None_all: "find P xs = None \<longleftrightarrow> list_all (\<lambda>x. \<not> P x) xs"
  by (auto simp: find_None_iff list_all_iff)

lemma spaces_ne: "[] \<notin> set spaces" "[] \<notin> set (map rev spaces)"
  by (auto simp: spaces_def)

lemma spaces_no_comma: "p \<in> set spaces \<Longrightarrow> CHR '','' \<notin> set p"
proof -
  have "list_all (\<lambda>p. CHR '','' \<notin> set p) spaces" by (simp add: spaces_def)
  then show "p \<in> set spaces \<Longrightarrow> CHR '','' \<notin> set p" by (simp add: list_all_iff)
qed

text \<open>Trimming one side: a suffix, clean, and nothing is lost from a clean string.\<close>

lemma trim_prefixes_suffix: "\<exists>u. s = u @ trim_prefixes n ps s"
proof (induction n arbitrary: s)
  case (Suc n)
  show ?case
  proof (cases "find (\<lambda>p. starts_with p s) ps")
    case (Some p)
    obtain u where "drop (length p) s = u @ trim_prefixes n ps (drop (length p) s)" using Suc by blast
    then have "s = (take (length p) s @ u) @ trim_prefixes n ps (drop (length p) s)"
      by (metis append_assoc append_take_drop_id)
    with Some show ?thesis by (intro exI [of _ "take (length p) s @ u"]) simp
  qed simp
qed simp

lemma trim_prefixes_clean:
  "[] \<notin> set ps \<Longrightarrow> length s \<le> n \<Longrightarrow> clean_left ps (trim_prefixes n ps s)"
proof (induction n arbitrary: s)
  case 0
  then show ?case by (auto simp: clean_left_def starts_with_def list_all_iff)
next
  case (Suc n)
  show ?case
  proof (cases "find (\<lambda>p. starts_with p s) ps")
    case None
    then have "clean_left ps s" by (simp add: clean_left_def find_None_all)
    with None show ?thesis by simp
  next
    case (Some p)
    then have p: "p \<in> set ps" "starts_with p s" by (auto simp: find_Some_iff)
    with Suc.prems(1) have "p \<noteq> []" by auto
    moreover have "s \<noteq> []" using p(2) \<open>p \<noteq> []\<close> by (auto simp: starts_with_def)
    ultimately have "length (drop (length p) s) \<le> n" using Suc.prems(2) by (cases p) auto
    with Suc Some show ?thesis by simp
  qed
qed

lemma trim_left_clean: "[] \<notin> set ps \<Longrightarrow> clean_left ps (trim_left ps s)"
  by (simp add: trim_left_def trim_prefixes_clean)

lemma trim_left_id: "clean_left ps s \<Longrightarrow> trim_left ps s = s"
  by (cases s) (simp_all add: trim_left_def clean_left_def find_None_all [symmetric])

lemma clean_left_prefix: "clean_left ps (s @ t) \<Longrightarrow> [] \<notin> set ps \<Longrightarrow> clean_left ps s"
  unfolding clean_left_def list_all_iff starts_with_def
  by (metis append_take_drop_id length_take min.absorb2 take_append take_all nat_le_linear diff_is_0_eq' take0 append_Nil2)

lemma trim_space_clean: "clean (trim_space s)"
proof -
  let ?l = "trim_left spaces s"
  obtain u where u: "rev ?l = u @ trim_left (map rev spaces) (rev ?l)"
    unfolding trim_left_def [of "map rev spaces"] using trim_prefixes_suffix by blast
  then have "?l = rev (trim_left (map rev spaces) (rev ?l)) @ rev u" by (metis rev_append rev_rev_ident)
  with trim_left_clean [OF spaces_ne(1), of s] have "clean_left spaces (trim_space s @ rev u)"
    by (simp add: trim_space_def)
  then have "clean_left spaces (trim_space s)" using spaces_ne(1) by (rule clean_left_prefix)
  with trim_left_clean [OF spaces_ne(2)] show ?thesis by (simp add: clean_def trim_space_def)
qed

lemma trim_space_id: "clean s \<Longrightarrow> trim_space s = s"
  by (simp add: clean_def trim_space_def trim_left_id)

lemma trim_space_sublist: "set (trim_space s) \<subseteq> set s"
proof -
  have *: "set (trim_left ps t) \<subseteq> set t" for ps t
  proof -
    obtain u where "t = u @ trim_left ps t" unfolding trim_left_def using trim_prefixes_suffix by blast
    then show ?thesis by (metis Un_upper2 set_append)
  qed
  from * [of "map rev spaces" "rev (trim_left spaces s)"] * [of spaces s] show ?thesis
    by (simp add: trim_space_def)
qed

text \<open>A string that starts and ends with something visible needs no trimming.\<close>

definition visible :: "char \<Rightarrow> bool" where
  "visible c \<longleftrightarrow> 33 \<le> (of_char c :: nat) \<and> (of_char c :: nat) \<le> 126"

lemma clean_left_visible:
  assumes "list_all (\<lambda>p. p \<noteq> [] \<and> \<not> visible (hd p)) ps" "t = [] \<or> visible (hd t)"
  shows "clean_left ps t"
  unfolding clean_left_def list_all_iff starts_with_def
proof (intro ballI notI)
  fix p assume p: "p \<in> set ps" "take (length p) t = p"
  with assms(1) have q: "p \<noteq> []" "\<not> visible (hd p)" by (auto simp: list_all_iff)
  with p(2) have "t \<noteq> []" by auto
  with p(2) q(1) have "hd t = hd p" by (metis hd_take length_greater_0_conv)
  with q(2) assms(2) \<open>t \<noteq> []\<close> show False by simp
qed

lemma clean_visible: "s = [] \<or> visible (hd s) \<and> visible (last s) \<Longrightarrow> clean s"
proof -
  have "list_all (\<lambda>p. p \<noteq> [] \<and> \<not> visible (hd p)) spaces"
    "list_all (\<lambda>p. p \<noteq> [] \<and> \<not> visible (hd p)) (map rev spaces)" by (simp_all add: spaces_def visible_def)
  then show "s = [] \<or> visible (hd s) \<and> visible (last s) \<Longrightarrow> clean s"
    unfolding clean_def by (auto intro!: clean_left_visible simp: hd_rev)
qed

text \<open>What is clean stays clean before a byte that is in no wide space; one blank is trimmed off.\<close>

lemma clean_left_before:
  assumes "clean_left ps x" "x \<noteq> []" "\<And>p. p \<in> set ps \<Longrightarrow> 2 \<le> length p \<Longrightarrow> c \<notin> set p"
  shows "clean_left ps (x @ c # r)"
  unfolding clean_left_def list_all_iff
proof
  fix p assume p: "p \<in> set ps"
  show "\<not> starts_with p (x @ c # r)"
  proof
    assume s: "starts_with p (x @ c # r)"
    show False
    proof (cases "length p \<le> length x")
      case True
      with s have "starts_with p x" by (simp add: starts_with_def)
      with p assms(1) show False by (simp add: clean_left_def list_all_iff)
    next
      case False
      moreover from this assms(2) have "2 \<le> length p" by (cases x) auto
      moreover from False have "c \<in> set (take (length p) (x @ c # r))"
        by (simp add: take_Cons')
      ultimately show False using s assms(3) [OF p] unfolding starts_with_def by metis
    qed
  qed
qed

lemma wide_spaces: "p \<in> set spaces \<Longrightarrow> 2 \<le> length p \<Longrightarrow> CHR '' '' \<notin> set p"
proof -
  have "list_all (\<lambda>p. 2 \<le> length p \<longrightarrow> CHR '' '' \<notin> set p) spaces" by (simp add: spaces_def)
  then show "p \<in> set spaces \<Longrightarrow> 2 \<le> length p \<Longrightarrow> CHR '' '' \<notin> set p" by (simp add: list_all_iff)
qed

lemma trim_one_space: "clean y \<Longrightarrow> trim_space (CHR '' '' # y) = y"
proof -
  assume y: "clean y"
  have "list_all (\<lambda>p. p = '' '' \<or> p \<noteq> [] \<and> hd p \<noteq> CHR '' '') spaces" by (simp add: spaces_def)
  then have "\<forall>p \<in> set spaces. starts_with p (CHR '' '' # y) = (p = '' '')"
    by (auto simp: list_all_iff starts_with_def neq_Nil_conv)
  then have "find (\<lambda>p. starts_with p (CHR '' '' # y)) spaces = find (\<lambda>p. p = '' '') spaces"
    by (intro find_cong) simp_all
  moreover have "find (\<lambda>p. p = '' '') spaces = Some '' ''" by (simp add: spaces_def)
  ultimately have "find (\<lambda>p. starts_with p (CHR '' '' # y)) spaces = Some '' ''" by simp
  then have "trim_left spaces (CHR '' '' # y) = y"
    using trim_left_id [of spaces y] y by (simp add: trim_left_def clean_def)
  with y show ?thesis by (simp add: trim_space_def clean_def trim_left_id)
qed

lemma trim_space_Nil [simp]: "trim_space [] = []"
  by (simp add: trim_space_def trim_left_def)

subsection \<open>Numbers\<close>

text \<open>\<open>strconv.Atoi\<close>.\<close>

definition atoi :: "string \<Rightarrow> int option" where
  "atoi s =
     (let (neg, ds) = (case s of
          [] \<Rightarrow> (False, [])
        | c # r \<Rightarrow> if c = CHR ''-'' then (True, r) else if c = CHR ''+'' then (False, r) else (False, s))
      in if ds = [] \<or> \<not> list_all is_digit ds then None
         else let v = (if neg then - int (dec_value ds) else int (dec_value ds))
              in if in_int64 v then Some v else None)"

lemma atoi_itoa: "in_int64 (int n) \<Longrightarrow> atoi (itoa n) = Some (int n)"
proof -
  assume n: "in_int64 (int n)"
  have i: "list_all is_digit (itoa n)" "itoa n \<noteq> []" "dec_value (itoa n) = n"
    using itoa_digits by blast+
  then obtain c r where c: "itoa n = c # r" "is_digit c" by (cases "itoa n") auto
  then have "c \<noteq> CHR ''-''" "c \<noteq> CHR ''+''" by (auto simp: is_digit_def)
  with i n show ?thesis by (simp add: atoi_def c)
qed

lemma atoi_in_range: "atoi s = Some v \<Longrightarrow> in_int64 v"
  by (auto simp: atoi_def Let_def split: prod.splits if_splits)

text \<open>
  The number \<open>strconv.ParseInt\<close> returns when its error is not looked at: 0 where the syntax is wrong, the
  nearest bound where the number is out of range. The digits are read until the value no longer fits.
\<close>

fun parse_digits :: "nat \<Rightarrow> string \<Rightarrow> nat option" where
  "parse_digits n [] = Some n"
| "parse_digits n (c # cs) =
     (if \<not> is_digit c then None
      else let m = 10 * n + (of_char c - 48)
           in if 2 ^ 64 \<le> m then Some (2 ^ 64 - 1) else parse_digits m cs)"

definition int_value :: "string \<Rightarrow> int" where
  "int_value s =
     (let (neg, ds) = (case s of
          [] \<Rightarrow> (False, [])
        | c # r \<Rightarrow> if c = CHR ''-'' then (True, r) else if c = CHR ''+'' then (False, r) else (False, s))
      in if ds = [] then 0
         else case parse_digits 0 ds of
                None \<Rightarrow> 0
              | Some n \<Rightarrow> if neg then - int (min n (2 ^ 63)) else int (min n (2 ^ 63 - 1)))"

subsection \<open>Quoting\<close>

text \<open>
  \<open>utf8.DecodeRune\<close>: the rune at the head of some bytes and its width; U+FFFD with width 1 where
  the bytes are no encoding.
\<close>

definition is_cont :: "nat \<Rightarrow> bool" where
  "is_cont b \<longleftrightarrow> 128 \<le> b \<and> b < 192"

definition decode_rune :: "nat list \<Rightarrow> nat \<times> nat" where
  "decode_rune s =
     (case s of
        [] \<Rightarrow> (65533, 0)
      | b # bs \<Rightarrow>
          if b < 128 then (b, 1)
          else if 194 \<le> b \<and> b < 224 then
            (case bs of
               c1 # _ \<Rightarrow> if is_cont c1 then ((b - 192) * 64 + (c1 - 128), 2) else (65533, 1)
             | _ \<Rightarrow> (65533, 1))
          else if 224 \<le> b \<and> b < 240 then
            (case bs of
               c1 # c2 # _ \<Rightarrow>
                 if is_cont c1 \<and> is_cont c2 \<and> (b = 224 \<longrightarrow> 160 \<le> c1) \<and> (b = 237 \<longrightarrow> c1 < 160)
                 then ((b - 224) * 4096 + (c1 - 128) * 64 + (c2 - 128), 3) else (65533, 1)
             | _ \<Rightarrow> (65533, 1))
          else if 240 \<le> b \<and> b < 245 then
            (case bs of
               c1 # c2 # c3 # _ \<Rightarrow>
                 if is_cont c1 \<and> is_cont c2 \<and> is_cont c3 \<and> (b = 240 \<longrightarrow> 144 \<le> c1) \<and> (b = 244 \<longrightarrow> c1 < 144)
                 then ((b - 240) * 262144 + (c1 - 128) * 4096 + (c2 - 128) * 64 + (c3 - 128), 4)
                 else (65533, 1)
             | _ \<Rightarrow> (65533, 1))
          else (65533, 1))"

text \<open>
  \<open>%q\<close> (\<open>strconv.Quote\<close>). Which runes outside ASCII are printable is a table of the Unicode
  standard, the parameter \<open>print\<close>. \<open>quote_rune\<close> is given the rune and the bytes it was read from.
\<close>

definition quote_rune :: "(nat \<Rightarrow> bool) \<Rightarrow> nat \<Rightarrow> string \<Rightarrow> string" where
  "quote_rune print r bytes =
     (if r = 34 \<or> r = 92 then [CHR 0x5C, char_of r]
      else if (if r < 128 then 32 \<le> r \<and> r < 127 else print r) then bytes
      else if r = 7 then [CHR 0x5C, CHR ''a'']
      else if r = 8 then [CHR 0x5C, CHR ''b'']
      else if r = 12 then [CHR 0x5C, CHR ''f'']
      else if r = 10 then [CHR 0x5C, CHR ''n'']
      else if r = 13 then [CHR 0x5C, CHR ''r'']
      else if r = 9 then [CHR 0x5C, CHR ''t'']
      else if r = 11 then [CHR 0x5C, CHR ''v'']
      else if r < 32 \<or> r = 127 then [CHR 0x5C, CHR ''x''] @ to_hex 2 r
      else if r < 65536 then [CHR 0x5C, CHR ''u''] @ to_hex 4 r
      else [CHR 0x5C, CHR ''U''] @ to_hex 8 r)"

fun quote_body :: "(nat \<Rightarrow> bool) \<Rightarrow> string \<Rightarrow> string" where
  "quote_body print [] = []"
| "quote_body print (x # xs) =
     (let (r, w) = decode_rune (map of_char (x # xs))
      in if w = 1 \<and> r = 65533 then [CHR 0x5C, CHR ''x''] @ to_hex 2 (of_char x) @ quote_body print xs
         else quote_rune print r (x # take (w - 1) xs) @ quote_body print (drop (w - 1) xs))"

definition quote :: "(nat \<Rightarrow> bool) \<Rightarrow> string \<Rightarrow> string" where
  "quote print s = [CHR 0x22] @ quote_body print s @ [CHR 0x22]"

text \<open>Neither a line break nor any other control character comes through.\<close>

definition no_control :: "string \<Rightarrow> bool" where
  "no_control s \<longleftrightarrow> (\<forall>c \<in> set s. 32 \<le> (of_char c :: nat) \<and> (of_char c :: nat) \<noteq> 127)"

lemma no_control_simps [simp]:
  "no_control []" "no_control (s @ t) \<longleftrightarrow> no_control s \<and> no_control t"
  "no_control (c # s) \<longleftrightarrow> (32 \<le> (of_char c :: nat) \<and> (of_char c :: nat) \<noteq> 127) \<and> no_control s"
  by (auto simp: no_control_def)

lemma no_control_hex: "no_control (to_hex k n)"
proof -
  have t: "list_all (\<lambda>c. 32 \<le> (of_char c :: nat) \<and> (of_char c :: nat) \<noteq> 127) hextable" by code_simp
  have "32 \<le> (of_char (hextable ! (m mod 16)) :: nat) \<and> (of_char (hextable ! (m mod 16)) :: nat) \<noteq> 127" for m
  proof -
    have "m mod 16 < length hextable" by (simp add: hextable_def)
    with t show ?thesis by (auto simp: list_all_length)
  qed
  then show ?thesis by (induction k arbitrary: n) simp_all
qed

lemma decode_rune_cases:
  assumes "decode_rune (b # bs) = (r, w)"
  shows "(w = 1 \<and> r = 65533) \<or> (w = 1 \<and> r = b \<and> b < 128) \<or>
    (128 \<le> r \<and> 128 \<le> b \<and> list_all is_cont (take (w - 1) bs))"
proof -
  consider "b < 128" | "194 \<le> b" "b < 224" | "224 \<le> b" "b < 240" | "240 \<le> b" "b < 245"
    | "128 \<le> b" "b < 194 \<or> 245 \<le> b" by linarith
  then show ?thesis
  proof cases
    case 1
    with assms show ?thesis by (simp add: decode_rune_def)
  next
    case 2
    with assms show ?thesis
      by (auto simp: decode_rune_def is_cont_def split: list.splits if_splits)
  next
    case 3
    with assms show ?thesis
      by (cases "b = 224") (auto simp: decode_rune_def is_cont_def split: list.splits if_splits)
  next
    case 4
    with assms show ?thesis
      by (cases "b = 240") (auto simp: decode_rune_def is_cont_def split: list.splits if_splits)
  next
    case 5
    with assms show ?thesis by (auto simp: decode_rune_def)
  qed
qed

lemma no_control_quote_rune:
  assumes "r < 256 \<longrightarrow> bytes = [char_of r] \<or> no_control bytes" "128 \<le> r \<longrightarrow> no_control bytes"
  shows "no_control (quote_rune print r bytes)"
proof (cases "r = 34 \<or> r = 92 \<or> \<not> (if r < 128 then 32 \<le> r \<and> r < 127 else print r)")
  case True
  then show ?thesis by (auto simp: quote_rune_def no_control_hex)
next
  case False
  with assms have "no_control bytes" by (cases "r < 128") auto
  with False show ?thesis by (cases "r < 128") (simp_all add: quote_rune_def)
qed

lemma no_control_quote_body: "no_control (quote_body print s)"
proof (induction print s rule: quote_body.induct)
  case (2 print x xs)
  obtain r w where d: "decode_rune (map of_char (x # xs)) = (r, w)" by fastforce
  show ?case
  proof (cases "w = 1 \<and> r = 65533")
    case True
    with 2(1) [OF d [symmetric]] d show ?thesis by (simp add: no_control_hex)
  next
    case False
    have "no_control (quote_rune print r (x # take (w - 1) xs))"
    proof (cases "r < 128")
      case True
      with False d decode_rune_cases [of "of_char x" "map of_char xs" r w] have "w = 1" "r = of_char x"
        by auto
      with True show ?thesis by (intro no_control_quote_rune) simp_all
    next
      case ge: False
      with False d decode_rune_cases [of "of_char x" "map of_char xs" r w] have
        "128 \<le> (of_char x :: nat)" "list_all is_cont (map of_char (take (w - 1) xs))"
        by (auto simp: take_map)
      then have "no_control (x # take (w - 1) xs)"
        by (auto simp: no_control_def list_all_iff is_cont_def)
      with ge show ?thesis by (intro no_control_quote_rune) auto
    qed
    with False 2(2) [OF d [symmetric]] d show ?thesis by auto
  qed
qed simp

lemma no_control_quote: "no_control (quote print s)"
  by (simp add: quote_def no_control_quote_body)

subsection \<open>Base 64\<close>

definition b64_std :: string where
  "b64_std = ''ABCDEFGHIJKLMNOPQRSTUVWXYZabcdefghijklmnopqrstuvwxyz0123456789+/''"

definition b64_url :: string where
  "b64_url = ''ABCDEFGHIJKLMNOPQRSTUVWXYZabcdefghijklmnopqrstuvwxyz0123456789-_''"

definition b64_val :: "char \<Rightarrow> nat option" where
  "b64_val c = index_func (\<lambda>x. x = c) b64_std"

text \<open>\<open>StdEncoding.DecodeString\<close>: line breaks are passed over, padding is required, spare bits are not
  looked at.\<close>

fun b64_groups :: "string \<Rightarrow> string option" where
  "b64_groups [] = Some []"
| "b64_groups (a # b # c # d # rest) =
     (case (b64_val a, b64_val b) of
        (Some va, Some vb) \<Rightarrow>
          if c = CHR ''='' then
            (if d = CHR ''='' \<and> rest = [] then Some [char_of (va * 4 + vb div 16)] else None)
          else
            (case b64_val c of
               None \<Rightarrow> None
             | Some vc \<Rightarrow>
                 if d = CHR ''='' then
                   (if rest = [] then Some [char_of (va * 4 + vb div 16), char_of (vb * 16 + vc div 4)]
                    else None)
                 else
                   (case (b64_val d, b64_groups rest) of
                      (Some vd, Some r) \<Rightarrow>
                        Some ([char_of (va * 4 + vb div 16), char_of (vb * 16 + vc div 4),
                               char_of (vc * 64 + vd)] @ r)
                    | _ \<Rightarrow> None))
      | _ \<Rightarrow> None)"
| "b64_groups _ = None"

definition b64_decode :: "string \<Rightarrow> string option" where
  "b64_decode s = b64_groups (filter (\<lambda>c. c \<noteq> CHR 0x0A \<and> c \<noteq> CHR 0x0D) s)"

text \<open>\<open>RawURLEncoding.DecodeString\<close>: the other two digits, and no padding.\<close>

definition b64_url_val :: "char \<Rightarrow> nat option" where
  "b64_url_val c = index_func (\<lambda>x. x = c) b64_url"

fun b64_url_groups :: "string \<Rightarrow> string option" where
  "b64_url_groups [] = Some []"
| "b64_url_groups [a] = None"
| "b64_url_groups [a, b] =
     (case (b64_url_val a, b64_url_val b) of
        (Some va, Some vb) \<Rightarrow> Some [char_of (va * 4 + vb div 16)]
      | _ \<Rightarrow> None)"
| "b64_url_groups [a, b, c] =
     (case (b64_url_val a, b64_url_val b, b64_url_val c) of
        (Some va, Some vb, Some vc) \<Rightarrow> Some [char_of (va * 4 + vb div 16), char_of (vb * 16 + vc div 4)]
      | _ \<Rightarrow> None)"
| "b64_url_groups (a # b # c # d # rest) =
     (case (b64_url_val a, b64_url_val b, b64_url_val c, b64_url_val d, b64_url_groups rest) of
        (Some va, Some vb, Some vc, Some vd, Some r) \<Rightarrow>
          Some ([char_of (va * 4 + vb div 16), char_of (vb * 16 + vc div 4), char_of (vc * 64 + vd)] @ r)
      | _ \<Rightarrow> None)"

definition b64_url_decode :: "string \<Rightarrow> string option" where
  "b64_url_decode s = b64_url_groups (filter (\<lambda>c. c \<noteq> CHR 0x0A \<and> c \<noteq> CHR 0x0D) s)"

text \<open>\<open>RawURLEncoding.EncodeToString\<close>.\<close>

fun b64_url_encode :: "nat list \<Rightarrow> string" where
  "b64_url_encode [] = []"
| "b64_url_encode [x] = [b64_url ! (x div 4), b64_url ! (x mod 4 * 16)]"
| "b64_url_encode [x, y] =
     [b64_url ! (x div 4), b64_url ! (x mod 4 * 16 + y div 16), b64_url ! (y mod 16 * 4)]"
| "b64_url_encode (x # y # z # rest) =
     [b64_url ! (x div 4), b64_url ! (x mod 4 * 16 + y div 16), b64_url ! (y mod 16 * 4 + z div 64),
      b64_url ! (z mod 64)] @ b64_url_encode rest"

end
