(* ===== verification/Session.thy ===== *)
theory Session
  imports Relay Dispatch Text
begin

text \<open>
  The connections: what khatru does with the messages of a client (\<^verbatim>\<open>khatru/handlers.go\<close>,
  \<^verbatim>\<open>responding.go\<close>, \<^verbatim>\<open>deleting.go\<close>, \<^verbatim>\<open>ephemeral.go\<close>, \<^verbatim>\<open>broadcasting.go\<close>, NIP-42 and NIP-70), with the
  hooks \<^verbatim>\<open>relay.go\<close> sets, down to the messages each client receives. Messages are handled one after the
  other; an answer is a list of deliveries, each to a connection's number. Parsing of JSON, the
  signature check and the parsing of URLs are parameters, and so is the reconciliation of a negentropy
  session: what the relay puts into it is modelled.
\<close>

abbreviation kDeletion :: kind where "kDeletion \<equiv> 5"
abbreviation kClientAuthentication :: kind where "kClientAuthentication \<equiv> 22242"

record wire_outside =
  wi_out :: outside
  wi_verify :: "event \<Rightarrow> bool"
  wi_parse_url :: "string \<Rightarrow> (string \<times> string \<times> string) option"

record client =
  cl_challenge :: string
  cl_authed :: "pubkey list"
  cl_ip :: string
  cl_specs :: "(nat \<times> string) list"

record 'd hub =
  hub_relay :: "'d relay_state"
  hub_dispatcher :: dispatcher
  hub_clients :: "nat \<rightharpoonup> client"
  hub_base_url :: string

subsection \<open>What a client reads\<close>

datatype deletion_error = InvalidTarget string | NotTheAuthor | DeleteFailed store_error | NothingToDelete

datatype auth_error =
  AuthKind | AuthNoChallenge | AuthChallenge | AuthOwnUrl | AuthNoRelay | AuthRelayUrl | AuthRelay
| AuthTime | AuthSignature

datatype ok_reason =
    NoReason | BadId | BadSignature | MustAuthenticate | NotByAuthor | RepostsProtected
  | RefusedFor reject_reason | StoreError store_error | DeletionFailed deletion_error
  | NobodyListening | BroadcastTo nat | AuthFailed auth_error

datatype relay_message =
    EventMsg string event
  | OkMsg eid bool ok_reason
  | EoseMsg string
  | ClosedMsg string request_reason
  | UnsupportedMsg string
  | AuthMsg string
  | NoticeMsg
  | NegVector string "(timestamp \<times> eid) list"
  | NegError string "request_reason option"

type_synonym delivery = "nat \<times> relay_message"

text \<open>The reasons whose text begins with \<open>auth-required:\<close>; they make khatru ask for authentication.\<close>

definition event_needs_auth :: "ok_reason \<Rightarrow> bool" where
  "event_needs_auth r \<longleftrightarrow> r = RefusedFor SenderMustAuthenticate"

definition request_needs_auth :: "request_reason \<Rightarrow> bool" where
  "request_needs_auth r \<longleftrightarrow> r = GiftWrapsNeedAuth \<or> r = PrivateGroupNeedsAuth"

subsection \<open>Listeners\<close>

definition authed_of :: "'d hub \<Rightarrow> nat option \<Rightarrow> pubkey list option" where
  "authed_of h ws = (case ws of None \<Rightarrow> None | Some c \<Rightarrow> map_option cl_authed (hub_clients h c))"

definition hub_groups :: "'d hub \<Rightarrow> groups" where
  "hub_groups h = gs_groups (rs_groups (hub_relay h))"

definition deliver_to :: "event \<Rightarrow> subscription \<Rightarrow> delivery list" where
  "deliver_to e sub = (case sb_ws sub of None \<Rightarrow> [] | Some c \<Rightarrow> [(c, EventMsg (sb_id sub) e)])"

definition notify_listeners :: "'d hub \<Rightarrow> event \<Rightarrow> delivery list" where
  "notify_listeners h e =
     concat (map (deliver_to e)
       (filter (\<lambda>sub. \<not> should_prevent_broadcast (hub_groups h) (authed_of h (sb_ws sub)) (sb_filter sub) e)
          (candidates (hub_dispatcher h) e)))"

definition add_listener :: "nat \<Rightarrow> string \<Rightarrow> nfilter \<Rightarrow> 'd hub \<Rightarrow> 'd hub" where
  "add_listener cid sid f h =
     (case hub_clients h cid of
        None \<Rightarrow> h
      | Some cl \<Rightarrow>
          (case add_subscription \<lparr>sb_id = sid, sb_filter = f, sb_ws = Some cid\<rparr> (hub_dispatcher h) of
             (i, d) \<Rightarrow>
               h\<lparr>hub_dispatcher := d,
                 hub_clients := (hub_clients h)(cid \<mapsto> cl\<lparr>cl_specs := cl_specs cl @ [(i, sid)]\<rparr>)\<rparr>))"

abbreviation drop_subscriptions :: "nat list \<Rightarrow> dispatcher \<Rightarrow> dispatcher" where
  "drop_subscriptions is d \<equiv> fold (\<lambda>i d. snd (remove_subscription i d)) is d"

definition remove_listener_id :: "nat \<Rightarrow> string \<Rightarrow> 'd hub \<Rightarrow> 'd hub" where
  "remove_listener_id cid sid h =
     (case hub_clients h cid of
        None \<Rightarrow> h
      | Some cl \<Rightarrow>
          h\<lparr>hub_dispatcher :=
              drop_subscriptions (map fst (filter (\<lambda>(_, x). x = sid) (cl_specs cl))) (hub_dispatcher h),
            hub_clients := (hub_clients h)
              (cid \<mapsto> cl\<lparr>cl_specs := filter (\<lambda>(_, x). x \<noteq> sid) (cl_specs cl)\<rparr>)\<rparr>)"

definition remove_client :: "nat \<Rightarrow> 'd hub \<Rightarrow> 'd hub" where
  "remove_client cid h =
     (let d = (case hub_clients h cid of
                 None \<Rightarrow> hub_dispatcher h
               | Some cl \<Rightarrow> drop_subscriptions (map fst (cl_specs cl)) (hub_dispatcher h))
      in h\<lparr>hub_dispatcher := d, hub_clients := (hub_clients h)(cid := None)\<rparr>)"

subsection \<open>Protected events (NIP-70)\<close>

fun str_index :: "string \<Rightarrow> string \<Rightarrow> nat option" where
  "str_index [] sub = (if sub = [] then Some 0 else None)"
| "str_index (c # cs) sub =
     (if starts_with sub (c # cs) then Some 0 else map_option Suc (str_index cs sub))"

definition is_protected :: "event \<Rightarrow> bool" where
  "is_protected e = list_ex (\<lambda>t. length t = 1 \<and> t ! 0 = ''-'') (ev_tags e)"

definition has_embedded_protected :: "event \<Rightarrow> bool" where
  "has_embedded_protected e =
     (if ev_kind e = 6 \<or> ev_kind e = 16 then
        (case (str_index (ev_content e) (CHR 34 # ''tags'' @ CHR 34 # '':[''),
               str_index (ev_content e) '']]'',
               str_index (ev_content e) (CHR ''['' # CHR 34 # CHR ''-'' # CHR 34 # '']'')) of
           (Some tidx, Some eidx, Some pidx) \<Rightarrow> tidx < pidx \<and> pidx < eidx
         | _ \<Rightarrow> False)
      else False)"

subsection \<open>Deletions (NIP-09)\<close>

text \<open>The filter a tag of a deletion asks for; a tag that names nothing is passed over.\<close>

definition deletion_filter :: "(pubkey \<Rightarrow> bool) \<Rightarrow> event \<Rightarrow> tag \<Rightarrow> deletion_error + nfilter option" where
  "deletion_filter valid e t =
     (if length t < 2 then Inr None
      else if t ! 0 = ''e'' then
        (case id_from_hex (t ! 1) of
           None \<Rightarrow> Inl (InvalidTarget (t ! 1))
         | Some i \<Rightarrow> Inr (Some (empty_filter\<lparr>f_ids := Some [i]\<rparr>)))
      else if t ! 0 = ''a'' then
        Inr (case cut_at (CHR '':'') (t ! 1) of
               None \<Rightarrow> None
             | Some (k, rest) \<Rightarrow>
                 (case cut_at (CHR '':'') rest of
                    None \<Rightarrow> None
                  | Some (pk, d) \<Rightarrow>
                      (case (atoi k, pubkey_from_hex valid pk) of
                         (Some kind, Some author) \<Rightarrow>
                           Some (empty_filter\<lparr>f_kinds := Some [word_of_int kind],
                                   f_authors := Some [author], f_tags := [(''d'', [d])],
                                   f_until := ev_created_at e\<rparr>)
                       | _ \<Rightarrow> None)))
      else Inr None)"

fun delete_loop ::
  "'d store_ops \<Rightarrow> (pubkey \<Rightarrow> bool) \<Rightarrow> groups \<Rightarrow> pubkey list \<Rightarrow> event \<Rightarrow> tag list \<Rightarrow> bool \<Rightarrow> 'd \<Rightarrow>
     deletion_error option \<times> 'd" where
  "delete_loop ops valid gs authed e [] deleted db =
     (if deleted then None else Some NothingToDelete, db)"
| "delete_loop ops valid gs authed e (t # ts) deleted db =
     (case deletion_filter valid e t of
        Inl err \<Rightarrow> (Some err, db)
      | Inr None \<Rightarrow> delete_loop ops valid gs authed e ts deleted db
      | Inr (Some f) \<Rightarrow>
          (case relay_query ops gs authed False f db of
             [] \<Rightarrow> delete_loop ops valid gs authed e ts deleted db
           | target # _ \<Rightarrow>
               if ev_pubkey target = ev_pubkey e then
                 (case so_delete ops (ev_id target) db of
                    (Some err, db') \<Rightarrow> (Some (DeleteFailed err), db')
                  | (None, db') \<Rightarrow> delete_loop ops valid gs authed e ts True db')
               else (Some NotTheAuthor, db)))"

definition handle_delete_request ::
  "'d store_ops \<Rightarrow> (pubkey \<Rightarrow> bool) \<Rightarrow> pubkey list \<Rightarrow> event \<Rightarrow> 'd relay_state \<Rightarrow>
     deletion_error option \<times> 'd relay_state" where
  "handle_delete_request ops valid authed e s =
     (case delete_loop ops valid (gs_groups (rs_groups s)) authed e (ev_tags e) False (gs_db (rs_groups s)) of
        (err, db) \<Rightarrow> (err, with_groups s ((rs_groups s)\<lparr>gs_db := db\<rparr>)))"

subsection \<open>EVENT\<close>

text \<open>
  The checks before the pipeline: the id, the signature, and protected events, which only a connection
  whose last authenticated key is their author may publish.
\<close>

definition check_event :: "wire_outside \<Rightarrow> client \<Rightarrow> event \<Rightarrow> ok_reason option" where
  "check_event w cl e =
     (if cr_hash (out_crypto (wi_out w)) e \<noteq> ev_id e then Some BadId
      else if \<not> wi_verify w e then Some BadSignature
      else if is_protected e then
        (if cl_authed cl = [] then Some MustAuthenticate
         else if last (cl_authed cl) \<noteq> ev_pubkey e then Some NotByAuthor
         else None)
      else if has_embedded_protected e then Some RepostsProtected
      else None)"

text \<open>The event the hooks saw last: \<open>rejectEvent\<close> may permute the role names in its tags.\<close>

definition seen_event ::
  "'d store_ops \<Rightarrow> outside \<Rightarrow> timestamp \<Rightarrow> request_context \<Rightarrow> event \<Rightarrow> 'd relay_state \<Rightarrow> event" where
  "seen_event ops out now cx e s = fst (snd (reject_event ops out now cx e s))"

definition context_of :: "client \<Rightarrow> request_context" where
  "context_of cl = \<lparr>cx_authed = cl_authed cl, cx_ip = cl_ip cl\<rparr>"

definition write_outcome :: "write_result \<Rightarrow> bool \<times> ok_reason option" where
  "write_outcome r =
     (case r of
        Refused x \<Rightarrow> (True, Some (RefusedFor x))
      | StoreFailed x \<Rightarrow> (False, Some (StoreError x))
      | Duplicate \<Rightarrow> (True, None)
      | Saved \<Rightarrow> (False, None)
      | Crashed \<Rightarrow> (True, None))"

text \<open>
  The answers of \<open>ProcessEvent\<close> and the snapshots are broadcast before the event itself. They are compared
  here with the groups as the pipeline leaves them: none of the steps after a broadcast changes whether
  a group is hidden or private, or removes one.
\<close>

definition handle_stored_event ::
  "'d store_ops \<Rightarrow> wire_outside \<Rightarrow> timestamp \<Rightarrow> (string \<Rightarrow> roster_orders) \<Rightarrow> nat \<Rightarrow> client \<Rightarrow> event \<Rightarrow>
     'd hub \<Rightarrow> unit outcome \<times> delivery list \<times> 'd hub" where
  "handle_stored_event ops w now ords cid cl e h =
     (case handle_normal ops (wi_out w) now ords (context_of cl) e (hub_relay h) of
        (r, bs, rs1) \<Rightarrow>
          (let e1 = seen_event ops (wi_out w) now (context_of cl) e (hub_relay h);
               h1 = h\<lparr>hub_relay := rs1\<rparr>;
               own = concat (map (notify_listeners h1) bs)
           in case write_outcome r of
                (skip, err) \<Rightarrow>
                  (case (if ev_kind e = kDeletion \<and> err = None then
                           map_prod (map_option DeletionFailed) (\<lambda>s. h1\<lparr>hub_relay := s\<rparr>)
                             (handle_delete_request ops (cr_valid (out_crypto (wi_out w))) (cl_authed cl) e1 rs1)
                         else (err, h1)) of
                     (err2, h2) \<Rightarrow>
                       (if r = Crashed then Panicked else Returned (),
                        own @
                        (case err2 of
                           None \<Rightarrow> (if skip then [] else notify_listeners h2 e1) @ [(cid, OkMsg (ev_id e) True NoReason)]
                         | Some why \<Rightarrow>
                             (if event_needs_auth why then [(cid, AuthMsg (cl_challenge cl))] else []) @
                             [(cid, OkMsg (ev_id e) False why)]),
                        h2))))"

definition handle_ephemeral ::
  "'d store_ops \<Rightarrow> wire_outside \<Rightarrow> timestamp \<Rightarrow> nat \<Rightarrow> client \<Rightarrow> event \<Rightarrow> 'd hub \<Rightarrow> delivery list \<times> 'd hub" where
  "handle_ephemeral ops w now cid cl e h =
     (case reject_event ops (wi_out w) now (context_of cl) e (hub_relay h) of
        (r, e1, rs1) \<Rightarrow>
          (let h1 = h\<lparr>hub_relay := rs1\<rparr>
           in case r of
                Some x \<Rightarrow>
                  ((if event_needs_auth (RefusedFor x) then [(cid, AuthMsg (cl_challenge cl))] else []) @
                   [(cid, OkMsg (ev_id e) False (RefusedFor x))], h1)
              | None \<Rightarrow>
                  (let out = notify_listeners h1 e1
                   in (out @ [if out = [] then (cid, OkMsg (ev_id e) False NobodyListening)
                              else (cid, OkMsg (ev_id e) True (BroadcastTo (length out)))], h1))))"

definition handle_event_message ::
  "'d store_ops \<Rightarrow> wire_outside \<Rightarrow> timestamp \<Rightarrow> (string \<Rightarrow> roster_orders) \<Rightarrow> nat \<Rightarrow> client \<Rightarrow> event \<Rightarrow>
     'd hub \<Rightarrow> unit outcome \<times> delivery list \<times> 'd hub" where
  "handle_event_message ops w now ords cid cl e h =
     (case check_event w cl e of
        Some why \<Rightarrow>
          (Returned (), (if why = MustAuthenticate then [(cid, AuthMsg (cl_challenge cl))] else []) @
             [(cid, OkMsg (ev_id e) False why)], h)
      | None \<Rightarrow>
          if ev_kind e \<noteq> kDeletion \<and> is_ephemeral (ev_kind e) then
            (case handle_ephemeral ops w now cid cl e h of (out, h1) \<Rightarrow> (Returned (), out, h1))
          else handle_stored_event ops w now ords cid cl e h)"

subsection \<open>REQ\<close>

definition stored_answers ::
  "'d store_ops \<Rightarrow> pubkey list \<Rightarrow> nfilter \<Rightarrow> 'd hub \<Rightarrow> event list" where
  "stored_answers ops authed f h =
     (if f_limit_zero f then []
      else relay_query ops (hub_groups h) authed False f (gs_db (rs_groups (hub_relay h))))"

fun handle_requests ::
  "'d store_ops \<Rightarrow> nat \<Rightarrow> client \<Rightarrow> string \<Rightarrow> nfilter list \<Rightarrow> 'd hub \<Rightarrow> delivery list \<times> 'd hub" where
  "handle_requests ops cid cl sid [] h = ([(cid, EoseMsg sid)], h)"
| "handle_requests ops cid cl sid (f # fs) h =
     (case reject_request (hub_groups h) (cl_authed cl) f of
        Some why \<Rightarrow>
          ((if request_needs_auth why then [(cid, AuthMsg (cl_challenge cl))] else []) @
           [(cid, ClosedMsg sid why)], h)
      | None \<Rightarrow>
          (case handle_requests ops cid cl sid fs (if f_ids f = None then add_listener cid sid f h else h) of
             (out, h1) \<Rightarrow>
               (map (\<lambda>e. (cid, EventMsg sid e)) (stored_answers ops (cl_authed cl) f h) @ out, h1)))"

definition handle_req ::
  "'d store_ops \<Rightarrow> nat \<Rightarrow> client \<Rightarrow> string \<Rightarrow> nfilter list \<Rightarrow> 'd hub \<Rightarrow> delivery list \<times> 'd hub" where
  "handle_req ops cid cl sid fs h = handle_requests ops cid cl sid fs (remove_listener_id cid sid h)"

subsection \<open>AUTH (NIP-42)\<close>

definition trim_suffix :: "string \<Rightarrow> string \<Rightarrow> string" where
  "trim_suffix s suf =
     (if length suf \<le> length s \<and> drop (length s - length suf) s = suf
      then take (length s - length suf) s else s)"

definition validate_auth_event ::
  "wire_outside \<Rightarrow> timestamp \<Rightarrow> event \<Rightarrow> string \<Rightarrow> string \<Rightarrow> auth_error + pubkey" where
  "validate_auth_event w now e challenge url =
     (let parse = (\<lambda>s. wi_parse_url w (trim_suffix s ''/''))
      in if ev_kind e \<noteq> kClientAuthentication then Inl AuthKind
         else if find_with_value (ev_tags e) ''challenge'' challenge = None then
           Inl (if tags_find (ev_tags e) ''challenge'' = None then AuthNoChallenge else AuthChallenge)
         else case parse url of
             None \<Rightarrow> Inl AuthOwnUrl
           | Some expected \<Rightarrow>
               (case tags_find (ev_tags e) ''relay'' of
                  None \<Rightarrow> Inl AuthNoRelay
                | Some t \<Rightarrow>
                    (case parse (t ! 1) of
                       None \<Rightarrow> Inl AuthRelayUrl
                     | Some found \<Rightarrow>
                         if found \<noteq> expected then Inl AuthRelay
                         else if now + 600 < ev_created_at e \<or> ev_created_at e < now - 600 then Inl AuthTime
                         else if \<not> wi_verify w e then Inl AuthSignature
                         else Inr (ev_pubkey e))))"

text \<open>\<open>strings.Replace(url, http, ws, 1)\<close>; \<open>MaxAuthenticatedClients\<close> is 8.\<close>

definition ws_base_url :: "string \<Rightarrow> string" where
  "ws_base_url url =
     (case str_index url ''http'' of
        None \<Rightarrow> url
      | Some i \<Rightarrow> take i url @ ''ws'' @ drop (i + 4) url)"

definition handle_auth ::
  "wire_outside \<Rightarrow> timestamp \<Rightarrow> nat \<Rightarrow> client \<Rightarrow> event \<Rightarrow> 'd hub \<Rightarrow> delivery list \<times> 'd hub" where
  "handle_auth w now cid cl e h =
     (case validate_auth_event w now e (cl_challenge cl) (ws_base_url (hub_base_url h)) of
        Inl err \<Rightarrow> ([(cid, OkMsg (ev_id e) False (AuthFailed err))], h)
      | Inr pk \<Rightarrow>
          ([(cid, OkMsg (ev_id e) True NoReason)],
           h\<lparr>hub_clients := (hub_clients h)
               (cid \<mapsto> cl\<lparr>cl_authed := authenticate 8 pk (cl_authed cl)\<rparr>)\<rparr>))"

subsection \<open>NEG-OPEN\<close>

definition handle_neg_open ::
  "'d store_ops \<Rightarrow> nat \<Rightarrow> client \<Rightarrow> string \<Rightarrow> nfilter \<Rightarrow> 'd hub \<Rightarrow> delivery list" where
  "handle_neg_open ops cid cl sid f h =
     (if f_limit_zero f then [(cid, NegError sid None)]
      else case reject_request (hub_groups h) (cl_authed cl) f of
             Some why \<Rightarrow>
               (if request_needs_auth why then [(cid, AuthMsg (cl_challenge cl))] else []) @
               [(cid, NegError sid (Some why))]
           | None \<Rightarrow>
               [(cid, NegVector sid (map (\<lambda>e. (ev_created_at e, ev_id e))
                   (relay_query ops (hub_groups h) (cl_authed cl) True f (gs_db (rs_groups (hub_relay h))))))])"

subsection \<open>The connection's loop\<close>

datatype client_message =
    EventIn event
  | ReqIn string "nfilter list"
  | CountIn string nfilter
  | CloseIn string
  | AuthIn event
  | NegOpenIn string nfilter
  | Unparsed

definition handle_message ::
  "'d store_ops \<Rightarrow> wire_outside \<Rightarrow> timestamp \<Rightarrow> (string \<Rightarrow> roster_orders) \<Rightarrow> nat \<Rightarrow> client \<Rightarrow>
     client_message \<Rightarrow> 'd hub \<Rightarrow> unit outcome \<times> delivery list \<times> 'd hub" where
  "handle_message ops w now ords cid cl m h =
     (case m of
        EventIn e \<Rightarrow> handle_event_message ops w now ords cid cl e h
      | ReqIn sid fs \<Rightarrow> (Returned (), handle_req ops cid cl sid fs h)
      | CountIn sid f \<Rightarrow> (Returned (), [(cid, UnsupportedMsg sid)], h)
      | CloseIn sid \<Rightarrow> (Returned (), [], remove_listener_id cid sid h)
      | AuthIn e \<Rightarrow> (Returned (), handle_auth w now cid cl e h)
      | NegOpenIn sid f \<Rightarrow> (Returned (), handle_neg_open ops cid cl sid f h, h)
      | Unparsed \<Rightarrow> (Returned (), [(cid, NoticeMsg)], h))"

text \<open>A connection opens with a fresh challenge, sends messages and closes.\<close>

datatype wire_act =
    Connect nat string string
  | Message nat timestamp "string \<Rightarrow> roster_orders" client_message
  | Disconnect nat

definition hub_step ::
  "'d store_ops \<Rightarrow> wire_outside \<Rightarrow> wire_act \<Rightarrow> 'd hub \<Rightarrow> unit outcome \<times> delivery list \<times> 'd hub" where
  "hub_step ops w a h =
     (case a of
        Connect cid challenge ip \<Rightarrow>
          (Returned (), [],
           if hub_clients h cid = None then
             h\<lparr>hub_clients := (hub_clients h)
                 (cid \<mapsto> \<lparr>cl_challenge = challenge, cl_authed = [], cl_ip = ip, cl_specs = []\<rparr>)\<rparr>
           else h)
      | Message cid now ords m \<Rightarrow>
          (case hub_clients h cid of
             None \<Rightarrow> (Returned (), [], h)
           | Some cl \<Rightarrow> handle_message ops w now ords cid cl m h)
      | Disconnect cid \<Rightarrow> (Returned (), [], remove_client cid h))"

subsection \<open>What the handlers leave alone\<close>

definition same_wires :: "'d hub \<Rightarrow> 'd hub \<Rightarrow> bool" where
  "same_wires h h' \<longleftrightarrow> hub_dispatcher h' = hub_dispatcher h \<and> hub_clients h' = hub_clients h \<and>
     hub_base_url h' = hub_base_url h"

lemma same_wires_simps [simp]:
  "same_wires h h" "same_wires h (h\<lparr>hub_relay := s\<rparr>)"
  by (simp_all add: same_wires_def)

lemma notify_mem:
  assumes "dispatcher_ok (hub_dispatcher h)" "(c, m) \<in> set (notify_listeners h e)"
  shows "\<exists>i sub. dp_subs (hub_dispatcher h) i = Some sub \<and> sb_ws sub = Some c \<and>
    m = EventMsg (sb_id sub) e \<and> listens_for (sb_filter sub) e \<and>
    \<not> should_prevent_broadcast (hub_groups h) (authed_of h (Some c)) (sb_filter sub) e"
  using assms(2) listeners.candidate_listens [OF assms(1), of _ e]
  by (fastforce simp: notify_listeners_def deliver_to_def split: option.splits)

text \<open>Every event an \<open>EVENT\<close> message sends out is sent to listeners.\<close>

definition sent_to_listeners :: "'d hub \<Rightarrow> delivery list \<Rightarrow> bool" where
  "sent_to_listeners h out \<longleftrightarrow>
     (\<forall>c sid x. (c, EventMsg sid x) \<in> set out \<longrightarrow>
        (\<exists>h2. same_wires h h2 \<and> (c, EventMsg sid x) \<in> set (notify_listeners h2 x)))"

lemma sent_simps [simp]:
  "sent_to_listeners h []"
  "sent_to_listeners h (xs @ ys) \<longleftrightarrow> sent_to_listeners h xs \<and> sent_to_listeners h ys"
  "sent_to_listeners h ((c, OkMsg i b r) # ys) \<longleftrightarrow> sent_to_listeners h ys"
  "sent_to_listeners h ((c, AuthMsg s) # ys) \<longleftrightarrow> sent_to_listeners h ys"
  by (auto simp: sent_to_listeners_def)

lemma sent_notify:
  assumes "same_wires h h2" shows "sent_to_listeners h (notify_listeners h2 e)"
proof -
  have "x = e" if "(c, EventMsg sid x) \<in> set (notify_listeners h2 e)" for c sid x
    using that by (auto simp: notify_listeners_def deliver_to_def split: option.splits)
  with assms show ?thesis by (auto simp: sent_to_listeners_def)
qed

lemma sent_notify_all:
  "same_wires h h2 \<Longrightarrow> sent_to_listeners h (concat (map (notify_listeners h2) es))"
  by (induction es) (simp_all add: sent_notify)

lemma handle_stored_event_wires:
  assumes "handle_stored_event ops w now ords cid cl e h = (r, out, h')"
  shows "same_wires h h' \<and> sent_to_listeners h out"
proof -
  obtain q bs rs1 where n: "handle_normal ops (wi_out w) now ords (context_of cl) e (hub_relay h) = (q, bs, rs1)"
    by (metis prod_cases3)
  obtain skip err where o: "write_outcome q = (skip, err)" by fastforce
  let ?e1 = "seen_event ops (wi_out w) now (context_of cl) e (hub_relay h)"
  let ?del = "handle_delete_request ops (cr_valid (out_crypto (wi_out w))) (cl_authed cl) ?e1 rs1"
  obtain err2 h2 where d: "(if ev_kind e = kDeletion \<and> err = None then
      map_prod (map_option DeletionFailed) (\<lambda>s. h\<lparr>hub_relay := rs1, hub_relay := s\<rparr>) ?del
      else (err, h\<lparr>hub_relay := rs1\<rparr>)) = (err2, h2)" by fastforce
  have h2: "same_wires h h2" using d by (cases ?del) (auto simp: same_wires_def split: if_splits)
  have "h' = h2" "out = concat (map (notify_listeners (h\<lparr>hub_relay := rs1\<rparr>)) bs) @
      (case err2 of
         None \<Rightarrow> (if skip then [] else notify_listeners h2 ?e1) @ [(cid, OkMsg (ev_id e) True NoReason)]
       | Some why \<Rightarrow>
           (if event_needs_auth why then [(cid, AuthMsg (cl_challenge cl))] else []) @
           [(cid, OkMsg (ev_id e) False why)])"
    using assms d by (simp_all add: handle_stored_event_def n o Let_def)
  with h2 sent_notify [OF h2] show ?thesis
    by (auto simp: sent_notify_all split: option.splits)
qed

lemma handle_event_message_wires:
  assumes "handle_event_message ops w now ords cid cl e h = (r, out, h')"
  shows "same_wires h h' \<and> sent_to_listeners h out"
proof (cases "check_event w cl e")
  case (Some why)
  with assms show ?thesis by (auto simp: handle_event_message_def)
next
  case None
  show ?thesis
  proof (cases "ev_kind e \<noteq> kDeletion \<and> is_ephemeral (ev_kind e)")
    case False
    with None assms have "handle_stored_event ops w now ords cid cl e h = (r, out, h')"
      unfolding handle_event_message_def None option.case by (simp only: if_False)
    then show ?thesis by (rule handle_stored_event_wires)
  next
    case True
    obtain q e1 rs1 where q: "reject_event ops (wi_out w) now (context_of cl) e (hub_relay h) = (q, e1, rs1)"
      by (metis prod_cases3)
    from True None assms have "(out, h') = handle_ephemeral ops w now cid cl e h"
      unfolding handle_event_message_def by (auto split: prod.splits)
    then show ?thesis
      using sent_notify [of h "h\<lparr>hub_relay := rs1\<rparr>" e1]
      by (auto simp: handle_ephemeral_def q Let_def split: option.splits)
  qed
qed

subsection \<open>What a run of messages establishes\<close>

type_synonym 'd trace = "('d hub \<times> wire_act) list"

inductive hub_run ::
  "'d store_ops \<Rightarrow> wire_outside \<Rightarrow> 'd hub \<Rightarrow> 'd trace \<Rightarrow> 'd hub \<Rightarrow> bool"
  for ops w h0 where
  run_start: "hub_run ops w h0 [] h0"
| run_step:
    "hub_run ops w h0 tr h \<Longrightarrow> hub_step ops w a h = (Returned (), out, h') \<Longrightarrow>
     hub_run ops w h0 (tr @ [(h, a)]) h'"

text \<open>The connection with this challenge asked for the filter, and the relay let it.\<close>

definition opened_by :: "'d trace \<Rightarrow> nat \<Rightarrow> string \<Rightarrow> string \<Rightarrow> nfilter \<Rightarrow> bool" where
  "opened_by tr c ch sid f \<longleftrightarrow>
     (\<exists>h now ords fs cl. (h, Message c now ords (ReqIn sid fs)) \<in> set tr \<and> f \<in> set fs \<and>
        hub_clients h c = Some cl \<and> cl_challenge cl = ch \<and>
        reject_request (hub_groups h) (cl_authed cl) f = None)"

text \<open>
  The connection with this challenge sent a fresh authentication event that names the challenge, with a
  valid signature of the key.
\<close>

definition proved_by :: "wire_outside \<Rightarrow> 'd trace \<Rightarrow> nat \<Rightarrow> string \<Rightarrow> pubkey \<Rightarrow> bool" where
  "proved_by w tr c ch k \<longleftrightarrow>
     (\<exists>h now ords e cl. (h, Message c now ords (AuthIn e)) \<in> set tr \<and>
        hub_clients h c = Some cl \<and> cl_challenge cl = ch \<and> ev_pubkey e = k \<and> wi_verify w e \<and>
        ev_kind e = kClientAuthentication \<and> now - 600 \<le> ev_created_at e \<and> ev_created_at e \<le> now + 600 \<and>
        (\<exists>t \<in> set (ev_tags e). tag_is ''challenge'' t \<and> t ! 1 = ch))"

lemma validate_auth_event_passed:
  assumes "validate_auth_event w now e ch url = Inr k"
  shows "ev_pubkey e = k" "wi_verify w e" "ev_kind e = kClientAuthentication"
    "now - 600 \<le> ev_created_at e" "ev_created_at e \<le> now + 600"
    "\<exists>t \<in> set (ev_tags e). tag_is ''challenge'' t \<and> t ! 1 = ch"
proof -
  have "find_with_value (ev_tags e) ''challenge'' ch \<noteq> None"
    using assms by (auto simp: validate_auth_event_def Let_def split: if_splits)
  then show "\<exists>t \<in> set (ev_tags e). tag_is ''challenge'' t \<and> t ! 1 = ch"
    by (auto simp: find_with_value_def find_Some_iff tag_is_def)
qed (use assms in \<open>auto simp: validate_auth_event_def Let_def split: if_splits option.splits\<close>)

definition keys_proved :: "wire_outside \<Rightarrow> 'd trace \<Rightarrow> (nat \<rightharpoonup> client) \<Rightarrow> bool" where
  "keys_proved w tr cs \<longleftrightarrow>
     (\<forall>c cl k. cs c = Some cl \<longrightarrow> k \<in> set (cl_authed cl) \<longrightarrow> proved_by w tr c (cl_challenge cl) k)"

text \<open>A subscription stands on its client's list, and was opened by it.\<close>

definition subs_opened :: "'d trace \<Rightarrow> (nat \<rightharpoonup> client) \<Rightarrow> (nat \<rightharpoonup> subscription) \<Rightarrow> bool" where
  "subs_opened tr cs subs \<longleftrightarrow>
     (\<forall>i sub. subs i = Some sub \<longrightarrow>
        (\<exists>c cl. sb_ws sub = Some c \<and> cs c = Some cl \<and> (i, sb_id sub) \<in> set (cl_specs cl) \<and>
           opened_by tr c (cl_challenge cl) (sb_id sub) (sb_filter sub)))"

definition wires_ok :: "wire_outside \<Rightarrow> 'd trace \<Rightarrow> 'd hub \<Rightarrow> bool" where
  "wires_ok w tr h \<longleftrightarrow>
     dispatcher_ok (hub_dispatcher h) \<and> keys_proved w tr (hub_clients h) \<and>
     subs_opened tr (hub_clients h) (dp_subs (hub_dispatcher h))"

lemma opened_by_more: "opened_by tr c ch sid f \<Longrightarrow> opened_by (tr @ ys) c ch sid f"
  by (fastforce simp: opened_by_def)

lemma proved_by_more: "proved_by w tr c ch k \<Longrightarrow> proved_by w (tr @ ys) c ch k"
  by (fastforce simp: proved_by_def)

lemma keys_proved_more: "keys_proved w tr cs \<Longrightarrow> keys_proved w (tr @ ys) cs"
  by (auto simp: keys_proved_def intro: proved_by_more)

lemma subs_opened_more: "subs_opened tr cs subs \<Longrightarrow> subs_opened (tr @ ys) cs subs"
  unfolding subs_opened_def by (meson opened_by_more)

lemma wires_ok_more: "wires_ok w tr h \<Longrightarrow> wires_ok w (tr @ ys) h"
  by (simp add: wires_ok_def keys_proved_more subs_opened_more)

lemma wires_okD:
  assumes "wires_ok w tr h"
  shows "dispatcher_ok (hub_dispatcher h)" "keys_proved w tr (hub_clients h)"
    "subs_opened tr (hub_clients h) (dp_subs (hub_dispatcher h))"
  using assms by (simp_all add: wires_ok_def)

lemma subs_openedE:
  assumes "subs_opened tr cs subs" "subs i = Some sub"
  obtains c cl where "sb_ws sub = Some c" "cs c = Some cl" "(i, sb_id sub) \<in> set (cl_specs cl)"
    "opened_by tr c (cl_challenge cl) (sb_id sub) (sb_filter sub)"
  using assms unfolding subs_opened_def by blast

text \<open>A change of one client's list of subscriptions.\<close>

lemma keys_proved_client:
  "keys_proved w tr cs \<Longrightarrow> cs c = Some cl \<Longrightarrow> cl_challenge cl' = cl_challenge cl \<Longrightarrow>
   set (cl_authed cl') \<subseteq> set (cl_authed cl) \<Longrightarrow> keys_proved w tr (cs(c \<mapsto> cl'))"
  by (force simp: keys_proved_def)

lemma wires_ok_add:
  assumes ok: "wires_ok w tr h" and cl: "hub_clients h c = Some cl"
    and f: "opened_by tr c (cl_challenge cl) sid f"
  shows "wires_ok w tr (add_listener c sid f h)"
proof -
  let ?s = "\<lparr>sb_id = sid, sb_filter = f, sb_ws = Some c\<rparr>"
  obtain i d where a: "add_subscription ?s (hub_dispatcher h) = (i, d)" by fastforce
  let ?cl = "cl\<lparr>cl_specs := cl_specs cl @ [(i, sid)]\<rparr>"
  have eq: "add_listener c sid f h =
      h\<lparr>hub_dispatcher := d, hub_clients := (hub_clients h)(c \<mapsto> ?cl)\<rparr>"
    by (simp add: add_listener_def cl a)
  from add_subscription_ok [OF wires_okD(1) [OF ok] a]
  have d: "dispatcher_ok d" "dp_subs d = (dp_subs (hub_dispatcher h))(i \<mapsto> ?s)" by auto
  have "subs_opened tr ((hub_clients h)(c \<mapsto> ?cl)) ((dp_subs (hub_dispatcher h))(i \<mapsto> ?s))"
    unfolding subs_opened_def
  proof (intro allI impI)
    fix j sub assume j: "((dp_subs (hub_dispatcher h))(i \<mapsto> ?s)) j = Some sub"
    show "\<exists>c' cl'. sb_ws sub = Some c' \<and> ((hub_clients h)(c \<mapsto> ?cl)) c' = Some cl' \<and>
        (j, sb_id sub) \<in> set (cl_specs cl') \<and> opened_by tr c' (cl_challenge cl') (sb_id sub) (sb_filter sub)"
    proof (cases "j = i")
      case True
      with j f show ?thesis by auto
    next
      case False
      with j have "dp_subs (hub_dispatcher h) j = Some sub" by simp
      from subs_openedE [OF wires_okD(3) [OF ok] this] obtain c' cl' where
        "sb_ws sub = Some c'" "hub_clients h c' = Some cl'" "(j, sb_id sub) \<in> set (cl_specs cl')"
        "opened_by tr c' (cl_challenge cl') (sb_id sub) (sb_filter sub)" .
      with cl show ?thesis by (cases "c' = c") auto
    qed
  qed
  moreover have "keys_proved w tr ((hub_clients h)(c \<mapsto> ?cl))"
    using keys_proved_client [OF wires_okD(2) [OF ok] cl] by simp
  ultimately show ?thesis using d by (simp add: wires_ok_def eq)
qed

lemma drop_subscriptions_ok:
  assumes "dispatcher_ok d"
  shows "dispatcher_ok (drop_subscriptions is d)" "dp_subs (drop_subscriptions is d) = dp_subs d |` (- set is)"
  using listeners.remove_all [OF assms, of "is"] by auto

lemma wires_ok_remove_id:
  assumes ok: "wires_ok w tr h" and cl: "hub_clients h c = Some cl"
  shows "wires_ok w tr (remove_listener_id c sid h)"
proof -
  let ?is = "map fst (filter (\<lambda>(_, x). x = sid) (cl_specs cl))"
  let ?cl = "cl\<lparr>cl_specs := filter (\<lambda>(_, x). x \<noteq> sid) (cl_specs cl)\<rparr>"
  note d = drop_subscriptions_ok [OF wires_okD(1) [OF ok], of ?is]
  have eq: "remove_listener_id c sid h = h\<lparr>hub_dispatcher := drop_subscriptions ?is (hub_dispatcher h),
      hub_clients := (hub_clients h)(c \<mapsto> ?cl)\<rparr>"
    by (simp add: remove_listener_id_def cl)
  have "subs_opened tr ((hub_clients h)(c \<mapsto> ?cl)) (dp_subs (hub_dispatcher h) |` (- set ?is))"
    unfolding subs_opened_def
  proof (intro allI impI)
    fix j sub assume "(dp_subs (hub_dispatcher h) |` (- set ?is)) j = Some sub"
    then have j: "dp_subs (hub_dispatcher h) j = Some sub" "j \<notin> set ?is"
      by (auto simp: restrict_map_def split: if_splits)
    from subs_openedE [OF wires_okD(3) [OF ok] j(1)] obtain c' cl' where
      o: "sb_ws sub = Some c'" "hub_clients h c' = Some cl'" "(j, sb_id sub) \<in> set (cl_specs cl')"
      "opened_by tr c' (cl_challenge cl') (sb_id sub) (sb_filter sub)" .
    have "sb_id sub \<noteq> sid" if "c' = c"
      using that o(2,3) cl j(2) by force
    with o cl show "\<exists>c' cl'. sb_ws sub = Some c' \<and> ((hub_clients h)(c \<mapsto> ?cl)) c' = Some cl' \<and>
        (j, sb_id sub) \<in> set (cl_specs cl') \<and> opened_by tr c' (cl_challenge cl') (sb_id sub) (sb_filter sub)"
      by (cases "c' = c") auto
  qed
  moreover have "keys_proved w tr ((hub_clients h)(c \<mapsto> ?cl))"
    using keys_proved_client [OF wires_okD(2) [OF ok] cl] by simp
  ultimately show ?thesis using d by (simp add: wires_ok_def eq)
qed

lemma wires_ok_remove_client:
  assumes ok: "wires_ok w tr h"
  shows "wires_ok w tr (remove_client c h)"
proof (cases "hub_clients h c")
  case None
  then have "remove_client c h = h\<lparr>hub_clients := hub_clients h\<rparr>"
    by (simp add: remove_client_def fun_upd_idem)
  with ok show ?thesis by simp
next
  case (Some cl)
  let ?is = "map fst (cl_specs cl)"
  note d = drop_subscriptions_ok [OF wires_okD(1) [OF ok], of ?is]
  have eq: "remove_client c h = h\<lparr>hub_dispatcher := drop_subscriptions ?is (hub_dispatcher h),
      hub_clients := (hub_clients h)(c := None)\<rparr>"
    by (simp add: remove_client_def Some)
  have "subs_opened tr ((hub_clients h)(c := None)) (dp_subs (hub_dispatcher h) |` (- set ?is))"
    unfolding subs_opened_def
  proof (intro allI impI)
    fix j sub assume "(dp_subs (hub_dispatcher h) |` (- set ?is)) j = Some sub"
    then have j: "dp_subs (hub_dispatcher h) j = Some sub" "j \<notin> set ?is"
      by (auto simp: restrict_map_def split: if_splits)
    from subs_openedE [OF wires_okD(3) [OF ok] j(1)] obtain c' cl' where
      o: "sb_ws sub = Some c'" "hub_clients h c' = Some cl'" "(j, sb_id sub) \<in> set (cl_specs cl')"
      "opened_by tr c' (cl_challenge cl') (sb_id sub) (sb_filter sub)" .
    moreover have "c' \<noteq> c" using o(2,3) Some j(2) by force
    ultimately show "\<exists>c' cl'. sb_ws sub = Some c' \<and> ((hub_clients h)(c := None)) c' = Some cl' \<and>
        (j, sb_id sub) \<in> set (cl_specs cl') \<and> opened_by tr c' (cl_challenge cl') (sb_id sub) (sb_filter sub)"
      by auto
  qed
  moreover have "keys_proved w tr ((hub_clients h)(c := None))"
    using wires_okD(2) [OF ok] by (simp add: keys_proved_def)
  ultimately show ?thesis using d by (simp add: wires_ok_def eq)
qed

lemma listener_frame [simp]:
  "hub_relay (add_listener c sid f h) = hub_relay h"
  "hub_relay (remove_listener_id c sid h) = hub_relay h"
  "hub_base_url (add_listener c sid f h) = hub_base_url h"
  by (simp_all add: add_listener_def remove_listener_id_def split: option.splits prod.splits)

lemma add_listener_client:
  assumes "hub_clients h c = Some cl"
  shows "\<exists>cl'. hub_clients (add_listener c sid f h) c = Some cl' \<and>
    cl_challenge cl' = cl_challenge cl \<and> cl_authed cl' = cl_authed cl"
  using assms by (auto simp: add_listener_def split: prod.splits)

lemma remove_listener_client:
  assumes "hub_clients h c = Some cl"
  shows "\<exists>cl'. hub_clients (remove_listener_id c sid h) c = Some cl' \<and>
    cl_challenge cl' = cl_challenge cl \<and> cl_authed cl' = cl_authed cl"
  using assms by (auto simp: remove_listener_id_def)

text \<open>What a \<open>REQ\<close> is answered with, and what stays registered afterwards.\<close>

lemma handle_requests_wires:
  assumes "handle_requests ops c cl sid fs h = (out, h')" "wires_ok w tr h"
    and "\<exists>cl'. hub_clients h c = Some cl' \<and> cl_challenge cl' = cl_challenge cl"
    and "\<And>f. f \<in> set fs \<Longrightarrow> reject_request (hub_groups h) (cl_authed cl) f = None \<Longrightarrow>
           opened_by tr c (cl_challenge cl) sid f"
  shows "wires_ok w tr h' \<and> (\<forall>c' sid' x. (c', EventMsg sid' x) \<in> set out \<longrightarrow> c' = c \<and> sid' = sid \<and>
    (\<exists>f. f \<in> set fs \<and> reject_request (hub_groups h) (cl_authed cl) f = None \<and>
       x \<in> set (stored_answers ops (cl_authed cl) f h)))"
  using assms
proof (induction ops c cl sid fs h arbitrary: out rule: handle_requests.induct)
  case (1 ops c cl sid h)
  then show ?case by auto
next
  case (2 ops c cl sid f fs h)
  show ?case
  proof (cases "reject_request (hub_groups h) (cl_authed cl) f")
    case (Some why)
    with "2.prems"(1,2) show ?thesis by auto
  next
    case None
    let ?h = "if f_ids f = None then add_listener c sid f h else h"
    obtain out1 where q: "handle_requests ops c cl sid fs ?h = (out1, h')"
      and out: "out = map (\<lambda>e. (c, EventMsg sid e)) (stored_answers ops (cl_authed cl) f h) @ out1"
      using "2.prems"(1) None by (auto split: prod.splits)
    have same: "hub_groups ?h = hub_groups h"
      "stored_answers ops a g ?h = stored_answers ops a g h" for a g
      by (simp_all add: hub_groups_def stored_answers_def)
    obtain cl' where cl': "hub_clients h c = Some cl'" "cl_challenge cl' = cl_challenge cl"
      using "2.prems"(3) by blast
    have "opened_by tr c (cl_challenge cl') sid f"
      using "2.prems"(4) [of f] None cl'(2) by simp
    then have "wires_ok w tr ?h" using "2.prems"(2) wires_ok_add [OF _ cl'(1)] by auto
    moreover have "\<exists>cl'. hub_clients ?h c = Some cl' \<and> cl_challenge cl' = cl_challenge cl"
      using add_listener_client [OF cl'(1), of sid f] cl' by auto
    ultimately have ok: "wires_ok w tr h'" and IH: "\<And>c' sid' x. (c', EventMsg sid' x) \<in> set out1 \<Longrightarrow>
        c' = c \<and> sid' = sid \<and> (\<exists>f. f \<in> set fs \<and>
          reject_request (hub_groups h) (cl_authed cl) f = None \<and>
          x \<in> set (stored_answers ops (cl_authed cl) f h))"
      using "2.IH" [OF None q] "2.prems"(4) unfolding same by auto
    have "c' = c \<and> sid' = sid \<and> (\<exists>g. g \<in> set (f # fs) \<and>
        reject_request (hub_groups h) (cl_authed cl) g = None \<and>
        x \<in> set (stored_answers ops (cl_authed cl) g h))"
      if "(c', EventMsg sid' x) \<in> set out" for c' sid' x
    proof (cases "(c', EventMsg sid' x) \<in> set out1")
      case True
      from IH [OF this] show ?thesis by auto
    next
      case False
      with that out None show ?thesis by auto
    qed
    with ok show ?thesis by blast
  qed
qed

lemma authenticate_keys: "set (authenticate mx pk keys) \<subseteq> insert pk (set keys)"
proof (cases "slice_index keys pk")
  case None
  have "keys ! (length keys - 1) \<in> set keys" if "keys \<noteq> []" using that by simp
  then have "set (keys[0 := keys ! (length keys - 1), length keys - 1 := pk]) \<subseteq> insert pk (set keys)"
    using set_update_subset_insert [of "keys[0 := keys ! (length keys - 1)]" "length keys - 1" pk]
      set_update_subset_insert [of keys 0 "keys ! (length keys - 1)"]
    by (cases "keys = []") auto
  then show ?thesis unfolding authenticate_def None by simp
next
  case (Some i)
  then have "i < length keys" using slice_index_SomeD by fast
  then have "mset (slice_swap keys i (length keys - 1)) = mset keys" by (intro mset_slice_swap) auto
  from mset_eq_setD [OF this] show ?thesis by (auto simp: authenticate_def Some)
qed

lemma wires_ok_auth:
  assumes ok: "wires_ok w tr h" and cl: "hub_clients h c = Some cl"
    and m: "(h, Message c now ords (AuthIn e)) \<in> set tr"
  shows "wires_ok w tr (snd (handle_auth w now c cl e h))"
proof (cases "validate_auth_event w now e (cl_challenge cl) (ws_base_url (hub_base_url h))")
  case (Inl err)
  with ok show ?thesis by (simp add: handle_auth_def)
next
  case (Inr pk)
  let ?cl = "cl\<lparr>cl_authed := authenticate 8 pk (cl_authed cl)\<rparr>"
  have "proved_by w tr c (cl_challenge cl) k" if "k \<in> set (cl_authed ?cl)" for k
  proof (cases "k = pk")
    case True
    with m cl validate_auth_event_passed [OF Inr] show ?thesis unfolding proved_by_def by blast
  next
    case False
    with that authenticate_keys [of 8 pk "cl_authed cl"] have "k \<in> set (cl_authed cl)" by auto
    with wires_okD(2) [OF ok] cl show ?thesis by (auto simp: keys_proved_def)
  qed
  then have "keys_proved w tr ((hub_clients h)(c \<mapsto> ?cl))"
    using wires_okD(2) [OF ok] by (auto simp: keys_proved_def)
  moreover have "subs_opened tr ((hub_clients h)(c \<mapsto> ?cl)) (dp_subs (hub_dispatcher h))"
    using wires_okD(3) [OF ok] cl unfolding subs_opened_def by fastforce
  ultimately show ?thesis using wires_okD(1) [OF ok] by (simp add: handle_auth_def Inr wires_ok_def)
qed

lemma wires_ok_same: "same_wires h h' \<Longrightarrow> wires_ok w tr h' = wires_ok w tr h"
  by (simp add: same_wires_def wires_ok_def)

lemma handle_req_wires:
  assumes r: "handle_req ops c cl sid fs h = (out, h')" and ok: "wires_ok w tr h"
    and cl: "hub_clients h c = Some cl" and m: "(h, Message c now ords (ReqIn sid fs)) \<in> set tr"
  shows "wires_ok w tr h' \<and> (\<forall>c' sid' x. (c', EventMsg sid' x) \<in> set out \<longrightarrow> c' = c \<and> sid' = sid \<and>
    (\<exists>f. f \<in> set fs \<and> reject_request (hub_groups h) (cl_authed cl) f = None \<and>
       x \<in> set (stored_answers ops (cl_authed cl) f h)))"
proof -
  let ?h = "remove_listener_id c sid h"
  have same: "hub_groups ?h = hub_groups h" "stored_answers ops a g ?h = stored_answers ops a g h" for a g
    by (simp_all add: hub_groups_def stored_answers_def)
  have "opened_by tr c (cl_challenge cl) sid f"
    if "f \<in> set fs" "reject_request (hub_groups ?h) (cl_authed cl) f = None" for f
    using that m cl unfolding same opened_by_def by blast
  moreover have "\<exists>cl'. hub_clients ?h c = Some cl' \<and> cl_challenge cl' = cl_challenge cl"
    using remove_listener_client [OF cl, of sid] by auto
  ultimately show ?thesis
    using handle_requests_wires [OF r [unfolded handle_req_def] wires_ok_remove_id [OF ok cl]]
    unfolding same by blast
qed

lemma hub_step_wires:
  assumes ok: "wires_ok w tr h" and st: "hub_step ops w a h = (r, out, h')"
  shows "wires_ok w (tr @ [(h, a)]) h'"
proof -
  let ?tr = "tr @ [(h, a)]"
  have ok': "wires_ok w ?tr h" by (rule wires_ok_more [OF ok])
  show ?thesis
  proof (cases a)
    case (Connect cid ch ip)
    show ?thesis
    proof (cases "hub_clients h cid")
      case None
      let ?cs = "(hub_clients h)(cid \<mapsto> \<lparr>cl_challenge = ch, cl_authed = [], cl_ip = ip, cl_specs = []\<rparr>)"
      have "keys_proved w ?tr ?cs" using wires_okD(2) [OF ok'] by (auto simp: keys_proved_def)
      moreover have "subs_opened ?tr ?cs (dp_subs (hub_dispatcher h))"
        using wires_okD(3) [OF ok'] None unfolding subs_opened_def by (metis fun_upd_other option.distinct(1))
      ultimately show ?thesis
        using st None wires_okD(1) [OF ok'] by (auto simp: hub_step_def Connect wires_ok_def)
    next
      case (Some cl)
      with st ok' show ?thesis by (simp add: hub_step_def Connect)
    qed
  next
    case (Disconnect cid)
    with st wires_ok_remove_client [OF ok'] show ?thesis by (auto simp: hub_step_def)
  next
    case (Message cid now ords m)
    show ?thesis
    proof (cases "hub_clients h cid")
      case None
      with st ok' show ?thesis by (simp add: hub_step_def Message)
    next
      case (Some cl)
      with st have hm: "handle_message ops w now ords cid cl m h = (r, out, h')"
        by (simp add: hub_step_def Message)
      show ?thesis
      proof (cases m)
        case (EventIn e)
        with hm have "same_wires h h'"
          using handle_event_message_wires by (fastforce simp: handle_message_def)
        from wires_ok_same [OF this] ok' show ?thesis by blast
      next
        case (ReqIn sid fs)
        with hm have "handle_req ops cid cl sid fs h = (out, h')" by (simp add: handle_message_def)
        from handle_req_wires [OF this ok' Some, of now ords] show ?thesis by (simp add: Message ReqIn)
      next
        case (AuthIn e)
        with hm have "h' = snd (handle_auth w now cid cl e h)"
          by (auto simp: handle_message_def)
        with wires_ok_auth [OF ok' Some, of now ords e] show ?thesis by (simp add: Message AuthIn)
      next
        case (CloseIn sid)
        with hm wires_ok_remove_id [OF ok' Some] show ?thesis by (auto simp: handle_message_def)
      qed (use hm ok' in \<open>auto simp: handle_message_def\<close>)
    qed
  qed
qed

lemma hub_run_ok:
  assumes "hub_run ops w h0 tr h" "hub_clients h0 = Map.empty" "hub_dispatcher h0 = new_dispatcher"
  shows "wires_ok w tr h \<and> (\<forall>(h1, a) \<in> set tr. keys_proved w tr (hub_clients h1))"
  using assms
proof (induction rule: hub_run.induct)
  case run_start
  then show ?case
    by (simp add: wires_ok_def keys_proved_def subs_opened_def new_dispatcher_ok listeners.subs_empty)
next
  case (run_step tr h a out h')
  then have "wires_ok w tr h" and tr: "\<forall>(h1, a) \<in> set tr. keys_proved w tr (hub_clients h1)" by auto
  with run_step.hyps have "wires_ok w (tr @ [(h, a)]) h'" "keys_proved w tr (hub_clients h)"
    using hub_step_wires wires_okD(2) by blast+
  with tr show ?case by (auto intro: keys_proved_more)
qed

lemma event_sources:
  assumes ok: "wires_ok w tr h" and st: "hub_step ops w a h = (r, out, h')"
    and x: "(c, EventMsg sid x) \<in> set out"
  shows "\<exists>h1 now ords fs cl f. (h1, Message c now ords (ReqIn sid fs)) \<in> set (tr @ [(h, a)]) \<and>
    f \<in> set fs \<and> hub_clients h1 c = Some cl \<and>
    reject_request (hub_groups h1) (cl_authed cl) f = None \<and>
    (listens_for f x \<or> x \<in> set (stored_answers ops (cl_authed cl) f h1))"
proof -
  from st x obtain cid now ords m cl where a: "a = Message cid now ords m" "hub_clients h cid = Some cl"
    and hm: "handle_message ops w now ords cid cl m h = (r, out, h')"
    by (auto simp: hub_step_def split: wire_act.splits option.splits)
  show ?thesis
  proof (cases m)
    case (EventIn e)
    with hm have "sent_to_listeners h out"
      using handle_event_message_wires by (fastforce simp: handle_message_def)
    with x obtain h2 where h2: "same_wires h h2" "(c, EventMsg sid x) \<in> set (notify_listeners h2 x)"
      unfolding sent_to_listeners_def by blast
    have d: "dispatcher_ok (hub_dispatcher h2)"
      using wires_okD(1) [OF ok] h2(1) by (simp add: same_wires_def)
    from notify_mem [OF d h2(2)] h2(1) obtain i sub where
      s: "dp_subs (hub_dispatcher h) i = Some sub" "sb_ws sub = Some c" "sid = sb_id sub"
        "listens_for (sb_filter sub) x"
      by (auto simp: same_wires_def)
    from subs_openedE [OF wires_okD(3) [OF ok] s(1)] s(2,3) obtain ch where
      "opened_by tr c ch sid (sb_filter sub)" by (metis option.inject)
    then have "opened_by (tr @ [(h, a)]) c ch sid (sb_filter sub)" by (rule opened_by_more)
    with s(4) show ?thesis unfolding opened_by_def by blast
  next
    case (ReqIn sid' fs)
    with hm have "handle_req ops cid cl sid' fs h = (out, h')" by (simp add: handle_message_def)
    have in_tr: "(h, Message cid now ords (ReqIn sid' fs)) \<in> set (tr @ [(h, a)])"
      using a(1) by (simp add: ReqIn)
    from \<open>handle_req ops cid cl sid' fs h = (out, h')\<close> wires_ok_more [OF ok] a(2) in_tr
    have "c = cid \<and> sid = sid' \<and> (\<exists>f. f \<in> set fs \<and> reject_request (hub_groups h) (cl_authed cl) f = None \<and>
        x \<in> set (stored_answers ops (cl_authed cl) f h))"
      using handle_req_wires x by blast
    with in_tr a(2) show ?thesis by blast
  qed (use hm x in \<open>auto simp: handle_message_def handle_auth_def handle_neg_open_def
      split: sum.splits option.splits if_splits\<close>)
qed

text \<open>
  C15. Events reach only readers who asked for them and were let in: an event a connection receives
  answers a \<open>REQ\<close> of that connection, whose filter it matches or whose query of the store yielded it;
  and for every group the filter named that was private when the \<open>REQ\<close> came, the connection had
  proved, by a signed answer to its challenge, a key that was then a member.
\<close>

theorem events_reach_their_readers:
  assumes run: "hub_run ops w h0 tr h"
    and new: "hub_clients h0 = Map.empty" "hub_dispatcher h0 = new_dispatcher"
    and st: "hub_step ops w a h = (r, out, h')" and x: "(c, EventMsg sid x) \<in> set out"
  shows "\<exists>h1 now ords fs cl f. (h1, Message c now ords (ReqIn sid fs)) \<in> set (tr @ [(h, a)]) \<and>
    f \<in> set fs \<and> hub_clients h1 c = Some cl \<and>
    (listens_for f x \<or> x \<in> set (stored_answers ops (cl_authed cl) f h1)) \<and>
    (\<forall>gid g. gid \<in> set (or_nil (requested_group_ids f)) \<longrightarrow> hub_groups h1 gid = Some g \<longrightarrow> g_private g \<longrightarrow>
       (\<exists>k. is_member g k \<and> proved_by w tr c (cl_challenge cl) k))"
proof -
  from hub_run_ok [OF run new] have ok: "wires_ok w tr h"
    and tr: "\<forall>(h1, a) \<in> set tr. keys_proved w tr (hub_clients h1)" by auto
  from event_sources [OF ok st x] obtain h1 now ords fs cl f where
    s: "(h1, Message c now ords (ReqIn sid fs)) \<in> set (tr @ [(h, a)])" "f \<in> set fs"
      "hub_clients h1 c = Some cl" "reject_request (hub_groups h1) (cl_authed cl) f = None"
      "listens_for f x \<or> x \<in> set (stored_answers ops (cl_authed cl) f h1)" by blast
  have keys: "keys_proved w tr (hub_clients h1)"
    using s(1) tr wires_okD(2) [OF ok] by auto
  have "\<exists>k. is_member g k \<and> proved_by w tr c (cl_challenge cl) k"
    if "gid \<in> set (or_nil (requested_group_ids f))" "hub_groups h1 gid = Some g" "g_private g" for gid g
  proof -
    have "reject_private (hub_groups h1) (cl_authed cl) (or_nil (requested_group_ids f)) = None"
      using s(4) by (auto simp: reject_request_def Let_def split: if_splits)
    from reject_private_None [OF this that] obtain k where "k \<in> set (cl_authed cl)" "is_member g k"
      by (auto simp: any_of_these_is_a_member_def list_ex_iff)
    with keys s(3) show ?thesis by (auto simp: keys_proved_def)
  qed
  with s show ?thesis by blast
qed

subsection \<open>Deletions\<close>

lemma relay_query_stored:
  "slice_inv db \<Longrightarrow> x \<in> set (relay_query slice_ops gs authed neg f db) \<Longrightarrow>
   x \<in> set db \<and> filter_matches f x"
  by (auto simp: relay_query_def dest: slicestore.query_sound split: if_splits)

definition named_by :: "(pubkey \<Rightarrow> bool) \<Rightarrow> event \<Rightarrow> tag list \<Rightarrow> event \<Rightarrow> bool" where
  "named_by valid e ts x \<longleftrightarrow>
     (\<exists>t \<in> set ts. \<exists>f. deletion_filter valid e t = Inr (Some f) \<and> filter_matches f x)"

lemma delete_loop_own:
  assumes "delete_loop slice_ops valid gs authed e ts deleted db = (err, db')" "slice_inv db"
  shows "slice_inv db' \<and> set db' \<subseteq> set db \<and> (err = None \<longrightarrow> deleted \<or> set db' \<noteq> set db) \<and>
    (\<forall>x \<in> set db - set db'. ev_pubkey x = ev_pubkey e \<and> named_by valid e ts x)"
  using assms
proof (induction ts arbitrary: deleted db)
  case Nil
  then show ?case by (auto split: if_splits)
next
  case (Cons t ts)
  have more: "named_by valid e ts x \<Longrightarrow> named_by valid e (t # ts) x" for x
    by (auto simp: named_by_def)
  show ?case
  proof (cases "deletion_filter valid e t")
    case (Inl x)
    with Cons.prems show ?thesis by auto
  next
    case (Inr o1)
    show ?thesis
    proof (cases o1)
      case None
      with Inr Cons.prems have "delete_loop slice_ops valid gs authed e ts deleted db = (err, db')" by simp
      from Cons.IH [OF this Cons.prems(2)] more show ?thesis by blast
    next
      case (Some f)
      show ?thesis
      proof (cases "relay_query slice_ops gs authed False f db")
        case Nil
        with Inr Some Cons.prems have "delete_loop slice_ops valid gs authed e ts deleted db = (err, db')"
          by simp
        from Cons.IH [OF this Cons.prems(2)] more show ?thesis by blast
      next
        case (Cons target rest)
        then have target: "target \<in> set db" "filter_matches f target"
          using relay_query_stored [OF Cons.prems(2), of target gs authed False f] by auto
        show ?thesis
        proof (cases "ev_pubkey target = ev_pubkey e")
          case False
          with Cons Inr Some Cons.prems show ?thesis by auto
        next
          case True
          obtain err1 db1 where del: "so_delete slice_ops (ev_id target) db = (err1, db1)" by fastforce
          then have "err1 = None" by (metis fst_conv slice_delete_event_None slice_ops_def store_ops.select_convs(3))
          with del have db1: "slice_inv db1" "set db1 = {x \<in> set db. ev_id x \<noteq> ev_id target}"
            using slicestore.delete_ok [OF Cons.prems(2)] by auto
          have gone: "x = target" if "x \<in> set db" "x \<notin> set db1" for x
            using that db1(2) target(1) Cons.prems(2) by (auto simp: slice_inv_def id_unique_def inj_on_def)
          have loop: "delete_loop slice_ops valid gs authed e ts True db1 = (err, db')"
            using Cons.prems(1) Inr Some Cons True del \<open>err1 = None\<close> by simp
          have "named_by valid e (t # ts) target"
            using Inr Some target(2) by (auto simp: named_by_def)
          note target_named = this
          note IH = Cons.IH [OF loop db1(1)]
          have "ev_pubkey x = ev_pubkey e \<and> named_by valid e (t # ts) x" if x: "x \<in> set db - set db'" for x
          proof (cases "x \<in> set db1")
            case True
            with IH x more [of x] show ?thesis by blast
          next
            case False
            with gone [of x] x have "x = target" by blast
            with target_named \<open>ev_pubkey target = ev_pubkey e\<close> show ?thesis by simp
          qed
          moreover have "set db1 \<subseteq> set db" "target \<notin> set db1" using db1(2) by auto
          ultimately show ?thesis using IH target(1) by blast
        qed
      qed
    qed
  qed
qed

text \<open>
  C17. A deletion request deletes only what it names and its author wrote: every event it takes out of
  the store has the author's key and matches an \<open>e\<close> or \<open>a\<close> tag of the request; nothing is added, no
  group changes, and a request that succeeds has deleted something.
\<close>

theorem deletions_only_own:
  assumes "handle_delete_request slice_ops valid authed e s = (err, s')" "slice_inv (gs_db (rs_groups s))"
  shows "slice_inv (gs_db (rs_groups s')) \<and>
    set (gs_db (rs_groups s')) \<subseteq> set (gs_db (rs_groups s)) \<and>
    gs_groups (rs_groups s') = gs_groups (rs_groups s) \<and>
    (err = None \<longrightarrow> set (gs_db (rs_groups s')) \<noteq> set (gs_db (rs_groups s))) \<and>
    (\<forall>x \<in> set (gs_db (rs_groups s)) - set (gs_db (rs_groups s')).
       ev_pubkey x = ev_pubkey e \<and> named_by valid e (ev_tags e) x)"
proof -
  obtain err1 db' where l: "delete_loop slice_ops valid (gs_groups (rs_groups s)) authed e (ev_tags e) False
      (gs_db (rs_groups s)) = (err1, db')" by fastforce
  with assms(1) have "err1 = err" "s' = with_groups s ((rs_groups s)\<lparr>gs_db := db'\<rparr>)"
    by (simp_all add: handle_delete_request_def)
  with delete_loop_own [OF l assms(2)] show ?thesis by (simp add: with_groups_def)
qed

subsection \<open>Concrete runs\<close>

definition ex_note :: event where
  "ex_note = ex_event 2 9 [[''h'', ''g'']]"

text \<open>The group is private, and its one note is stored.\<close>

definition ex_wire_state :: "slice_store relay_state" where
  "ex_wire_state = ex_state\<lparr>rs_groups := ex_groups\<lparr>gs_groups := ex_private, gs_db := [ex_note]\<rparr>\<rparr>"

definition ex_deletion :: event where
  "ex_deletion = ex_event 2 5 [[''h'', ''g''], [''e'', hex_of 77]]"

lemma ex_wire_simps [simp]:
  "gs_groups (rs_groups ex_wire_state) = ex_private" "gs_db (rs_groups ex_wire_state) = [ex_note]"
  by (simp_all add: ex_wire_state_def)

lemma ex_note_inv: "slice_inv [ex_note]"
  by (simp add: slice_inv_def id_unique_def)

lemma ex_note_query:
  assumes "f_limit f = 0" "\<not> f_limit_zero f" "f_kinds f = None" "f_authors f = None"
    "f_search f = []" "filter_matches f ex_note" "f_ids f \<noteq> Some []" "f_since f = 0" "f_until f = 0"
    "requested_group_ids f \<noteq> None \<or> f_ids f \<noteq> None"
  shows "relay_query slice_ops ex_private authed False f [ex_note] = [ex_note]"
proof -
  have "\<not> hide_event_from_reader ex_private f ex_note authed"
    by (simp add: hide_event_from_reader_def get_group_from_event_def get_group_id_from_event_def
        ex_note_def ex_private_def metadata_set)
  moreover have "slice_query f 1500 [ex_note] = [ex_note]"
    using assms
    by (cases "f_ids f") (auto simp: slice_query_def effective_limit_def theoretical_limit_def opt_len_def Let_def
        Suc_le_eq)
  ultimately show ?thesis
    using assms(3,5) by (simp add: relay_query_def wants_gift_wraps_def or_nil_def slice_ops_def)
qed

theorem deletions_only_own_witness:
  "set (gs_db (rs_groups (snd (handle_delete_request slice_ops (\<lambda>_. True) [2] ex_deletion ex_wire_state))))
     \<noteq> {ex_note}"
proof -
  have q: "relay_query slice_ops ex_private [2] False (empty_filter\<lparr>f_ids := Some [77]\<rparr>) [ex_note] = [ex_note]"
    by (rule ex_note_query) (simp_all add: empty_filter_def filter_matches_def
        matches_ignoring_timestamps_def in_opt_def ex_note_def)
  obtain err1 db1 where "so_delete slice_ops 77 [ex_note] = (err1, db1)" by fastforce
  moreover from this have "err1 = None"
    by (metis fst_conv slice_delete_event_None slice_ops_def store_ops.select_convs(3))
  ultimately have del: "so_delete slice_ops 77 [ex_note] = (None, db1)" by simp
  have ids: "ev_id ex_note = 77" "ev_pubkey ex_note = 2" "ev_pubkey ex_deletion = 2"
    by (simp_all add: ex_note_def ex_deletion_def)
  have none: "fst (handle_delete_request slice_ops (\<lambda>_. True) [2] ex_deletion ex_wire_state) = None"
    by (simp add: handle_delete_request_def ex_deletion_def deletion_filter_def q del ids [unfolded ex_deletion_def])
  obtain err s' where h: "handle_delete_request slice_ops (\<lambda>_. True) [2] ex_deletion ex_wire_state = (err, s')"
    by fastforce
  with none have "err = None" by simp
  with deletions_only_own [OF h] ex_note_inv h show ?thesis by simp
qed

definition ex_wire :: wire_outside where
  "ex_wire = \<lparr>wi_out = ex_outside, wi_verify = (\<lambda>_. True), wi_parse_url = (\<lambda>u. Some (''wss'', u, []))\<rparr>"

definition ex_client :: "pubkey list \<Rightarrow> client" where
  "ex_client keys = \<lparr>cl_challenge = ''c'', cl_authed = keys, cl_ip = ''ip'', cl_specs = []\<rparr>"

definition ex_hub :: "(nat \<rightharpoonup> client) \<Rightarrow> slice_store hub" where
  "ex_hub cs = \<lparr>hub_relay = ex_wire_state, hub_dispatcher = new_dispatcher, hub_clients = cs,
     hub_base_url = ''https://r''\<rparr>"

definition ex_auth :: event where
  "ex_auth = ex_event 2 22242 [[''challenge'', ''c''], [''relay'', ''wss://r'']]"

abbreviation ex_orders :: "string \<Rightarrow> roster_orders" where
  "ex_orders \<equiv> (\<lambda>_. ([], []))"

lemma ex_connect:
  "hub_step slice_ops ex_wire (Connect 5 ''c'' ''ip'') (ex_hub Map.empty) =
     (Returned (), [], ex_hub [5 \<mapsto> ex_client []])"
  by (simp add: hub_step_def ex_hub_def ex_client_def)

lemma ex_authenticate:
  "hub_step slice_ops ex_wire (Message 5 1000 ex_orders (AuthIn ex_auth)) (ex_hub [5 \<mapsto> ex_client []]) =
     (Returned (), [(5, OkMsg 77 True NoReason)], ex_hub [5 \<mapsto> ex_client [2]])"
proof -
  have "validate_auth_event ex_wire 1000 ex_auth ''c'' (ws_base_url ''https://r'') = Inr 2"
    by (simp add: validate_auth_event_def ex_wire_def ex_auth_def find_with_value_def trim_suffix_def
        ws_base_url_def starts_with_def)
  moreover have "authenticate 8 2 [] = [2]"
  proof -
    have n: "slice_index [] (2 :: pubkey) = None" by simp
    show ?thesis unfolding authenticate_def n by simp
  qed
  ultimately show ?thesis
    by (simp add: hub_step_def handle_message_def handle_auth_def ex_hub_def ex_client_def ex_auth_def)
qed

theorem events_reach_their_readers_witness:
  "\<exists>h1 now ords fs cl f. (h1, Message 5 now ords (ReqIn ''s'' fs)) \<in>
      {(ex_hub [5 \<mapsto> ex_client [2]], Message 5 1000 ex_orders (ReqIn ''s'' [ex_private_filter]))} \<and>
    f \<in> set fs \<and> hub_clients h1 5 = Some cl \<and>
    (listens_for f ex_note \<or> ex_note \<in> set (stored_answers slice_ops (cl_authed cl) f h1)) \<and>
    (\<forall>gid g. gid \<in> set (or_nil (requested_group_ids f)) \<longrightarrow> hub_groups h1 gid = Some g \<longrightarrow> g_private g \<longrightarrow>
       (\<exists>k. is_member g k))"
proof -
  let ?h0 = "ex_hub Map.empty" and ?h1 = "ex_hub [5 \<mapsto> ex_client []]" and ?h2 = "ex_hub [5 \<mapsto> ex_client [2]]"
  let ?c = "Connect 5 ''c'' ''ip''" and ?a = "Message 5 1000 ex_orders (AuthIn ex_auth)"
    and ?r = "Message 5 1000 ex_orders (ReqIn ''s'' [ex_private_filter])"
  have run: "hub_run slice_ops ex_wire ?h0 [(?h0, ?c), (?h1, ?a)] ?h2"
    using run_step [OF run_step [OF run_start ex_connect] ex_authenticate] by simp
  have acc: "reject_request ex_private [2] ex_private_filter = None"
    by (simp add: reject_request_def wants_gift_wraps_def ex_private_filter_def empty_filter_def
      or_nil_def requested_group_ids_def tag_values_def ex_private_def any_of_these_is_a_member_def
      is_member_def)
  have q: "relay_query slice_ops ex_private [2] False ex_private_filter [ex_note] = [ex_note]"
    by (rule ex_note_query) (simp_all add: ex_private_filter_def empty_filter_def filter_matches_def
        matches_ignoring_timestamps_def in_opt_def ex_note_def requested_group_ids_def tag_values_def)
  obtain out h3 where r: "handle_req slice_ops 5 (ex_client [2]) ''s'' [ex_private_filter] ?h2 = (out, h3)"
    by fastforce
  then have st: "hub_step slice_ops ex_wire ?r ?h2 = (Returned (), out, h3)"
    by (simp add: hub_step_def handle_message_def ex_hub_def)
  have "(5, EventMsg ''s'' ex_note) \<in> set out"
    using r by (auto simp: ex_hub_def ex_client_def handle_req_def
        remove_listener_id_def hub_groups_def acc stored_answers_def q split: prod.splits)
      (auto simp: ex_private_filter_def empty_filter_def)
  from events_reach_their_readers [OF run _ _ st this] show ?thesis
    by (simp add: ex_hub_def) blast
qed

lemma unknown_group_reaches_nobody:
  assumes "ev_kind e \<noteq> kProfileMetadata" "get_group_from_event (hub_groups h) e = None"
  shows "notify_listeners h e = []"
proof -
  have "should_prevent_broadcast (hub_groups h) a f e" for a f
    using assms by (simp add: should_prevent_broadcast_def hide_event_from_reader_def split: option.split)
  then show ?thesis by (simp add: notify_listeners_def)
qed

text \<open>
  The deletion of a group is told to nobody: by the time the event is compared with the listeners its
  group is gone, and an event of no group is hidden from everybody.
\<close>

lemma group_deletion_reaches_nobody:
  assumes h: "handle_normal ops out now ords cx e s = (Saved, bs, s')"
    and o: "outsider out e s" and ok: "state_ok (rs_groups s)" and k: "ev_kind e = kDeleteGroup"
    and hub: "hub_relay hub = s'"
  shows "notify_listeners hub e = []"
proof -
  obtain q e1 s1 where rej: "reject_event ops out now cx e s = (q, e1, s1)" by (metis prod_cases3)
  have "q = None" using h rej by (cases q) (auto simp: handle_normal_def)
  with rej have acc: "reject_event ops out now cx e s = (None, e1, s1)" by simp
  have e1: "e1 = e" using same_event_kind [OF reject_event_event [OF acc]] k by simp
  from handle_normal_accepted [OF acc h] obtain err g2 where
    st: "(if is_regular (ev_kind e1) then store_event ops e1 (rs_groups s1)
          else replace_event ops e1 (rs_groups s1)) = (err, g2)" and
    cases: "case err of
        Some x \<Rightarrow> rs_groups s' = g2 \<and> bs = [] \<and> Saved = (if x = ErrDupEvent then Duplicate else StoreFailed x)
      | None \<Rightarrow> (\<exists>q. handle_event_saved ops (out_crypto out) now ords e1 g2 = (q, bs, rs_groups s') \<and>
                  Saved = (case q of Panicked \<Rightarrow> Crashed | Returned _ \<Rightarrow> Saved))" by blast
  have err: "err = None" using cases by (cases err) (auto split: if_splits)
  with cases obtain q where saved: "handle_event_saved ops (out_crypto out) now ords e g2 = (q, bs, rs_groups s')"
    by (auto simp: e1)
  have g2: "gs_groups g2 = gs_groups (rs_groups s1)" "gs_deleted_cache g2 = gs_deleted_cache (rs_groups s1)"
    using stored_state [OF st] err by auto
  have "state_ok g2" using accepted_state_ok [OF acc o ok] state_ok_parts [OF g2] by simp
  have "target_exists g2 e"
    using accepted_target_exists [OF acc o] target_exists_groups [OF g2(1)] by (simp add: e1)
  then obtain g gid where g: "get_group_id_from_event e = Some gid" "gs_groups g2 gid = Some g"
    using k by (auto simp: target_exists_def get_group_from_event_def moderation_set split: option.splits)
  with \<open>state_ok g2\<close> have "group_of g2 e gid g"
    using groups_okD [of "gs_groups g2" gid g] by (simp add: group_of_def state_ok_def group_ok_def)
  from processed_deletion [OF \<open>state_ok g2\<close> k this, of ops "out_crypto out" now]
  have "gs_groups (rs_groups s') gid = None"
    using handle_event_saved_state [OF saved] by auto
  then show ?thesis
    using g(1) k hub
    by (intro unknown_group_reaches_nobody) (simp_all add: hub_groups_def get_group_from_event_def)
qed

text \<open>
  A \<open>REQ\<close> that is closed because of its second filter goes on listening with its first.
\<close>

lemma refused_req_keeps_listening:
  assumes "hub_clients h c = Some cl" "dispatcher_ok (hub_dispatcher h)"
    and "reject_request (hub_groups h) (cl_authed cl) f1 = None" "f_ids f1 = None"
    and "reject_request (hub_groups h) (cl_authed cl) f2 = Some why"
    and "handle_requests ops c cl sid [f1, f2] h = (out, h')"
  shows "(c, ClosedMsg sid why) \<in> set out \<and>
    (\<exists>i. dp_subs (hub_dispatcher h') i = Some \<lparr>sb_id = sid, sb_filter = f1, sb_ws = Some c\<rparr>)"
proof -
  let ?s = "\<lparr>sb_id = sid, sb_filter = f1, sb_ws = Some c\<rparr>"
  obtain i d where a: "add_subscription ?s (hub_dispatcher h) = (i, d)" by fastforce
  have "hub_groups (add_listener c sid f1 h) = hub_groups h" by (simp add: hub_groups_def)
  with assms have "h' = add_listener c sid f1 h" "(c, ClosedMsg sid why) \<in> set out" by auto
  with a add_subscription_ok [OF assms(2) a] assms(1) show ?thesis
    by (auto simp: add_listener_def)
qed

end
