(* ===== verification/Provenance.thy ===== *)
theory Provenance
  imports Session
begin

text \<open>
  Where the stored events come from: \<open>ProcessEvent\<close>, the snapshots and the pipeline store only events
  the relay made itself or a client sent, and the connections let in only events whose id and signature
  were checked.
\<close>

text \<open>An event \<open>Event.Sign\<close> completed: the relay's key and the hash as its id.\<close>

definition relay_made :: "crypto \<Rightarrow> seckey \<Rightarrow> event \<Rightarrow> bool" where
  "relay_made c sk x \<longleftrightarrow> (\<exists>e. x = fst (event_sign c sk e))"

definition store_from :: "crypto \<Rightarrow> seckey \<Rightarrow> event set \<Rightarrow> slice_store groups_state \<Rightarrow> bool" where
  "store_from c sk W s \<longleftrightarrow> gs_secret_key s = sk \<and> (\<forall>x \<in> set (gs_db s). x \<in> W \<or> relay_made c sk x)"

subsection \<open>What the store may gain\<close>

lemma slice_save_subset: "so_save slice_ops e d = (r, d') \<Longrightarrow> set d' \<subseteq> insert e (set d)"
  by (auto simp: slice_ops_def slice_save_def Let_def dest: in_set_takeD in_set_dropD split: if_splits)

lemma slice_delete_subset: "so_delete slice_ops i d = (r, d') \<Longrightarrow> set d' \<subseteq> set d"
  by (auto simp: slice_ops_def slice_delete_event_def slice_delete_def dest: in_set_takeD in_set_dropD
      split: option.splits)

lemma slice_replace_subset: "so_replace slice_ops e d = (r, d') \<Longrightarrow> set d' \<subseteq> insert e (set d)"
proof -
  have save: "set (snd (slice_save e x)) \<subseteq> insert e (set x)" for x
    using slice_save_subset [of e x] by (cases "slice_save e x") (simp add: slice_ops_def)
  have del: "set (snd (slice_delete_event i x)) \<subseteq> set x" for i x
    using slice_delete_subset [of i x] by (cases "slice_delete_event i x") (simp add: slice_ops_def)
  assume "so_replace slice_ops e d = (r, d')"
  moreover have "set (snd (slice_save e (snd (slice_delete_event i d)))) \<subseteq> insert e (set d)" for i
    using save [of "snd (slice_delete_event i d)"] del [of i d] by blast
  ultimately show ?thesis
    using save [of d] by (auto simp: slice_ops_def slice_replace_def split: list.splits if_splits)
qed

lemma store_from_db:
  "store_from c sk W s \<Longrightarrow> set db \<subseteq> insert x (set (gs_db s)) \<Longrightarrow> x \<in> W \<or> relay_made c sk x \<Longrightarrow>
   store_from c sk W (s\<lparr>gs_db := db\<rparr>)"
  by (auto simp: store_from_def)

lemma store_from_less:
  "store_from c sk W s \<Longrightarrow> set db \<subseteq> set (gs_db s) \<Longrightarrow> store_from c sk W (s\<lparr>gs_db := db\<rparr>)"
  by (auto simp: store_from_def)

lemma store_from_same:
  "gs_db s' = gs_db s \<Longrightarrow> gs_secret_key s' = gs_secret_key s \<Longrightarrow> store_from c sk W s' = store_from c sk W s"
  by (simp add: store_from_def)

interpretation vouched: handler_invariant slice_ops c "store_from c sk W" "\<lambda>_. True" for c sk W
proof
  fix s :: "slice_store groups_state" and db m i gid e x r act g aff
  assume s: "store_from c sk W s"
  show "store_from c sk W (s\<lparr>gs_db := db\<rparr>)"
    if "event_sign c (gs_secret_key s) e = (x, True)" "so_save slice_ops x (gs_db s) = (r, db)"
  proof (rule store_from_db [OF s slice_save_subset [OF that(2)]])
    have "x = fst (event_sign c sk e)" using that(1) s by (simp add: store_from_def)
    then show "x \<in> W \<or> relay_made c sk x" by (auto simp: relay_made_def)
  qed
  show "store_from c sk W (s\<lparr>gs_db := db\<rparr>)" if "so_delete slice_ops i (gs_db s) = (r, db)"
    using store_from_less [OF s slice_delete_subset [OF that]] .
  show "store_from c sk W (s\<lparr>gs_all_members := m\<rparr>)" "store_from c sk W (remember_deleted i s)"
      "store_from c sk W (update_group gid (apply_action act) s)"
      "store_from c sk W (update_group gid (\<lambda>g. snd (push_last50 i g)) s)"
    using s by (simp_all add: store_from_def remember_deleted_def update_group_def Let_def)
  show "store_from c sk W (snd (create_group gid e s))"
    using s by (auto simp: store_from_def create_group_def Let_def split: prod.splits)
  show "store_from c sk W (snd (drop_group gid g e aff s))"
    using s by (auto simp: store_from_def drop_group_def split: prod.splits)
qed

subsection \<open>Snapshots\<close>

lemma sync_events_from:
  assumes "sync_events slice_ops c sk now gid es db = (ys, db')"
    and "\<forall>x \<in> set db. x \<in> W \<or> relay_made c sk x"
  shows "\<forall>x \<in> set db'. x \<in> W \<or> relay_made c sk x"
  using assms
proof (induction es arbitrary: ys db db')
  case (Cons e es)
  obtain ys1 db1 where one: "sync_one slice_ops c sk now gid e db = (ys1, db1)" by fastforce
  obtain ys2 db2 where rest: "sync_events slice_ops c sk now gid es db1 = (ys2, db2)" by fastforce
  let ?signed = "fst (event_sign c sk (supersede (current_snapshot slice_ops c sk gid (ev_kind e) db) e))"
  have "set db1 \<subseteq> insert ?signed (set db)"
    using one slice_replace_subset [of ?signed db]
    by (auto simp: sync_one_def Let_def split: if_splits prod.splits option.splits)
  moreover have "relay_made c sk ?signed" by (auto simp: relay_made_def)
  ultimately have "\<forall>x \<in> set db1. x \<in> W \<or> relay_made c sk x" using Cons.prems(2) by auto
  from Cons.IH [OF rest this] Cons.prems(1) one rest show ?case by simp
qed simp

lemma sync_group_from:
  assumes "sync_group_metadata_events slice_ops c now o1 g s = (ys, s')" "store_from c sk W s"
  shows "store_from c sk W s'"
proof -
  obtain zs db where "sync_events slice_ops c sk now (g_id g) (sync_candidates o1 g) (gs_db s) = (zs, db)"
    by fastforce
  with assms sync_events_from [OF this, of W] show ?thesis
    by (auto simp: sync_group_metadata_events_def store_from_def)
qed

lemma sync_all_from:
  "sync_all slice_ops c now ords gids s = (ys, s') \<Longrightarrow> store_from c sk W s \<Longrightarrow> store_from c sk W s'"
proof (induction gids arbitrary: s ys s')
  case (Cons gid gids)
  show ?case
  proof (cases "gs_groups s gid")
    case None
    with Cons show ?thesis by simp
  next
    case (Some g)
    obtain ys1 s1 where s1: "sync_group_metadata_events slice_ops c now (ords gid) g s = (ys1, s1)" by fastforce
    obtain ys2 s2 where s2: "sync_all slice_ops c now ords gids s1 = (ys2, s2)" by fastforce
    from Cons.prems(1) Some s1 s2 have "s' = s2" by simp
    with Cons.IH [OF s2 sync_group_from [OF s1 Cons.prems(2)]] show ?thesis by simp
  qed
qed simp

subsection \<open>The pipeline\<close>

lemma handle_event_saved_from:
  assumes "handle_event_saved slice_ops c now ords e s = (r, bs, s')" "store_from c sk W s"
  shows "store_from c sk W s'"
proof -
  obtain q bs1 s1 where p: "process_event slice_ops c now e s = (q, bs1, s1)" by (metis prod_cases3)
  have s1: "store_from c sk W s1" using vouched.inv_process [OF assms(2), of e now] p by simp
  show ?thesis
  proof (cases q)
    case Panicked
    with assms(1) p s1 show ?thesis by (simp add: handle_event_saved_def)
  next
    case (Returned aff)
    obtain ys s2 where s2: "sync_all slice_ops c now ords aff s1 = (ys, s2)" by fastforce
    with assms(1) p Returned sync_all_from [OF s2 s1] show ?thesis by (simp add: handle_event_saved_def)
  qed
qed

lemma reject_event_db:
  assumes "reject_event ops out now cx e s = (q, e1, s1)"
  shows "gs_db (rs_groups s1) = gs_db (rs_groups s) \<and>
    gs_secret_key (rs_groups s1) = gs_secret_key (rs_groups s)"
proof (cases q)
  case (Some r)
  from refusal_frame [OF assms [unfolded this]] show ?thesis by simp
next
  case None
  show ?thesis
  proof (cases "outsider out e s")
    case True
    from creation_accepted [OF assms [unfolded None] True] show ?thesis by (auto split: if_splits)
  next
    case False
    with assms show ?thesis by (auto simp: reject_event_def outsider_def)
  qed
qed

lemma stored_from:
  assumes "(if is_regular k then store_event slice_ops e s else replace_event slice_ops e s) = (err, s')"
    and "store_from c sk W s" "e \<in> W"
  shows "store_from c sk W s'"
proof (cases "is_regular k")
  case True
  obtain r db where db: "so_save slice_ops e (gs_db s) = (r, db)" by fastforce
  have "store_from c sk W (s\<lparr>gs_db := db\<rparr>)"
    using store_from_db [OF assms(2) slice_save_subset [OF db]] assms(3) by blast
  with True db assms(1) show ?thesis
    by (auto simp: store_event_def Let_def store_from_def split: if_splits option.splits)
next
  case False
  obtain r db where db: "so_replace slice_ops e (gs_db s) = (r, db)" by fastforce
  have "store_from c sk W (s\<lparr>gs_db := db\<rparr>)"
    using store_from_db [OF assms(2) slice_replace_subset [OF db]] assms(3) by blast
  with False db assms(1) show ?thesis by (simp add: replace_event_def)
qed

lemma handle_normal_from:
  assumes h: "handle_normal slice_ops out now ords cx e s = (r, bs, s')"
    and s: "store_from (out_crypto out) sk W (rs_groups s)" and e: "\<And>x. same_event e x \<Longrightarrow> x \<in> W"
  shows "store_from (out_crypto out) sk W (rs_groups s')"
proof -
  obtain q e1 s1 where rej: "reject_event slice_ops out now cx e s = (q, e1, s1)" by (metis prod_cases3)
  have s1: "store_from (out_crypto out) sk W (rs_groups s1)"
    using store_from_same reject_event_db [OF rej] s by blast
  show ?thesis
  proof (cases q)
    case (Some x)
    with h rej s1 show ?thesis by (simp add: handle_normal_def)
  next
    case None
    with rej have acc: "reject_event slice_ops out now cx e s = (None, e1, s1)" by simp
    from handle_normal_result [OF acc h] obtain err g2 where
      st: "(if is_regular (ev_kind e1) then store_event slice_ops e1 (rs_groups s1)
            else replace_event slice_ops e1 (rs_groups s1)) = (err, g2)" and
      rest: "rs_groups s' = g2 \<or>
        (\<exists>q. handle_event_saved slice_ops (out_crypto out) now ords e1 g2 = (q, bs, rs_groups s'))" by blast
    have "store_from (out_crypto out) sk W g2"
      using stored_from [OF st s1] e reject_event_event [OF acc] by blast
    with rest show ?thesis using handle_event_saved_from by blast
  qed
qed

subsection \<open>Runs\<close>

lemma check_event_passed:
  assumes "check_event w cl e = None"
  shows "cr_hash (out_crypto (wi_out w)) e = ev_id e" "wi_verify w e"
    "is_protected e \<Longrightarrow> cl_authed cl \<noteq> [] \<and> last (cl_authed cl) = ev_pubkey e"
  using assms by (auto simp: check_event_def split: if_splits)

text \<open>A client sent the event, or one that differs in the order of its role names, and it passed the checks.\<close>

definition sent_by_client :: "wire_outside \<Rightarrow> slice_store trace \<Rightarrow> event \<Rightarrow> bool" where
  "sent_by_client w tr x \<longleftrightarrow>
     (\<exists>h c cl now ords e. (h, Message c now ords (EventIn e)) \<in> set tr \<and> hub_clients h c = Some cl \<and>
        check_event w cl e = None \<and> same_event e x)"

abbreviation vouched_for :: "wire_outside \<Rightarrow> event set \<Rightarrow> slice_store trace \<Rightarrow> event set" where
  "vouched_for w W tr \<equiv> {x. x \<in> W \<or> sent_by_client w tr x}"

definition hub_from :: "wire_outside \<Rightarrow> seckey \<Rightarrow> event set \<Rightarrow> slice_store hub \<Rightarrow> bool" where
  "hub_from w sk W h = store_from (out_crypto (wi_out w)) sk W (rs_groups (hub_relay h))"

lemma store_from_mono: "store_from c sk W s \<Longrightarrow> W \<subseteq> V \<Longrightarrow> store_from c sk V s"
  by (auto simp: store_from_def)

lemma hub_from_relay: "hub_relay h' = hub_relay h \<Longrightarrow> hub_from w sk W h' = hub_from w sk W h"
  by (simp add: hub_from_def)

lemma delete_loop_subset:
  "delete_loop slice_ops valid gs authed e ts deleted db = (err, db') \<Longrightarrow> set db' \<subseteq> set db"
proof (induction ts arbitrary: deleted db)
  case (Cons t ts)
  show ?case
  proof (cases "deletion_filter valid e t")
    case (Inr q)
    show ?thesis
    proof (cases q)
      case None
      with Inr Cons show ?thesis by auto
    next
      case (Some f)
      show ?thesis
      proof (cases "relay_query slice_ops gs authed False f db")
        case Nil
        with Inr Some Cons show ?thesis by auto
      next
        case (Cons target rest)
        obtain err1 db1 where del: "so_delete slice_ops (ev_id target) db = (err1, db1)" by fastforce
        from slice_delete_subset [OF this] Cons.IH [of True db1] Cons.prems Inr Some Cons del show ?thesis
          by (auto split: if_splits option.splits)
      qed
    qed
  qed (use Cons.prems in simp)
qed simp

lemma handle_delete_request_from:
  assumes "handle_delete_request slice_ops valid authed e s = (err, s')" "store_from c sk W (rs_groups s)"
  shows "store_from c sk W (rs_groups s')"
proof -
  obtain err1 db' where l: "delete_loop slice_ops valid (gs_groups (rs_groups s)) authed e (ev_tags e) False
      (gs_db (rs_groups s)) = (err1, db')" by fastforce
  with assms(1) have "s' = with_groups s ((rs_groups s)\<lparr>gs_db := db'\<rparr>)"
    by (simp add: handle_delete_request_def)
  with store_from_less [OF assms(2) delete_loop_subset [OF l]] show ?thesis by (simp add: with_groups_def)
qed

lemma handle_stored_event_from:
  assumes st: "handle_stored_event slice_ops w now ords cid cl e h = (r, out, h')"
    and h: "hub_from w sk W h" and e: "\<And>x. same_event e x \<Longrightarrow> x \<in> W"
  shows "hub_from w sk W h'"
proof -
  obtain q bs rs1 where n: "handle_normal slice_ops (wi_out w) now ords (context_of cl) e (hub_relay h) = (q, bs, rs1)"
    by (metis prod_cases3)
  obtain skip err where o: "write_outcome q = (skip, err)" by fastforce
  let ?e1 = "seen_event slice_ops (wi_out w) now (context_of cl) e (hub_relay h)"
  obtain err1 s2 where d: "handle_delete_request slice_ops (cr_valid (out_crypto (wi_out w))) (cl_authed cl) ?e1 rs1
      = (err1, s2)" by fastforce
  have rs1: "store_from (out_crypto (wi_out w)) sk W (rs_groups rs1)"
    using handle_normal_from [OF n] h e by (simp add: hub_from_def)
  have "hub_relay h' = s2 \<or> hub_relay h' = rs1"
    using st by (auto simp: handle_stored_event_def n o d Let_def split: if_splits)
  with rs1 handle_delete_request_from [OF d rs1] show ?thesis by (auto simp: hub_from_def)
qed

lemma handle_event_message_from:
  assumes st: "handle_event_message slice_ops w now ords cid cl e h = (r, out, h')"
    and h: "hub_from w sk W h" and e: "\<And>x. check_event w cl e = None \<Longrightarrow> same_event e x \<Longrightarrow> x \<in> W"
  shows "hub_from w sk W h'"
proof (cases "check_event w cl e")
  case (Some why)
  with st h show ?thesis by (auto simp: handle_event_message_def)
next
  case None
  show ?thesis
  proof (cases "ev_kind e \<noteq> kDeletion \<and> is_ephemeral (ev_kind e)")
    case False
    with None st have "handle_stored_event slice_ops w now ords cid cl e h = (r, out, h')"
      unfolding handle_event_message_def None option.case by (simp only: if_False)
    from handle_stored_event_from [OF this h e [OF None]] show ?thesis .
  next
    case True
    obtain q e1 rs1 where q: "reject_event slice_ops (wi_out w) now (context_of cl) e (hub_relay h) = (q, e1, rs1)"
      by (metis prod_cases3)
    from True None st have "(out, h') = handle_ephemeral slice_ops w now cid cl e h"
      unfolding handle_event_message_def by (auto split: prod.splits)
    then have "hub_relay h' = rs1"
      by (auto simp: handle_ephemeral_def q Let_def split: option.splits)
    with store_from_same reject_event_db [OF q] h show ?thesis by (metis hub_from_def)
  qed
qed

lemma handle_requests_keep: "hub_relay (snd (handle_requests ops c cl sid fs h)) = hub_relay h"
  by (induction ops c cl sid fs h rule: handle_requests.induct) (auto split: option.splits prod.splits)

lemma handle_requests_relay:
  "handle_requests ops c cl sid fs h = (out, h') \<Longrightarrow> hub_relay h' = hub_relay h"
  using handle_requests_keep [of ops c cl sid fs h] by simp

lemma hub_step_from:
  assumes st: "hub_step slice_ops w a h = (r, out, h')" and h: "hub_from w sk (vouched_for w W tr) h"
  shows "hub_from w sk (vouched_for w W (tr @ [(h, a)])) h'"
proof -
  let ?W = "vouched_for w W (tr @ [(h, a)])"
  have "vouched_for w W tr \<subseteq> ?W" by (fastforce simp: sent_by_client_def)
  with h have h2: "hub_from w sk ?W h" unfolding hub_from_def by (rule store_from_mono)
  show ?thesis
  proof (cases "\<exists>cid now ords e cl. a = Message cid now ords (EventIn e) \<and> hub_clients h cid = Some cl")
    case True
    then obtain cid now ords e cl where a: "a = Message cid now ords (EventIn e)" "hub_clients h cid = Some cl"
      by blast
    with st have m: "handle_event_message slice_ops w now ords cid cl e h = (r, out, h')"
      by (simp add: hub_step_def handle_message_def)
    have "sent_by_client w (tr @ [(h, a)]) x" if "check_event w cl e = None" "same_event e x" for x
      using that a unfolding sent_by_client_def by (metis in_set_conv_decomp)
    with handle_event_message_from [OF m h2] show ?thesis by blast
  next
    case False
    then have "hub_relay h' = hub_relay h"
      using st
      by (auto simp: hub_step_def handle_message_def handle_req_def handle_auth_def remove_client_def Let_def
          split: wire_act.splits option.splits client_message.splits sum.splits if_splits
          dest!: handle_requests_relay)
    with h2 show ?thesis using hub_from_relay by blast
  qed
qed


definition ex_profile :: event where
  "ex_profile = (ex_event 2 0 [])\<lparr>ev_id := 65536000\<rparr>"

lemma ex_profile_simps [simp]:
  "ev_id ex_profile = 65536000" "ev_pubkey ex_profile = 2" "ev_kind ex_profile = 0"
  "ev_tags ex_profile = []" "ev_created_at ex_profile = 1000"
  by (simp_all add: ex_profile_def)

lemma ex_profile_stored: "\<exists>db. so_replace slice_ops ex_profile [ex_note] = (None, db) \<and> ex_profile \<in> set db"
proof -
  obtain r db where db: "so_replace slice_ops ex_profile [ex_note] = (r, db)" by fastforce
  then have rep: "slice_replace ex_profile [ex_note] = (r, db)" by (simp add: slice_ops_def)
  have u: "id_unique (insert ex_profile (set [ex_note]))"
    by (simp add: id_unique_def inj_on_def ex_note_def)
  have "slice_query (slot_filter ex_profile) 1 [ex_note] = []"
    by (simp add: slice_query_def slot_filter_def filter_matches_def matches_ignoring_timestamps_def
        in_opt_def empty_filter_def ex_note_def Let_def is_addressable_def)
  with slice_replace_cases [OF ex_note_inv u rep] db show ?thesis by auto
qed

lemma ex_profile_accepted:
  "\<exists>s'. handle_normal slice_ops ex_outside 1000 ex_orders cx ex_profile ex_wire_state = (Saved, [], s') \<and>
     ex_profile \<in> set (gs_db (rs_groups s'))"
proof -
  obtain db where db: "so_replace slice_ops ex_profile [ex_note] = (None, db)" "ex_profile \<in> set db"
    using ex_profile_stored by blast
  have "reject_event slice_ops ex_outside 1000 cx ex_profile ex_wire_state = (None, ex_profile, ex_wire_state)"
    by (simp add: reject_event_def ex_wire_state_def ex_outside_def moderation_set metadata_set)
  moreover have "replace_event slice_ops ex_profile (rs_groups ex_wire_state) =
      (None, (rs_groups ex_wire_state)\<lparr>gs_db := db\<rparr>)"
    using db(1) by (simp add: replace_event_def)
  moreover have "process_event slice_ops c 1000 ex_profile s = (Returned [], [], s)" for c s
    by (simp add: process_event_stages moderation_stage_def reaction_stage_def get_group_from_event_def
        get_group_id_from_event_def prepare_moderation_action_def metadata_set)
  ultimately show ?thesis
    using db(2) by (simp add: handle_normal_def is_regular_def handle_event_saved_def with_groups_def)
qed


end
