(* ===== verification/Guard.thy ===== *)
theory Guard
  imports Store
begin

text \<open>
  \<^verbatim>\<open>guard.go\<close>: the gate that keeps the store from being closed under a running operation, the
  guarded store that runs every operation through it, and the interleavings of operations with
  \<open>Close\<close> as a step relation.
\<close>

subsection \<open>The gate\<close>

text \<open>
  \<open>drained\<close> is a nil channel until \<open>Close\<close> begins. Closing a nil or a closed channel panics.
\<close>

datatype channel = ChanOpen | ChanClosed

record store_gate =
  gt_closed :: bool
  gt_inflight :: int
  gt_drained :: "channel option"
  gt_sealed :: bool

definition new_gate :: store_gate where
  "new_gate = \<lparr>gt_closed = False, gt_inflight = 0, gt_drained = None, gt_sealed = False\<rparr>"

definition close_channel :: "channel option \<Rightarrow> channel outcome" where
  "close_channel c = (case c of Some ChanOpen \<Rightarrow> Returned ChanClosed | _ \<Rightarrow> Panicked)"

definition gate_enter :: "store_gate \<Rightarrow> bool \<times> store_gate" where
  "gate_enter g =
     (if gt_closed g then (False, g) else (True, g\<lparr>gt_inflight := gt_inflight g + 1\<rparr>))"

definition gate_exit :: "store_gate \<Rightarrow> unit outcome \<times> store_gate" where
  "gate_exit g =
     (let g1 = g\<lparr>gt_inflight := gt_inflight g - 1\<rparr>
      in if gt_closed g1 \<and> gt_inflight g1 = 0 then
           (case close_channel (gt_drained g1) of
              Panicked \<Rightarrow> (Panicked, g1)
            | Returned c \<Rightarrow> (Returned (), g1\<lparr>gt_drained := Some c\<rparr>))
         else (Returned (), g1))"

text \<open>The locked part of \<open>Close\<close>, before it waits.\<close>

definition gate_close_begin :: "store_gate \<Rightarrow> store_gate" where
  "gate_close_begin g =
     (if gt_closed g then g
      else g\<lparr>gt_closed := True, gt_sealed := True,
             gt_drained := Some (if gt_inflight g = 0 then ChanClosed else ChanOpen)\<rparr>)"

text \<open>
  The waiting part: \<open>drained_first\<close> says which ready branch the \<open>select\<close> takes; the timer can
  always fire, the drained channel is ready when it is closed. \<open>None\<close> is success, otherwise the
  number of operations still running.
\<close>

definition gate_close_wait :: "bool \<Rightarrow> store_gate \<Rightarrow> int option" where
  "gate_close_wait drained_first g =
     (if drained_first \<and> gt_drained g = Some ChanClosed then None else Some (gt_inflight g))"

text \<open>\<open>closeStore\<close> of \<^verbatim>\<open>store.go\<close>: the mapped store is closed only after the gate drained.\<close>

definition close_store :: "bool \<Rightarrow> store_gate \<Rightarrow> bool \<Rightarrow> int option \<times> bool" where
  "close_store drained_first g mapped =
     (case gate_close_wait drained_first g of
        Some n \<Rightarrow> (Some n, mapped)
      | None \<Rightarrow> (None, False))"

subsection \<open>The guarded store\<close>

text \<open>
  Operations that run without interference: enter, run the inner operation, leave (the deferred
  \<open>exit\<close>). A query on a closed store yields nothing; one that has entered stops yielding as soon
  as it sees the gate sealed.
\<close>

definition guarded_op ::
  "('d \<Rightarrow> store_error option \<times> 'd) \<Rightarrow> store_gate \<times> 'd \<Rightarrow> store_error option \<times> (store_gate \<times> 'd)" where
  "guarded_op f s =
     (case gate_enter (fst s) of
        (False, g) \<Rightarrow> (Some ErrStoreClosed, (g, snd s))
      | (True, g) \<Rightarrow> (case f (snd s) of (r, d) \<Rightarrow> (r, (snd (gate_exit g), d))))"

definition guarded_query :: "'d store_ops \<Rightarrow> nfilter \<Rightarrow> int \<Rightarrow> store_gate \<times> 'd \<Rightarrow> event list" where
  "guarded_query ops f n s =
     (case gate_enter (fst s) of
        (False, g) \<Rightarrow> []
      | (True, g) \<Rightarrow> takeWhile (\<lambda>_. \<not> gt_sealed g) (so_query ops f n (snd s)))"

definition guarded_count ::
  "'d store_ops \<Rightarrow> nfilter \<Rightarrow> store_gate \<times> 'd \<Rightarrow> store_error option \<times> 32 word" where
  "guarded_count ops f s =
     (case gate_enter (fst s) of
        (False, g) \<Rightarrow> (Some ErrStoreClosed, 0)
      | (True, g) \<Rightarrow> so_count ops f (snd s))"

definition guarded_ops :: "'d store_ops \<Rightarrow> (store_gate \<times> 'd) store_ops" where
  "guarded_ops ops =
     \<lparr>so_query = guarded_query ops,
      so_save = (\<lambda>e. guarded_op (so_save ops e)),
      so_delete = (\<lambda>i. guarded_op (so_delete ops i)),
      so_replace = (\<lambda>e. guarded_op (so_replace ops e)),
      so_count = guarded_count ops\<rparr>"

definition gate_open :: "store_gate \<Rightarrow> bool" where
  "gate_open g \<longleftrightarrow> \<not> gt_closed g \<and> \<not> gt_sealed g"

lemma gate_enter_open [simp]:
  "\<not> gt_closed g \<Longrightarrow> gate_enter g = (True, g\<lparr>gt_inflight := gt_inflight g + 1\<rparr>)"
  by (simp add: gate_enter_def)

lemma gate_exit_after_enter [simp]:
  "\<not> gt_closed g \<Longrightarrow> gate_exit (g\<lparr>gt_inflight := gt_inflight g + 1\<rparr>) = (Returned (), g)"
  by (simp add: gate_exit_def)

lemma guarded_op_open:
  "\<not> gt_closed g \<Longrightarrow> guarded_op f (g, d) = (case f d of (r, d') \<Rightarrow> (r, (g, d')))"
  by (simp add: guarded_op_def)

lemma guarded_op_closed: "gt_closed g \<Longrightarrow> guarded_op f (g, d) = (Some ErrStoreClosed, (g, d))"
  by (simp add: guarded_op_def gate_enter_def)

lemma guarded_query_open [simp]: "gate_open g \<Longrightarrow> guarded_query ops f n (g, d) = so_query ops f n d"
  by (simp add: guarded_query_def gate_open_def)

lemma guarded_op_error:
  assumes "guarded_op f s = (Some err, s')" and "\<And>d' err. f (snd s) = (Some err, d') \<Longrightarrow> d' = snd s"
  shows "s' = s"
proof (cases s)
  case (Pair g d)
  with assms show ?thesis
    by (cases "gt_closed g") (auto simp: guarded_op_open guarded_op_closed split: prod.splits)
qed

lemma guarded_op_success:
  assumes "guarded_op f (g, d) = (None, s')"
  shows "\<exists>d'. s' = (g, d') \<and> f d = (None, d')"
  using assms
  by (cases "gt_closed g") (auto simp: guarded_op_open guarded_op_closed split: prod.splits)

text \<open>While its gate is open the guarded store keeps every law the inner store keeps.\<close>

context event_store
begin

lemma guarded_event_store:
  "event_store (guarded_ops ops) (\<lambda>s. contents (snd s)) (\<lambda>s. gate_open (fst s) \<and> inv (snd s))"
proof
  fix s :: "store_gate \<times> 'd" and f n e
  obtain g d where s: "s = (g, d)" by (cases s)
  assume "gate_open (fst s) \<and> inv (snd s)"
  then have g: "gate_open g" and d: "inv d" by (simp_all add: s)
  have q: "so_query (guarded_ops ops) f n s = so_query ops f n d"
    by (simp add: guarded_ops_def s g)
  show "e \<in> set (so_query (guarded_ops ops) f n s) \<Longrightarrow> e \<in> contents (snd s) \<and> filter_matches f e"
    unfolding q using query_sound [OF d] by (simp add: s)
  show "0 \<le> n \<Longrightarrow> int (length (so_query (guarded_ops ops) f n s)) \<le> n"
    unfolding q by (rule query_limit [OF d])
  show "distinct (so_query (guarded_ops ops) f n s)"
    unfolding q by (rule query_distinct [OF d])
  show "sorted_wrt (\<lambda>a b. ev_created_at b \<le> ev_created_at a) (so_query (guarded_ops ops) f n s)"
    unfolding q by (rule query_newest_first [OF d])
  show "f_since f = 0 \<Longrightarrow> e \<in> contents (snd s) \<Longrightarrow> filter_matches f e \<Longrightarrow>
      e \<in> set (so_query (guarded_ops ops) f n s) \<or>
      (int (length (so_query (guarded_ops ops) f n s)) \<ge> effective_limit f n \<and>
       (\<forall>x \<in> set (so_query (guarded_ops ops) f n s). ev_created_at e \<le> ev_created_at x))"
    unfolding q using query_complete [OF d] by (simp add: s)
  fix s' i
  show "id_unique (insert e (contents (snd s))) \<Longrightarrow> so_save (guarded_ops ops) e s = (None, s') \<Longrightarrow>
      (gate_open (fst s') \<and> inv (snd s')) \<and> contents (snd s') = insert e (contents (snd s))"
    using save_ok [OF d] g by (auto simp: guarded_ops_def s dest!: guarded_op_success)
  show "so_delete (guarded_ops ops) i s = (None, s') \<Longrightarrow>
      (gate_open (fst s') \<and> inv (snd s')) \<and> contents (snd s') = {x \<in> contents (snd s). ev_id x \<noteq> i}"
    using delete_ok [OF d] g by (auto simp: guarded_ops_def s dest!: guarded_op_success)
  show "id_unique (insert e (contents (snd s))) \<Longrightarrow> so_replace (guarded_ops ops) e s = (None, s') \<Longrightarrow>
      (gate_open (fst s') \<and> inv (snd s')) \<and> contents (snd s') \<subseteq> insert e (contents (snd s)) \<and>
      (\<forall>x \<in> contents (snd s). \<not> filter_matches (slot_filter e) x \<longrightarrow> x \<in> contents (snd s'))"
    using replace_ok [OF d, of e] g
    by (clarsimp simp: guarded_ops_def s) (drule guarded_op_success, clarsimp)
  show "id_unique (insert e (contents (snd s))) \<Longrightarrow> so_replace (guarded_ops ops) e s = (None, s') \<Longrightarrow>
      \<forall>x \<in> contents (snd s). filter_matches (slot_filter e) x \<longrightarrow> ev_created_at x < ev_created_at e \<Longrightarrow>
      e \<in> contents (snd s')"
    using replace_newer [OF d] by (auto simp: guarded_ops_def s dest!: guarded_op_success)
next
  fix s s' :: "store_gate \<times> 'd" and e err i
  show "so_save (guarded_ops ops) e s = (Some err, s') \<Longrightarrow> s' = s"
    by (auto simp: guarded_ops_def intro: guarded_op_error dest: save_err)
  show "so_delete (guarded_ops ops) i s = (Some err, s') \<Longrightarrow> s' = s"
    by (auto simp: guarded_ops_def intro: guarded_op_error dest: delete_err)
  show "so_replace (guarded_ops ops) e s = (Some err, s') \<Longrightarrow> s' = s"
    by (auto simp: guarded_ops_def intro: guarded_op_error dest: replace_err)
qed

end

interpretation guarded_slice: event_store "guarded_ops slice_ops" "\<lambda>s. set (snd s)"
    "\<lambda>s. gate_open (fst s) \<and> slice_inv (snd s)"
  by (rule slicestore.guarded_event_store)

subsection \<open>Operations and Close, interleaved\<close>

text \<open>
  Any number of operations run at the same time, each numbered; a nested operation is one more
  number. An operation inside has \<open>k\<close> events still to yield. \<open>mapped\<close> says the mmm file is
  mapped; touching it unmapped is the fault (a SIGSEGV), recorded with the panics of the gate's
  channel. Every step holds the gate's mutex, so steps are atomic.
\<close>

datatype op_state = NotStarted | Inside nat | Refused | Finished

record guard_sys =
  gy_gate :: store_gate
  gy_ops :: "nat \<Rightarrow> op_state"
  gy_mapped :: bool
  gy_fault :: bool
  gy_panic :: bool

definition inside_ops :: "(nat \<Rightarrow> op_state) \<Rightarrow> nat set" where
  "inside_ops f = {t. \<exists>k. f t = Inside k}"

abbreviation op_inside :: "guard_sys \<Rightarrow> nat set" where
  "op_inside s \<equiv> inside_ops (gy_ops s)"

definition init_guard_sys :: guard_sys where
  "init_guard_sys = \<lparr>gy_gate = new_gate, gy_ops = (\<lambda>_. NotStarted), gy_mapped = True,
     gy_fault = False, gy_panic = False\<rparr>"

text \<open>\<open>enter\<close>: an operation that will yield \<open>k\<close> events is let in or refused.\<close>

definition sys_enter :: "nat \<Rightarrow> nat \<Rightarrow> guard_sys \<Rightarrow> guard_sys" where
  "sys_enter t k s =
     (case gate_enter (gy_gate s) of
        (True, g) \<Rightarrow> s\<lparr>gy_gate := g, gy_ops := (gy_ops s)(t := Inside k)\<rparr>
      | (False, g) \<Rightarrow> s\<lparr>gy_gate := g, gy_ops := (gy_ops s)(t := Refused)\<rparr>)"

definition sys_touch :: "guard_sys \<Rightarrow> guard_sys" where
  "sys_touch s = s\<lparr>gy_fault := gy_fault s \<or> \<not> gy_mapped s\<rparr>"

text \<open>A pull of the inner iterator touches the store; the event is yielded if not sealed.\<close>

definition sys_yield :: "nat \<Rightarrow> nat \<Rightarrow> guard_sys \<Rightarrow> guard_sys" where
  "sys_yield t k s = (sys_touch s)\<lparr>gy_ops := (gy_ops s)(t := Inside k)\<rparr>"

definition sys_exit :: "nat \<Rightarrow> guard_sys \<Rightarrow> guard_sys" where
  "sys_exit t s =
     (case gate_exit (gy_gate s) of
        (Returned _, g) \<Rightarrow> s\<lparr>gy_gate := g, gy_ops := (gy_ops s)(t := Finished)\<rparr>
      | (Panicked, g) \<Rightarrow> s\<lparr>gy_gate := g, gy_ops := (gy_ops s)(t := Finished), gy_panic := True\<rparr>)"

definition sys_close_begin :: "guard_sys \<Rightarrow> guard_sys" where
  "sys_close_begin s = s\<lparr>gy_gate := gate_close_begin (gy_gate s)\<rparr>"

text \<open>The end of \<open>closeStore\<close>, once \<open>Close\<close> got past its first part.\<close>

definition sys_close_end :: "bool \<Rightarrow> guard_sys \<Rightarrow> guard_sys" where
  "sys_close_end b s = s\<lparr>gy_mapped := snd (close_store b (gy_gate s) (gy_mapped s))\<rparr>"

inductive guard_step :: "guard_sys \<Rightarrow> guard_sys \<Rightarrow> bool" where
  enter: "gy_ops s t = NotStarted \<Longrightarrow> guard_step s (sys_enter t k s)"
| touch: "gy_ops s t = Inside k \<Longrightarrow> guard_step s (sys_touch s)"
| yield: "gy_ops s t = Inside (Suc k) \<Longrightarrow> \<not> gt_sealed (gy_gate s) \<Longrightarrow> guard_step s (sys_yield t k s)"
| exit: "gy_ops s t = Inside k \<Longrightarrow> guard_step s (sys_exit t s)"
| close_begin: "guard_step s (sys_close_begin s)"
| close_end: "gt_closed (gy_gate s) \<Longrightarrow> guard_step s (sys_close_end b s)"

inductive guard_reachable :: "guard_sys \<Rightarrow> bool" where
  start: "guard_reachable init_guard_sys"
| step: "guard_reachable s \<Longrightarrow> guard_step s s' \<Longrightarrow> guard_reachable s'"

inductive_cases guard_stepE: "guard_step s s'"

definition guard_inv :: "guard_sys \<Rightarrow> bool" where
  "guard_inv s \<longleftrightarrow>
     finite (op_inside s) \<and> gt_inflight (gy_gate s) = int (card (op_inside s)) \<and>
     gt_sealed (gy_gate s) = gt_closed (gy_gate s) \<and>
     (gt_drained (gy_gate s) =
        (if \<not> gt_closed (gy_gate s) then None
         else if op_inside s = {} then Some ChanClosed else Some ChanOpen)) \<and>
     (\<not> gy_mapped s \<longrightarrow> gt_closed (gy_gate s) \<and> op_inside s = {}) \<and>
     \<not> gy_fault s \<and> \<not> gy_panic s"

lemma inside_ops_upd [simp]:
  "inside_ops (f(t := Inside k)) = insert t (inside_ops f)"
  "inside_ops (f(t := Refused)) = inside_ops f - {t}"
  "inside_ops (f(t := Finished)) = inside_ops f - {t}"
  by (auto simp: inside_ops_def)

lemma inside_opsI: "f t = Inside k \<Longrightarrow> t \<in> inside_ops f"
  by (auto simp: inside_ops_def)

lemma not_inside_ops: "f t = NotStarted \<Longrightarrow> t \<notin> inside_ops f"
  by (auto simp: inside_ops_def)

lemma guard_inv_init: "guard_inv init_guard_sys"
  by (simp add: guard_inv_def init_guard_sys_def new_gate_def inside_ops_def)

lemma guard_inv_enter:
  "guard_inv s \<Longrightarrow> gy_ops s t = NotStarted \<Longrightarrow> guard_inv (sys_enter t k s)"
  by (drule not_inside_ops)
    (auto simp: guard_inv_def sys_enter_def gate_enter_def split: if_splits)

lemma guard_inv_mapped: "guard_inv s \<Longrightarrow> gy_ops s t = Inside k \<Longrightarrow> gy_mapped s"
  by (drule inside_opsI) (auto simp: guard_inv_def)

lemma guard_inv_touch: "guard_inv s \<Longrightarrow> gy_ops s t = Inside k \<Longrightarrow> guard_inv (sys_touch s)"
  by (frule guard_inv_mapped, assumption) (simp add: guard_inv_def sys_touch_def)

lemma guard_inv_yield:
  assumes "guard_inv s" "gy_ops s t = Inside (Suc k)"
  shows "guard_inv (sys_yield t k s)"
  using guard_inv_mapped [OF assms] inside_opsI [of "gy_ops s" t] assms
  by (simp add: guard_inv_def sys_yield_def sys_touch_def insert_absorb)

text \<open>Leaving an agreeing gate never panics; the last one out of a closed gate drains it.\<close>

lemma gate_exit_eq:
  assumes "gt_inflight g = int n + 1"
    and "gt_drained g = (if gt_closed g then Some ChanOpen else None)"
  shows "gate_exit g =
    (Returned (), g\<lparr>gt_inflight := int n,
       gt_drained := (if gt_closed g then Some (if n = 0 then ChanClosed else ChanOpen) else None)\<rparr>)"
  using assms by (cases "gt_closed g"; cases "n = 0") (simp_all add: gate_exit_def close_channel_def)

lemma guard_inv_exit:
  assumes inv: "guard_inv s" and t: "gy_ops s t = Inside k"
  shows "guard_inv (sys_exit t s)"
proof -
  obtain A where A: "A = op_inside s - {t}" by simp
  have tin: "t \<in> op_inside s" by (rule inside_opsI [of "gy_ops s", OF t])
  have fin: "finite A" using inv by (simp add: guard_inv_def A)
  have "op_inside s = insert t A" "t \<notin> A" using tin by (auto simp: A)
  then have card: "card (op_inside s) = card A + 1" using fin by simp
  have m: "gy_mapped s" by (rule guard_inv_mapped [OF inv t])
  have "gate_exit (gy_gate s) =
    (Returned (), (gy_gate s)\<lparr>gt_inflight := int (card A),
       gt_drained := (if gt_closed (gy_gate s)
         then Some (if card A = 0 then ChanClosed else ChanOpen) else None)\<rparr>)"
    using inv tin by (intro gate_exit_eq) (auto simp: guard_inv_def card)
  then have "sys_exit t s = s\<lparr>gy_gate := (gy_gate s)\<lparr>gt_inflight := int (card A),
       gt_drained := (if gt_closed (gy_gate s)
         then Some (if card A = 0 then ChanClosed else ChanOpen) else None)\<rparr>,
       gy_ops := (gy_ops s)(t := Finished)\<rparr>"
    by (simp add: sys_exit_def)
  moreover have "op_inside (sys_exit t s) = A"
    using calculation by (simp add: A)
  ultimately show ?thesis
    using inv m fin by (simp add: guard_inv_def)
qed

lemma guard_inv_close_begin: "guard_inv s \<Longrightarrow> guard_inv (sys_close_begin s)"
  by (auto simp: guard_inv_def sys_close_begin_def gate_close_begin_def)

lemma guard_inv_close_end:
  "guard_inv s \<Longrightarrow> gt_closed (gy_gate s) \<Longrightarrow> guard_inv (sys_close_end b s)"
  by (auto simp: guard_inv_def sys_close_end_def close_store_def gate_close_wait_def split: if_splits)

lemmas guard_inv_steps = guard_inv_enter guard_inv_touch guard_inv_yield guard_inv_exit
  guard_inv_close_begin guard_inv_close_end

lemma guard_step_inv: "guard_step s s' \<Longrightarrow> guard_inv s \<Longrightarrow> guard_inv s'"
  by (cases rule: guard_step.cases) (auto intro: guard_inv_steps)

lemma guard_reachable_inv: "guard_reachable s \<Longrightarrow> guard_inv s"
  by (induction rule: guard_reachable.induct) (auto intro: guard_inv_init guard_step_inv)

text \<open>
  C4. Whatever the interleaving of store operations with \<open>closeStore\<close>: no operation touches the
  store after it was unmapped, and no channel of the gate is closed twice or while nil. When the
  store is unmapped no operation is inside.
\<close>

theorem no_use_after_unmap:
  assumes "guard_reachable s"
  shows "\<not> gy_fault s \<and> \<not> gy_panic s \<and>
    (\<not> gy_mapped s \<longrightarrow> (\<forall>t k. gy_ops s t \<noteq> Inside k))"
proof -
  have "guard_inv s" by (rule guard_reachable_inv [OF assms])
  then show ?thesis by (auto simp: guard_inv_def inside_ops_def)
qed

text \<open>A run with an operation that straddles the close: it finishes first, then the unmap.\<close>

definition straddling_run :: guard_sys where
  "straddling_run =
     sys_close_end True (sys_exit 0 (sys_close_end True (sys_close_begin (sys_enter 0 2 init_guard_sys))))"

lemma straddling_run_reachable: "guard_reachable straddling_run"
  unfolding straddling_run_def
  by (rule guard_reachable.step [OF guard_reachable.step [OF guard_reachable.step [OF
        guard_reachable.step [OF guard_reachable.step [OF guard_reachable.start
          guard_step.enter [of _ 0 2]] guard_step.close_begin]
        guard_step.close_end [of _ True]] guard_step.exit [of _ 0 2]] guard_step.close_end [of _ True]])
    (simp_all add: init_guard_sys_def new_gate_def sys_enter_def gate_enter_def sys_close_begin_def
      gate_close_begin_def sys_close_end_def close_store_def gate_close_wait_def sys_exit_def
      gate_exit_def close_channel_def)

theorem no_use_after_unmap_witness:
  "guard_reachable straddling_run \<and> \<not> gy_mapped straddling_run \<and>
   \<not> gy_fault straddling_run \<and> \<not> gy_panic straddling_run"
  using straddling_run_reachable no_use_after_unmap [OF straddling_run_reachable]
  by (simp add: straddling_run_def init_guard_sys_def new_gate_def sys_enter_def gate_enter_def
      sys_close_begin_def gate_close_begin_def sys_close_end_def close_store_def gate_close_wait_def
      sys_exit_def gate_exit_def close_channel_def)

end
