(* ===== verification/Conntrack.thy ===== *)
theory Conntrack
  imports Prelude
begin

text \<open>
  The websocket connections \<open>http.Server\<close> handed off (\<^verbatim>\<open>conntrack.go\<close>). A tracked connection closes
  the one it wraps at most once and drops itself from the set of its owner; \<open>CloseAll\<close> closes
  every connection of the set at shutdown, while handlers may close theirs at the same time.
\<close>

subsection \<open>The data\<close>

text \<open>
  \<open>sync.Once\<close>: not run, running (other callers of \<open>Do\<close> wait), or done. Connections are named by
  numbers, their addresses in the program. Two fields record the history: \<open>ct_closes\<close> counts the
  calls of the wrapped connection's \<open>Close\<close> and \<open>ct_hijacked\<close> says that the connection was reported
  as hijacked. \<open>hc_conns\<close> is \<open>None\<close> while the map is \<open>nil\<close>.
\<close>

datatype once = OnceNew | OnceRunning | OnceDone

record tracked_conn =
  ct_once :: once
  ct_close_err :: "string option"
  ct_closes :: nat
  ct_hijacked :: bool

record hijacked_conns =
  hc_conns :: "nat set option"
  hc_accepted :: "nat \<rightharpoonup> tracked_conn"

datatype conn_state = StateNew | StateActive | StateIdle | StateHijacked | StateClosed

definition no_conns :: hijacked_conns where
  "no_conns = \<lparr>hc_conns = None, hc_accepted = Map.empty\<rparr>"

definition tracked :: "hijacked_conns \<Rightarrow> nat set" where
  "tracked h = (case hc_conns h of None \<Rightarrow> {} | Some S \<Rightarrow> S)"

subsection \<open>The operations\<close>

definition new_conn :: tracked_conn where
  "new_conn = \<lparr>ct_once = OnceNew, ct_close_err = None, ct_closes = 0, ct_hijacked = False\<rparr>"

definition accept_conn :: "nat \<Rightarrow> hijacked_conns \<Rightarrow> hijacked_conns" where
  "accept_conn c h = h\<lparr>hc_accepted := (hc_accepted h)
     (c \<mapsto> new_conn)\<rparr>"

text \<open>\<open>ConnState\<close>: only a hijacked connection of this listener is tracked.\<close>

definition on_conn_state :: "nat \<Rightarrow> conn_state \<Rightarrow> hijacked_conns \<Rightarrow> hijacked_conns" where
  "on_conn_state c st h =
     (if st \<noteq> StateHijacked then h
      else case hc_accepted h c of
             None \<Rightarrow> h
           | Some t \<Rightarrow> h\<lparr>hc_conns := Some (insert c (tracked h)),
                        hc_accepted := (hc_accepted h)(c \<mapsto> t\<lparr>ct_hijacked := True\<rparr>)\<rparr>)"

text \<open>The body of \<open>closeOnce.Do\<close>, in its two halves: under the owner's lock, and after it.\<close>

definition close_drop :: "nat \<Rightarrow> hijacked_conns \<Rightarrow> hijacked_conns" where
  "close_drop c h =
     h\<lparr>hc_conns := map_option (\<lambda>S. S - {c}) (hc_conns h),
       hc_accepted := (hc_accepted h)
         (c := map_option (\<lambda>t. t\<lparr>ct_once := OnceRunning\<rparr>) (hc_accepted h c))\<rparr>"

definition close_inner :: "(nat \<Rightarrow> string option) \<Rightarrow> nat \<Rightarrow> hijacked_conns \<Rightarrow> hijacked_conns" where
  "close_inner err c h =
     h\<lparr>hc_accepted := (hc_accepted h)
         (c := map_option (\<lambda>t. t\<lparr>ct_once := OnceDone, ct_close_err := err c,
                                ct_closes := ct_closes t + 1\<rparr>) (hc_accepted h c))\<rparr>"

text \<open>
  \<open>Close\<close>, called while nobody else is in it: the error of the wrapped connection. \<open>None\<close> when the
  call waits for the caller that is running the body (or there is no such connection).
\<close>

definition tracked_close ::
  "(nat \<Rightarrow> string option) \<Rightarrow> nat \<Rightarrow> hijacked_conns \<Rightarrow> string option option \<times> hijacked_conns" where
  "tracked_close err c h =
     (case hc_accepted h c of
        None \<Rightarrow> (None, h)
      | Some t \<Rightarrow>
          (case ct_once t of
             OnceNew \<Rightarrow> (Some (err c), close_inner err c (close_drop c h))
           | OnceRunning \<Rightarrow> (None, h)
           | OnceDone \<Rightarrow> (Some (ct_close_err t), h)))"

definition conns_len :: "hijacked_conns \<Rightarrow> nat" where
  "conns_len h = card (tracked h)"

text \<open>\<open>CloseAll\<close> copies the set, in the order \<open>cs\<close> of Go's map iteration, and closes the copies.\<close>

fun close_each :: "(nat \<Rightarrow> string option) \<Rightarrow> nat list \<Rightarrow> hijacked_conns \<Rightarrow> hijacked_conns" where
  "close_each err [] h = h"
| "close_each err (c # cs) h = close_each err cs (snd (tracked_close err c h))"

definition close_all :: "(nat \<Rightarrow> string option) \<Rightarrow> nat list \<Rightarrow> hijacked_conns \<Rightarrow> nat \<times> hijacked_conns" where
  "close_all err cs h = (length cs, close_each err cs h)"

subsection \<open>The server, its handlers and the shutdown, interleaved\<close>

text \<open>
  Any number of handlers close their connections while the server accepts and hijacks. The two
  halves of a close are separate steps. The flag \<open>d\<close> says that \<open>net/http\<close> reports a connection as
  hijacked before its handler can close it.
\<close>

inductive conn_step :: "bool \<Rightarrow> (nat \<Rightarrow> string option) \<Rightarrow> hijacked_conns \<Rightarrow> hijacked_conns \<Rightarrow> bool"
  for d err where
  step_accept: "hc_accepted h c = None \<Longrightarrow> conn_step d err h (accept_conn c h)"
| step_state:
    "hc_accepted h c = Some t \<Longrightarrow> (d \<Longrightarrow> ct_once t = OnceNew) \<Longrightarrow>
     conn_step d err h (on_conn_state c st h)"
| step_drop:
    "hc_accepted h c = Some t \<Longrightarrow> ct_once t = OnceNew \<Longrightarrow> conn_step d err h (close_drop c h)"
| step_inner:
    "hc_accepted h c = Some t \<Longrightarrow> ct_once t = OnceRunning \<Longrightarrow> conn_step d err h (close_inner err c h)"

inductive conn_reaches :: "bool \<Rightarrow> (nat \<Rightarrow> string option) \<Rightarrow> hijacked_conns \<Rightarrow> bool" for d err where
  conns_start: "conn_reaches d err no_conns"
| conns_step: "conn_reaches d err h \<Longrightarrow> conn_step d err h h' \<Longrightarrow> conn_reaches d err h'"

text \<open>
  The wrapped connection was closed once exactly when the body is done, and never before; what is
  tracked was hijacked, and (with \<open>d\<close>) a connection is tracked exactly as long as it is hijacked
  and nobody began to close it.
\<close>

definition conn_ok :: "bool \<Rightarrow> (nat \<Rightarrow> string option) \<Rightarrow> bool \<Rightarrow> nat \<Rightarrow> tracked_conn \<Rightarrow> bool" where
  "conn_ok d err tr c t \<longleftrightarrow>
     ct_closes t = (if ct_once t = OnceDone then 1 else 0) \<and>
     (ct_once t = OnceDone \<longrightarrow> ct_close_err t = err c) \<and>
     (tr \<longrightarrow> ct_hijacked t) \<and> (ct_hijacked t \<and> ct_once t = OnceNew \<longrightarrow> tr) \<and>
     (d \<longrightarrow> tr \<longrightarrow> ct_once t = OnceNew)"

definition conns_inv :: "bool \<Rightarrow> (nat \<Rightarrow> string option) \<Rightarrow> hijacked_conns \<Rightarrow> bool" where
  "conns_inv d err h \<longleftrightarrow>
     tracked h \<subseteq> dom (hc_accepted h) \<and>
     (\<forall>c t. hc_accepted h c = Some t \<longrightarrow> conn_ok d err (c \<in> tracked h) c t)"

lemma conns_invD: "conns_inv d err h \<Longrightarrow> hc_accepted h c = Some t \<Longrightarrow> conn_ok d err (c \<in> tracked h) c t"
  by (simp add: conns_inv_def)

lemma conns_inv_upd:
  assumes "conns_inv d err h" "hc_accepted h' = (hc_accepted h)(c \<mapsto> t')"
    and "tracked h' - {c} = tracked h - {c}" "conn_ok d err (c \<in> tracked h') c t'"
  shows "conns_inv d err h'"
  unfolding conns_inv_def
proof (intro conjI allI impI)
  show "tracked h' \<subseteq> dom (hc_accepted h')" using assms(1-3) by (auto simp: conns_inv_def)
next
  fix x t assume x: "hc_accepted h' x = Some t"
  show "conn_ok d err (x \<in> tracked h') x t"
  proof (cases "x = c")
    case True
    with x assms(2,4) show ?thesis by simp
  next
    case False
    with assms(3) have "x \<in> tracked h' \<longleftrightarrow> x \<in> tracked h" by blast
    with False x assms(1,2) show ?thesis by (simp add: conns_invD)
  qed
qed

lemma new_conn_simps [simp]:
  "ct_once new_conn = OnceNew" "ct_close_err new_conn = None" "ct_closes new_conn = 0"
  "ct_hijacked new_conn = False"
  by (simp_all add: new_conn_def)

lemma tracked_simps [simp]:
  "tracked no_conns = {}" "hc_accepted no_conns = Map.empty" "tracked (accept_conn c h) = tracked h"
  "tracked (close_drop c h) = tracked h - {c}" "tracked (close_inner err c h) = tracked h"
  by (simp_all add: tracked_def no_conns_def accept_conn_def close_drop_def close_inner_def
      split: option.splits)

lemma accepted_simps [simp]:
  "hc_accepted (close_drop c h) = (hc_accepted h)
     (c := map_option (\<lambda>t. t\<lparr>ct_once := OnceRunning\<rparr>) (hc_accepted h c))"
  "hc_accepted (close_inner err c h) = (hc_accepted h)
     (c := map_option (\<lambda>t. t\<lparr>ct_once := OnceDone, ct_close_err := err c,
        ct_closes := ct_closes t + 1\<rparr>) (hc_accepted h c))"
  "hc_accepted (accept_conn c h) = (hc_accepted h)
     (c \<mapsto> new_conn)"
  by (simp_all add: close_drop_def close_inner_def accept_conn_def)

lemma on_conn_state_simps:
  assumes "hc_accepted h c = Some t"
  shows "tracked (on_conn_state c st h) = (if st = StateHijacked then insert c (tracked h) else tracked h)"
    "hc_accepted (on_conn_state c st h) = (if st = StateHijacked
       then (hc_accepted h)(c \<mapsto> t\<lparr>ct_hijacked := True\<rparr>) else hc_accepted h)"
  using assms by (simp_all add: on_conn_state_def tracked_def split: option.split)

lemma conns_inv_step: "conn_step d err h h' \<Longrightarrow> conns_inv d err h \<Longrightarrow> conns_inv d err h'"
proof (induction rule: conn_step.induct)
  case (step_accept h c)
  then have "c \<notin> tracked h" by (auto simp: conns_inv_def)
  then show ?case
    by (intro conns_inv_upd [OF step_accept(2), of _ c
          "new_conn"])
      (simp_all add: conn_ok_def)
next
  case (step_state h c t st)
  note ok = conns_invD [OF step_state(3,1)]
  show ?case
  proof (cases "st = StateHijacked")
    case True
    with step_state ok show ?thesis
      by (intro conns_inv_upd [OF step_state(3), of _ c "t\<lparr>ct_hijacked := True\<rparr>"])
        (auto simp: on_conn_state_simps conn_ok_def)
  next
    case False
    with step_state show ?thesis by (simp add: on_conn_state_def)
  qed
next
  case (step_drop h c t)
  with conns_invD [OF step_drop(3,1)] show ?case
    by (intro conns_inv_upd [OF step_drop(3), of _ c "t\<lparr>ct_once := OnceRunning\<rparr>"])
      (auto simp: conn_ok_def)
next
  case (step_inner h c t)
  with conns_invD [OF step_inner(3,1)] show ?case
    by (intro conns_inv_upd [OF step_inner(3), of _ c
          "t\<lparr>ct_once := OnceDone, ct_close_err := err c, ct_closes := ct_closes t + 1\<rparr>"])
      (auto simp: conn_ok_def)
qed

lemma conns_inv_reachable: "conn_reaches d err h \<Longrightarrow> conns_inv d err h"
proof (induction rule: conn_reaches.induct)
  case conns_start
  then show ?case by (simp add: conns_inv_def)
next
  case (conns_step h h')
  then show ?case by (blast intro: conns_inv_step)
qed

text \<open>Runs are closed under further steps; a whole close is two of them.\<close>

lemma tracked_close_reaches:
  assumes "conn_reaches d err h"
  shows "conn_reaches d err (snd (tracked_close err c h))"
proof (cases "\<exists>t. hc_accepted h c = Some t \<and> ct_once t = OnceNew")
  case True
  then obtain t where t: "hc_accepted h c = Some t" "ct_once t = OnceNew" by blast
  have "conn_reaches d err (close_drop c h)"
    by (rule conns_step [OF assms step_drop [OF t]])
  then have "conn_reaches d err (close_inner err c (close_drop c h))"
    by (rule conns_step [OF _ step_inner [where t = "t\<lparr>ct_once := OnceRunning\<rparr>"]])
      (simp_all add: t)
  with t show ?thesis by (simp add: tracked_close_def)
next
  case False
  with assms show ?thesis by (auto simp: tracked_close_def split: option.split once.split)
qed

lemma close_each_reaches: "conn_reaches d err h \<Longrightarrow> conn_reaches d err (close_each err cs h)"
  by (induction cs arbitrary: h) (simp_all add: tracked_close_reaches)

definition quiet :: "hijacked_conns \<Rightarrow> bool" where
  "quiet h \<longleftrightarrow> (\<forall>c t. hc_accepted h c = Some t \<longrightarrow> ct_once t \<noteq> OnceRunning)"

lemma tracked_close_effect:
  assumes "quiet h" "hc_accepted h c = Some t"
  shows "quiet (snd (tracked_close err c h))"
    "tracked (snd (tracked_close err c h)) = (if ct_once t = OnceNew then tracked h - {c} else tracked h)"
    "\<exists>t'. hc_accepted (snd (tracked_close err c h)) c = Some t' \<and> ct_once t' = OnceDone \<and>
       ct_hijacked t' = ct_hijacked t"
    "x \<noteq> c \<Longrightarrow> hc_accepted (snd (tracked_close err c h)) x = hc_accepted h x"
  using assms by (auto simp: tracked_close_def quiet_def split: once.splits)

lemma close_each_effect:
  assumes "quiet h" "set cs \<subseteq> dom (hc_accepted h)" "distinct cs"
    and "\<And>c t. c \<in> set cs \<Longrightarrow> hc_accepted h c = Some t \<Longrightarrow> ct_once t = OnceNew"
  shows "tracked (close_each err cs h) = tracked h - set cs \<and>
    (\<forall>c t. hc_accepted (close_each err cs h) c = Some t \<longrightarrow>
       (if c \<in> set cs then ct_once t = OnceDone else hc_accepted h c = Some t))"
  using assms
proof (induction cs arbitrary: h)
  case (Cons c cs)
  let ?h = "snd (tracked_close err c h)"
  obtain t where t: "hc_accepted h c = Some t" using Cons.prems(2) by auto
  have new: "ct_once t = OnceNew" using Cons.prems(4) [of c t] t by simp
  note eff = tracked_close_effect [OF Cons.prems(1) t, where err = err]
  obtain t' where t': "hc_accepted ?h c = Some t'" "ct_once t' = OnceDone" using eff(3) by blast
  have other: "hc_accepted ?h x = hc_accepted h x" if "x \<in> set cs" for x
    using eff(4) that Cons.prems(3) by (metis distinct.simps(2))
  have IH: "tracked (close_each err cs ?h) = tracked ?h - set cs \<and>
    (\<forall>c t. hc_accepted (close_each err cs ?h) c = Some t \<longrightarrow>
       (if c \<in> set cs then ct_once t = OnceDone else hc_accepted ?h c = Some t))"
    using eff(1) other Cons.prems by (intro Cons.IH) (auto simp: dom_def)
  show ?case
  proof (intro conjI allI impI)
    show "tracked (close_each err (c # cs) h) = tracked h - set (c # cs)"
      using IH eff(2) new by auto
  next
    fix x u assume "hc_accepted (close_each err (c # cs) h) x = Some u"
    with IH have "if x \<in> set cs then ct_once u = OnceDone else hc_accepted ?h x = Some u" by simp
    with t' eff(4) show "if x \<in> set (c # cs) then ct_once u = OnceDone else hc_accepted h x = Some u"
      by (cases "x = c") (auto split: if_splits)
  qed
qed simp



text \<open>Two connections, both hijacked.\<close>

lemma reaches_accept:
  "conn_reaches d err h \<Longrightarrow> hc_accepted h c = None \<Longrightarrow> conn_reaches d err (accept_conn c h)"
  by (rule conns_step [OF _ step_accept])

lemma reaches_hijack:
  "conn_reaches d err h \<Longrightarrow> hc_accepted h c = Some t \<Longrightarrow> (d \<Longrightarrow> ct_once t = OnceNew) \<Longrightarrow>
   conn_reaches d err (on_conn_state c StateHijacked h)"
  by (rule conns_step [OF _ step_state])

definition ex_conns :: hijacked_conns where
  "ex_conns = on_conn_state 6 StateHijacked (on_conn_state 5 StateHijacked
     (accept_conn 6 (accept_conn 5 no_conns)))"

lemma ex_conns_simps:
  "tracked ex_conns = {5, 6}"
  "hc_accepted ex_conns = [5 \<mapsto> new_conn\<lparr>ct_hijacked := True\<rparr>, 6 \<mapsto> new_conn\<lparr>ct_hijacked := True\<rparr>]"
  by (auto simp: ex_conns_def on_conn_state_simps)

lemma ex_conns_reachable: "conn_reaches True err ex_conns"
  unfolding ex_conns_def
  by (rule reaches_hijack [where t = new_conn], rule reaches_hijack [where t = new_conn],
      rule reaches_accept, rule reaches_accept, rule conns_start)
    (simp_all add: on_conn_state_simps)



text \<open>Without that order a connection closed before it is reported stays tracked for ever.\<close>

lemma late_report_leaks:
  assumes "h = on_conn_state 5 StateHijacked (snd (tracked_close (\<lambda>_. None) 5 (accept_conn 5 no_conns)))"
  shows "conn_reaches False (\<lambda>_. None) h \<and> 5 \<in> tracked h \<and> tracked_close (\<lambda>_. None) 5 h = (Some None, h)"
proof -
  let ?h = "snd (tracked_close (\<lambda>_. None) 5 (accept_conn 5 no_conns))"
  have r: "conn_reaches False (\<lambda>_. None) ?h"
    by (rule tracked_close_reaches [OF reaches_accept [OF conns_start]]) simp
  obtain t where t: "hc_accepted ?h 5 = Some t" "ct_once t = OnceDone" "ct_close_err t = None"
    by (simp add: tracked_close_def)
  with reaches_hijack [OF r t(1)] show ?thesis
    unfolding assms by (simp add: on_conn_state_simps [OF t(1)] tracked_close_def [of _ _ "on_conn_state 5 _ _"])
qed

end
