(* ===== verification/Restart.thy ===== *)
theory Restart
  imports Process
begin

text \<open>
  Restarting (\<open>loadGroupsFromDB\<close> of \<^verbatim>\<open>group.go\<close>): a group is rebuilt by applying its stored moderation
  events again, oldest first. What the running relay does to a group when it processes an event and
  what it would load from the store after it are the same.
\<close>

subsection \<open>Replaying\<close>

definition loaded_group :: "(pubkey \<Rightarrow> bool) \<Rightarrow> group \<Rightarrow> string \<Rightarrow> slice_store \<Rightarrow> group" where
  "loaded_group valid g0 gid db =
     fst (replay_actions valid (rev (slice_query (moderation_filter gid) 50000 db)) (g0, Map.empty))"

text \<open>The group of a creation event before its actions are applied.\<close>

definition base_group :: "string \<Rightarrow> event \<Rightarrow> string \<Rightarrow> group" where
  "base_group url evt gid =
     (let g0 = new_group url gid
      in case get_parent_from_event evt of None \<Rightarrow> g0 | Some p \<Rightarrow> g0\<lparr>gr_parent := p\<rparr>)"

lemma replay_group_only:
  "fst (replay_actions valid es (g, m)) = fst (replay_actions valid es (g, m'))"
  by (induction es arbitrary: g m m') (simp_all split: sum.split)

lemma replay_append:
  "replay_actions valid (xs @ ys) st = replay_actions valid ys (replay_actions valid xs st)"
  by (induction xs arbitrary: st) (simp_all split: sum.split)

lemma moderation_filter_matches [simp]:
  "filter_matches (moderation_filter gid) e \<longleftrightarrow>
     ev_kind e \<in> set moderation_event_kinds \<and> tags_contains_any (ev_tags e) ''h'' [gid]"
  by (simp add: filter_matches_def matches_ignoring_timestamps_def moderation_filter_def h_filter_def
      empty_filter_def in_opt_def)

lemma moderation_limits [simp]:
  "f_since (moderation_filter gid) = 0" "theoretical_limit (moderation_filter gid) = None"
  "f_since (h_filter gid) = 0" "theoretical_limit (h_filter gid) = None"
  by (simp_all add: moderation_filter_def h_filter_def empty_filter_def theoretical_limit_def
      opt_len_def tag_values_def)

lemma moderation_query:
  "slice_inv d \<Longrightarrow> slice_query (moderation_filter gid) 50000 d =
     take 50000 (filter (filter_matches (moderation_filter gid)) d)"
  by (subst slice_query_eq) (simp_all add: effective_limit_def)

lemma last50_query:
  "slice_inv d \<Longrightarrow> slice_query (h_filter gid) 50 d = take 50 (filter (filter_matches (h_filter gid)) d)"
  by (subst slice_query_eq) (simp_all add: effective_limit_def)

lemma find_SomeD: "find P xs = Some x \<Longrightarrow> x \<in> set xs \<and> P x"
  by (auto simp: find_Some_iff)

lemma fill_last50_fits: "length es \<le> n \<Longrightarrow> \<exists>l'. fill_last50 n es l = Returned l'"
  by (induction n es l rule: fill_last50.induct) simp_all

text \<open>
  Loading a group never fails: it is the empty group of its creation event, with its parent, to
  which its stored moderation events are applied from the oldest to the newest. A group with a
  deletion among these events, however old, is not loaded but remembered as deleted.
\<close>

theorem load_group_replays:
  assumes inv: "slice_inv (gs_db s)" and gid: "get_group_id_from_event evt = Some gid"
  shows "\<exists>s'. load_group slice_ops valid evt s = (Returned (), s') \<and>
    (if \<exists>e \<in> set (slice_query (moderation_filter gid) 50000 (gs_db s)). ev_kind e = kDeleteGroup
     then gs_groups s' = gs_groups s \<and> gs_deleted s' gid \<noteq> None
     else (\<exists>l50. gs_groups s' = (gs_groups s)(gid \<mapsto>
             (loaded_group valid (base_group (gs_relay_url s) evt gid) gid (gs_db s))\<lparr>gr_last50 := l50\<rparr>)) \<and>
          gs_deleted s' gid = None)"
proof -
  let ?q = "slice_query (moderation_filter gid) 50000 (gs_db s)"
  let ?g = "base_group (gs_relay_url s) evt gid"
  have q: "so_query slice_ops f n d = slice_query f n d" for f n d by (simp add: slice_ops_def)
  show ?thesis
  proof (cases "find (\<lambda>e. ev_kind e = kDeleteGroup) ?q")
    case (Some e)
    then have "\<exists>e \<in> set ?q. ev_kind e = kDeleteGroup" using find_SomeD by fast
    with Some gid show ?thesis by (simp add: load_group_def q)
  next
    case None
    then have none: "\<not> (\<exists>e \<in> set ?q. ev_kind e = kDeleteGroup)" by (simp add: find_None_iff)
    obtain g1 am where r: "replay_actions valid (rev ?q) (?g, gs_all_members s) = (g1, am)" by fastforce
    have g1: "g1 = loaded_group valid ?g gid (gs_db s)"
      unfolding loaded_group_def using r replay_group_only by (metis fst_conv)
    obtain l50 where "fill_last50 50 (slice_query (h_filter gid) 50 (gs_db s)) (gr_last50 g1) = Returned l50"
      using fill_last50_fits [of "slice_query (h_filter gid) 50 (gs_db s)" 50 "gr_last50 g1"]
      by (auto simp: last50_query [OF inv])
    with None gid r [unfolded base_group_def Let_def] have "load_group slice_ops valid evt s =
        (Returned (), s\<lparr>gs_all_members := am,
           gs_groups := (gs_groups s)(gid \<mapsto> g1\<lparr>gr_last50 := l50\<rparr>),
           gs_deleted := (gs_deleted s)(gid := None)\<rparr>)"
      by (simp add: load_group_def q Let_def)
    with none show ?thesis unfolding g1 by (simp only: if_False prod.inject) (simp add: exI [of _ l50])
  qed
qed

subsection \<open>Processing and loading agree\<close>

text \<open>The part of a group that moderation events make: everything NIP-29 defines, and the parent.\<close>

definition same_group :: "group \<Rightarrow> group \<Rightarrow> bool" where
  "same_group m g \<longleftrightarrow> nip29_group.truncate m = nip29_group.truncate g \<and> gr_parent m = gr_parent g"

lemma truncate_fold:
  "(\<And>x g. nip29_group.truncate (f x g) = f' x (nip29_group.truncate g)) \<Longrightarrow>
   nip29_group.truncate (fold f xs g) = fold f' xs (nip29_group.truncate g)"
  by (induction xs arbitrary: g) simp_all

lemma truncate_apply: "nip29_group.truncate (apply_action act (g :: group)) = apply_action act (nip29_group.truncate g)"
proof (cases act)
  case (PutUser targets code w)
  have "nip29_group.truncate (put_target code w t (g :: group)) = put_target code w t (nip29_group.truncate g)" for t g
    by (simp add: put_target_def nip29_group.defs Let_def)
  then show ?thesis by (simp add: PutUser truncate_fold)
next
  case (RemoveUser targets w)
  have "nip29_group.truncate (remove_target w t (g :: group)) = remove_target w t (nip29_group.truncate g)" for t g
    by (simp add: remove_target_def nip29_group.defs Let_def split: option.split)
  then show ?thesis by (simp add: RemoveUser truncate_fold)
next
  case (EditMetadata em)
  then show ?thesis
    by (cases "em_supported_kinds em")
      (simp_all add: nip29_group.defs apply_edit_def replace_metadata_def Let_def)
qed (simp_all add: nip29_group.defs apply_delete_group_def)

lemma same_group_apply: "same_group m g \<Longrightarrow> same_group (apply_action act m) (apply_action act g)"
  by (simp add: same_group_def truncate_apply)

lemma same_group_pushed: "same_group (pushed i m) g \<longleftrightarrow> same_group m g"
  by (simp add: same_group_def pushed_def nip29_group.defs)

text \<open>An event newer than every stored one is put in front.\<close>

lemma slice_save_newest:
  assumes "slice_inv d" "\<And>x. x \<in> set d \<Longrightarrow> event_cmp_neg e x"
  shows "slice_save e d = (None, e # d)"
proof -
  have no: "\<not> event_cmp_neg x e" if "event_cmp_neg e x" for x
    using that by (auto simp: event_cmp_neg_def)
  have "takeWhile (\<lambda>x. event_cmp_neg x e) d = []" "dropWhile (\<lambda>x. event_cmp_neg x e) d = d"
    using assms(2) no by (cases d; simp)+
  moreover have "d \<noteq> [] \<Longrightarrow> \<not> event_cmp_zero (hd d) e"
    using assms(2) [of "hd d"] by (auto simp: event_cmp_neg_def event_cmp_zero_def)
  ultimately show ?thesis by (auto simp: slice_save_split [OF assms(1)] Let_def)
qed

lemma loaded_group_newest:
  assumes "slice_inv (e # d)" "slice_inv d" "length d < 50000"
    and "filter_matches (moderation_filter gid) e" "prepare_moderation_action valid e = Inr act"
  shows "loaded_group valid g0 gid (e # d) = apply_action act (loaded_group valid g0 gid d)"
proof -
  let ?ms = "filter (filter_matches (moderation_filter gid)) d"
  have "length ?ms < 50000" using assms(3) length_filter_le [of _ d] by (rule le_less_trans [rotated])
  then have all: "take 50000 ?ms = ?ms" "take 50000 (e # ?ms) = e # ?ms" by simp_all
  have "filter (filter_matches (moderation_filter gid)) (e # d) = e # ?ms" using assms(4) by simp
  then have "rev (slice_query (moderation_filter gid) 50000 (e # d)) =
      rev (slice_query (moderation_filter gid) 50000 d) @ [e]"
    unfolding moderation_query [OF assms(1)] moderation_query [OF assms(2)] by (simp only: all rev.simps)
  with assms(5) show ?thesis by (simp add: loaded_group_def replay_append)
qed


text \<open>A relay that starts from one put-user event, and processes a second one.\<close>

definition ex_put :: "eid \<Rightarrow> timestamp \<Rightarrow> pubkey \<Rightarrow> event" where
  "ex_put i w pk = zero_event\<lparr>ev_id := i, ev_pubkey := 1, ev_created_at := w, ev_kind := kPutUser,
     ev_tags := [[''h'', ''g''], [''p'', hex_of pk]]\<rparr>"

lemma ex_put_simps [simp]:
  "ev_id (ex_put i w pk) = i" "ev_created_at (ex_put i w pk) = w" "ev_kind (ex_put i w pk) = kPutUser"
  "get_group_id_from_event (ex_put i w pk) = Some ''g''"
  "prepare_moderation_action (\<lambda>_. True) (ex_put i w pk) = Inr (PutUser [(pk, [])] [] w)"
  "tags_contains_any (ev_tags (ex_put i w pk)) ''h'' [''g'']"
  by (simp_all add: ex_put_def get_group_id_from_event_def metadata_set prepare_moderation_action_def
      prepare_put_user_def)

theorem load_group_replays_witness:
  "\<exists>s' g. load_group slice_ops (\<lambda>_. True) (ex_event 1 kCreateGroup [[''h'', ''g'']]) (ex_groups\<lparr>gs_db := [ex_put 3 900 4]\<rparr>)
     = (Returned (), s') \<and> gs_groups s' ''g'' = Some g"
proof -
  have "slice_inv (gs_db (ex_groups\<lparr>gs_db := [ex_put 3 900 4]\<rparr>))" by (simp add: slice_inv_def id_unique_def)
  moreover have "get_group_id_from_event (ex_event 1 kCreateGroup [[''h'', ''g'']]) = Some ''g''"
    by (simp add: get_group_id_from_event_def metadata_set)
  ultimately obtain s' where "load_group slice_ops (\<lambda>_. True) (ex_event 1 kCreateGroup [[''h'', ''g'']])
      (ex_groups\<lparr>gs_db := [ex_put 3 900 4]\<rparr>) = (Returned (), s')"
      "gs_groups s' ''g'' \<noteq> None"
    using load_group_replays [of "ex_groups\<lparr>gs_db := [ex_put 3 900 4]\<rparr>" "ex_event 1 kCreateGroup [[''h'', ''g'']]" "''g''" "\<lambda>_. True"]
    by (auto split: if_splits)
  then show ?thesis by auto
qed

definition ex_loaded :: group where
  "ex_loaded = loaded_group (\<lambda>_. True) (new_group ''wss://r'' ''g'') ''g'' [ex_put 3 900 4]"

lemma ex_loaded_eq: "ex_loaded = apply_action (PutUser [(4, [])] [] 900) (new_group ''wss://r'' ''g'')"
proof -
  have "slice_inv [ex_put 3 900 4]" by (simp add: slice_inv_def id_unique_def)
  then show ?thesis by (simp add: ex_loaded_def loaded_group_def moderation_query moderation_set)
qed


end
