(* ===== verification/Html.thy ===== *)
theory Html
  imports Text
begin

text \<open>
  Rendered pages. The generated templates (\<^verbatim>\<open>*_templ.go\<close>) write a page piece by piece: literal
  markup, values escaped by \<open>html.EscapeString\<close>, and links sanitised by \<open>templ.URL\<close> before they are
  escaped. A page is the list of these pieces. An automaton reads a page the way a browser's tokenizer
  does, as far as it matters here: in the text, in a tag, or in a quoted attribute value.
\<close>

datatype seg = Lit string | Esc string | Url string

subsection \<open>Escaping and sanitising\<close>

definition escape_char :: "char \<Rightarrow> string" where
  "escape_char c =
     (if c = CHR ''&'' then ''&amp;''
      else if c = CHR 39 then ''&#39;''
      else if c = CHR ''<'' then ''&lt;''
      else if c = CHR ''>'' then ''&gt;''
      else if c = CHR 34 then ''&#34;''
      else [c])"

definition escape_string :: "string \<Rightarrow> string" where
  "escape_string s = concat (map escape_char s)"

text \<open>
  \<open>strings.EqualFold\<close> with a lower case word of ASCII letters other than \<open>k\<close>: beside the capital
  letters only U+017F folds to such a letter, to \<open>s\<close>.
\<close>

fun fold_case :: "string \<Rightarrow> string" where
  "fold_case [] = []"
| "fold_case (c # cs) =
     (if c = CHR 0xC5 \<and> cs \<noteq> [] \<and> hd cs = CHR 0xBF then CHR ''s'' # fold_case (tl cs)
      else if 65 \<le> (of_char c :: nat) \<and> (of_char c :: nat) \<le> 90
        then char_of ((of_char c :: nat) + 32) # fold_case cs
      else c # fold_case cs)"

definition allowed_protocols :: "string list" where
  "allowed_protocols = [''http'', ''https'', ''mailto'', ''tel'', ''ftp'', ''ftps'']"

text \<open>\<open>templ.URL\<close>: what stands before a first colon, if it holds no slash, must be a known protocol.\<close>

definition safe_url :: "string \<Rightarrow> string" where
  "safe_url s =
     (let protocol = takeWhile (\<lambda>c. c \<noteq> CHR '':'') s
      in if CHR '':'' \<in> set s \<and> CHR ''/'' \<notin> set protocol \<and> fold_case protocol \<notin> set allowed_protocols
         then ''about:invalid#TemplFailedSanitizationURL'' else s)"

fun seg_text :: "seg \<Rightarrow> string" where
  "seg_text (Lit s) = s"
| "seg_text (Esc s) = escape_string s"
| "seg_text (Url s) = escape_string (safe_url s)"

definition render :: "seg list \<Rightarrow> string" where
  "render p = concat (map seg_text p)"

lemma render_simps [simp]:
  "render [] = []" "render (x # p) = seg_text x @ render p" "render (p @ q) = render p @ render q"
  by (simp_all add: render_def)

lemma escape_simps [simp]:
  "escape_string [] = []" "escape_string (c # s) = escape_char c @ escape_string s"
  by (simp_all add: escape_string_def)

text \<open>A path of the site, and an address that starts with a fixed host, are left as they are.\<close>

lemma safe_url_path: "safe_url (CHR ''/'' # s) = CHR ''/'' # s"
  by (simp add: safe_url_def)

lemma safe_url_https: "safe_url (''https:'' @ s) = ''https:'' @ s"
  by (simp add: safe_url_def allowed_protocols_def)

subsection \<open>Reading a page\<close>

datatype html_ctx = InText | InTag | InDq | InSq

fun html_step :: "html_ctx \<Rightarrow> char \<Rightarrow> html_ctx" where
  "html_step InText c = (if c = CHR ''<'' then InTag else InText)"
| "html_step InTag c =
     (if c = CHR ''>'' then InText else if c = CHR 34 then InDq else if c = CHR 39 then InSq else InTag)"
| "html_step InDq c = (if c = CHR 34 then InTag else InDq)"
| "html_step InSq c = (if c = CHR 39 then InTag else InSq)"

fun html_scan :: "html_ctx \<Rightarrow> string \<Rightarrow> html_ctx" where
  "html_scan x [] = x"
| "html_scan x (c # cs) = html_scan (html_step x c) cs"

text \<open>The characters that make the structure of the page: tags with their attribute names and quotes.\<close>

fun is_markup :: "html_ctx \<Rightarrow> char \<Rightarrow> bool" where
  "is_markup InText c = (c = CHR ''<'')"
| "is_markup InTag c = True"
| "is_markup InDq c = (c = CHR 34)"
| "is_markup InSq c = (c = CHR 39)"

fun markup :: "html_ctx \<Rightarrow> string \<Rightarrow> string" where
  "markup x [] = []"
| "markup x (c # cs) = (if is_markup x c then c # markup (html_step x c) cs else markup (html_step x c) cs)"

lemma html_scan_append [simp]: "html_scan x (s @ t) = html_scan (html_scan x s) t"
  by (induction x s rule: html_scan.induct) simp_all

lemma markup_append [simp]: "markup x (s @ t) = markup x s @ markup (html_scan x s) t"
  by (induction x s rule: markup.induct) simp_all

text \<open>An escaped value does not leave the text or the quotes it stands in, and adds no markup.\<close>

lemma escape_char_harmless:
  "d \<in> set (escape_char c) \<Longrightarrow> d \<noteq> CHR ''<'' \<and> d \<noteq> CHR ''>'' \<and> d \<noteq> CHR 34 \<and> d \<noteq> CHR 39"
  by (auto simp: escape_char_def split: if_splits)

lemma harmless_scan:
  assumes "x \<noteq> InTag" "\<And>d. d \<in> set s \<Longrightarrow> d \<noteq> CHR ''<'' \<and> d \<noteq> CHR 34 \<and> d \<noteq> CHR 39"
  shows "html_scan x s = x \<and> markup x s = []"
  using assms(2)
proof (induction s)
  case (Cons d s)
  then have "html_step x d = x" "\<not> is_markup x d" using assms(1) by (cases x; simp)+
  with Cons show ?case by simp
qed simp

lemma escape_scan:
  assumes "x \<noteq> InTag"
  shows "html_scan x (escape_string s) = x" "markup x (escape_string s) = []"
proof -
  have "d \<noteq> CHR ''<'' \<and> d \<noteq> CHR 34 \<and> d \<noteq> CHR 39" if "d \<in> set (escape_string s)" for d
    using that escape_char_harmless by (auto simp: escape_string_def)
  with harmless_scan [OF assms]
  show "html_scan x (escape_string s) = x" "markup x (escape_string s) = []" by blast+
qed

text \<open>
  Where the values of a page stand: \<open>placed x p\<close> is the context after \<open>p\<close>, or none if a value stands
  inside a tag without quotes.
\<close>

fun placed :: "html_ctx \<Rightarrow> seg list \<Rightarrow> html_ctx option" where
  "placed x [] = Some x"
| "placed x (Lit s # p) = placed (html_scan x s) p"
| "placed x (Esc _ # p) = (if x = InTag then None else placed x p)"
| "placed x (Url _ # p) = (if x = InTag then None else placed x p)"

fun blank :: "seg \<Rightarrow> seg" where
  "blank (Lit s) = Lit s"
| "blank (Esc _) = Esc []"
| "blank (Url _) = Url []"

lemma placed_append:
  "placed x (p @ q) = (case placed x p of None \<Rightarrow> None | Some y \<Rightarrow> placed y q)"
  by (induction x p rule: placed.induct) simp_all

lemma placed_appendI:
  "placed x p = Some y \<Longrightarrow> placed x (p @ q) = placed y q"
  by (simp add: placed_append)

lemma placed_concat:
  "(\<And>v. v \<in> set vs \<Longrightarrow> placed x (f v) = Some x) \<Longrightarrow> placed x (concat (map f vs)) = Some x"
  by (induction vs) (simp_all add: placed_append)

lemma safe_url_empty [simp]: "safe_url [] = []"
  by (simp add: safe_url_def)

lemma placed_markup:
  "placed x p = Some y \<Longrightarrow>
   html_scan x (render p) = y \<and> markup x (render p) = markup x (render (map blank p))"
  by (induction x p rule: placed.induct) (auto simp: escape_scan split: if_splits)

subsection \<open>Text fields of a form\<close>

text \<open>What a browser makes of an attribute's text: the five references \<open>EscapeString\<close> writes.\<close>

fun unescape :: "string \<Rightarrow> string" where
  "unescape [] = []"
| "unescape (c # cs) =
     (if c \<noteq> CHR ''&'' then c # unescape cs
      else if starts_with ''amp;'' cs then CHR ''&'' # unescape (drop 4 cs)
      else if starts_with ''#39;'' cs then CHR 39 # unescape (drop 4 cs)
      else if starts_with ''lt;'' cs then CHR ''<'' # unescape (drop 3 cs)
      else if starts_with ''gt;'' cs then CHR ''>'' # unescape (drop 3 cs)
      else if starts_with ''#34;'' cs then CHR 34 # unescape (drop 4 cs)
      else c # unescape cs)"

lemma unescape_escape: "unescape (escape_string s) = s"
proof (induction s)
  case (Cons c s)
  consider "c = CHR ''&''" | "c = CHR 39" | "c = CHR ''<''" | "c = CHR ''>''" | "c = CHR 34"
    | "escape_char c = [c]" "c \<noteq> CHR ''&''"
    by (cases "c = CHR ''&''"; cases "c = CHR 39"; cases "c = CHR ''<''"; cases "c = CHR ''>''";
        cases "c = CHR 34") (auto simp: escape_char_def)
  then show ?case
    by cases (use Cons in \<open>simp_all add: escape_char_def starts_with_def\<close>)
qed simp

text \<open>The name of the input whose value comes next; the inputs of a page with what a browser shows in them.\<close>

definition input_name :: "string \<Rightarrow> string option" where
  "input_name s =
     (let r = rev s; n = takeWhile (\<lambda>c. c \<noteq> CHR 34) (drop 9 r)
      in if starts_with (CHR 34 # ''=eulav '' @ [CHR 34]) r \<and>
            starts_with (CHR 34 # ''=eman '') (drop (9 + length n) r) then Some (rev n) else None)"

fun text_inputs :: "seg list \<Rightarrow> (string \<times> string) list" where
  "text_inputs (Lit s # Esc v # p) =
     (case input_name s of
        None \<Rightarrow> text_inputs p
      | Some n \<Rightarrow> (n, unescape (escape_string v)) # text_inputs p)"
| "text_inputs (x # p) = text_inputs p"
| "text_inputs [] = []"

end
