(* ===== verification/Pages.thy ===== *)
theory Pages
  imports Html Settings GroupState
begin

text \<open>
  The web pages (\<^verbatim>\<open>layout_templ.go\<close>, \<^verbatim>\<open>home_templ.go\<close>, \<^verbatim>\<open>group_templ.go\<close>): the frame, the home page with
  the owner's settings form and the list of groups, and the page of a group. The definitions are cut
  along the templates; a long literal is written as several pieces. A write to the response does not
  fail here: a connection that breaks cuts the page short. Maps are walked in the orders given.
\<close>

definition newline_tabs :: "nat \<Rightarrow> string" where
  "newline_tabs n = CHR 0x0A # replicate n (CHR 0x09)"

text \<open>Eight bullets (U+2022), the placeholder of the secret.\<close>

definition password_dots :: string where
  "password_dots = concat (replicate 8 [CHR 0xE2, CHR 0x80, CHR 0xA2])"

text \<open>\<open>%d\<close> and \<open>%t\<close> of \<open>fmt\<close>.\<close>

definition int_text :: "int \<Rightarrow> string" where
  "int_text i = (if i < 0 then CHR ''-'' # itoa (nat (- i)) else itoa (nat i))"

definition bool_text :: "bool \<Rightarrow> string" where
  "bool_text b = (if b then ''true'' else ''false'')"

definition profile_url :: "pubkey \<Rightarrow> string" where
  "profile_url pk = ''https://njump.me/'' @ hex_of pk"

definition group_url :: "string \<Rightarrow> string" where
  "group_url gid = ''/group/'' @ gid"

subsection \<open>The frame\<close>

definition layout :: "settings \<Rightarrow> pubkey \<Rightarrow> string \<Rightarrow> seg list \<Rightarrow> seg list" where \<open>
  layout st logged title children =
    [Lit ''<!doctype html><html><head><meta charset="utf-8"><meta name="viewport" '',
     Lit ''content="width=device-width, initial-scale=1"><title>''] @
    (if title \<noteq> [] then [Esc title, Lit ('' '' @ [CHR 0xC2, CHR 0xB7] @ '' '')] else []) @
    [Esc (st_relay_name st),
     Lit ''</title><link rel="stylesheet" href="/static/styles.css"><script '',
     Lit ''src="https://cdn.jsdelivr.net/npm/nostr-web-components/dist/nostr-name.js"></script>'',
     Lit ''<script src="https://cdn.jsdelivr.net/npm/nostr-web-components/dist/nostr-text.js">'',
     Lit ''</script><script defer '',
     Lit ''src="https://cdn.jsdelivr.net/npm/alpinejs@3.x.x/dist/cdn.min.js"></script></head>'',
     Lit ''<body class="min-h-screen bg-stone-50 p-4 sm:p-8">'',
     Lit ''<header class="mb-8"><div class="flex items-center justify-between"><div class="flex'',
     Lit '' items-center gap-3"><a href="/">''] @
    (if st_relay_icon st \<noteq> [] then
       [Lit ''<img src="'', Esc (st_relay_icon st),
        Lit ''" class="w-10 h-10 rounded-lg object-cover shadow-sm">'']
     else
       [Lit ''<img src="/static/logo.png" class="w-10 h-10 rounded-lg object-cover shadow-sm">'']) @
    [Lit ''</a> <a href="/"><h1 class="text-xl font-semibold text-stone-800">'',
     Esc (st_relay_name st),
     Lit ''</h1></a></div><div x-data="authButton()"><button @click="handleAuth($event)" '',
     Lit ''class="cursor-pointer px-4 py-2 bg-stone-800 text-white rounded-lg text-sm '',
     Lit ''font-medium hover:bg-stone-700 transition-colors duration-150">''] @
    (if logged \<noteq> 0 then [Lit ''logout''] else [Lit ''login'']) @
    [Lit ''</button></div></div></header><main class="max-w-[96%] w-[1360px] mx-auto">''] @
    children @
    [Lit ''<p class="text-sm text-stone-400 mt-16">powered by <a '',
     Lit ''href="https://viewsource.win/fiatjaf.com/croissant" class="font-medium '',
     Lit ''text-stone-600">croissant</a></p></main></body><script>window.wnjParams = { '',
     Lit (''position: '' @ [CHR 39] @ ''bottom'' @ [CHR 39] @ '', startHidden: true, compactMode: true }</script><script ''),
     Lit ''src="https://cdn.jsdelivr.net/npm/window.nostr.js/dist/window.nostr.min.js">'',
     Lit ''</script></html>'']\<close>

subsection \<open>The home page\<close>

definition home_stats :: "nat \<Rightarrow> nat \<Rightarrow> nat \<Rightarrow> seg list" where \<open>
  home_stats groups clients listeners =
    [Lit ''<div class="grid grid-cols-1 sm:grid-cols-3 gap-4 mb-8"><div class="bg-white '',
     Lit ''rounded-xl shadow-sm border border-stone-200 p-4 text-center"><div class="text-2xl '',
     Lit ''font-bold text-amber-600">'',
     Esc (itoa groups),
     Lit ''</div><div class="text-sm text-stone-500">Groups</div></div><div class="bg-white '',
     Lit ''rounded-xl shadow-sm border border-stone-200 p-4 text-center"><div class="text-2xl '',
     Lit ''font-bold text-amber-600">'',
     Esc (itoa clients),
     Lit ''</div><div class="text-sm text-stone-500">Connected Clients</div></div><div '',
     Lit ''class="bg-white rounded-xl shadow-sm border border-stone-200 p-4 text-center"><div '',
     Lit ''class="text-2xl font-bold text-amber-600">'',
     Esc (itoa listeners),
     Lit ''</div><div class="text-sm text-stone-500">Active Subscriptions</div></div></div>'']\<close>

definition form_identity :: "settings \<Rightarrow> seg list" where \<open>
  form_identity st =
    [Lit ''<form method="POST" action="/settings" class="bg-white rounded-xl shadow-sm border '',
     Lit ''border-stone-200 p-6 space-y-6"><h2 class="text-lg font-semibold text-stone-800 '',
     Lit ''mb-6">Relay Settings</h2><div><label class="block text-sm font-medium text-stone-700'',
     Lit '' mb-1.5">Relay Name</label> <input type="text" name="relay_name" value="'',
     Esc (st_relay_name st),
     Lit ''" class="w-full px-4 py-2.5 border border-stone-300 rounded-lg text-stone-800 '',
     Lit ''placeholder-stone-400 focus:outline-none focus:ring-2 focus:ring-amber-500/50 '',
     Lit ''focus:border-amber-500 transition-all duration-150"></div><div><label class="block '',
     Lit ''text-sm font-medium text-stone-700 mb-1.5">Relay Description</label> <textarea '',
     Lit ''name="relay_description" rows="3" class="w-full px-4 py-2.5 border border-stone-300 '',
     Lit ''rounded-lg text-stone-800 placeholder-stone-400 focus:outline-none focus:ring-2 '',
     Lit ''focus:ring-amber-500/50 focus:border-amber-500 transition-all duration-150 '',
     Lit ''resize-none">'',
     Esc (st_relay_description st),
     Lit ''</textarea></div><div><label class="block text-sm font-medium text-stone-700 '',
     Lit ''mb-1.5">Relay Contact</label> <input type="text" name="relay_contact" value="'',
     Esc (st_relay_contact st),
     Lit ''" class="w-full px-4 py-2.5 border border-stone-300 rounded-lg text-stone-800 '',
     Lit ''placeholder-stone-400 focus:outline-none focus:ring-2 focus:ring-amber-500/50 '',
     Lit ''focus:border-amber-500 transition-all duration-150"></div><div><label class="block '',
     Lit ''text-sm font-medium text-stone-700 mb-1.5">Relay Icon URL</label> <input type="text"'',
     Lit '' name="relay_icon" value="'',
     Esc (st_relay_icon st),
     Lit ''" placeholder="https://example.com/icon.png" class="w-full px-4 py-2.5 border '',
     Lit ''border-stone-300 rounded-lg text-stone-800 placeholder-stone-400 focus:outline-none '',
     Lit ''focus:ring-2 focus:ring-amber-500/50 focus:border-amber-500 transition-all '',
     Lit ''duration-150"></div><div><label class="block text-sm font-medium text-stone-700 '',
     Lit ''mb-1.5">Owner Pubkey</label> <input type="text" name="owner_pubkey" value="'',
     Esc (hex_of (st_owner_pub_key st))]\<close>

definition form_rate_limit :: "rate_limit_config \<Rightarrow> seg list" where \<open>
  form_rate_limit cfg =
    [Lit ''" readonly class="w-full px-4 py-2.5 border border-stone-200 rounded-lg font-mono '',
     Lit ''text-xs text-stone-500 bg-stone-50 cursor-not-allowed"></div><div><label '',
     Lit ''class="block text-sm font-medium text-stone-700 mb-1.5">Group Creation Rate Limit '',
     Lit ''(IP-based)</label><p class="text-xs text-stone-500 mb-3">Applies to group creation '',
     Lit ''events. Set any value to 0 to disable.</p><div class="grid grid-cols-1 '',
     Lit ''sm:grid-cols-3 gap-4"><div><label class="block text-xs font-medium text-stone-600 '',
     Lit ''mb-1">Tokens per interval</label> <input type="number" min="0"'',
     Lit '' name="group_create_rate_tokens_per_interval" value="'',
     Esc (int_text (rl_tokens_per_interval cfg)),
     Lit ''" class="w-full px-4 py-2.5 border border-stone-300 rounded-lg text-stone-800 '',
     Lit ''placeholder-stone-400 focus:outline-none focus:ring-2 focus:ring-amber-500/50 '',
     Lit ''focus:border-amber-500 transition-all duration-150"></div><div><label class="block '',
     Lit ''text-xs font-medium text-stone-600 mb-1">Interval (seconds)</label> <input '',
     Lit ''type="number" min="0" name="group_create_rate_interval_seconds" value="'',
     Esc (int_text (rl_interval_seconds cfg)),
     Lit ''" class="w-full px-4 py-2.5 border border-stone-300 rounded-lg text-stone-800 '',
     Lit ''placeholder-stone-400 focus:outline-none focus:ring-2 focus:ring-amber-500/50 '',
     Lit ''focus:border-amber-500 transition-all duration-150"></div><div><label class="block '',
     Lit ''text-xs font-medium text-stone-600 mb-1">Max burst tokens</label> <input '',
     Lit ''type="number" min="0" name="group_create_rate_max_tokens" value="'',
     Esc (int_text (rl_max_tokens cfg))]\<close>

definition form_presence :: "groups_settings \<Rightarrow> seg list" where \<open>
  form_presence gc =
    [Lit ''" class="w-full px-4 py-2.5 border border-stone-300 rounded-lg text-stone-800 '',
     Lit ''placeholder-stone-400 focus:outline-none focus:ring-2 focus:ring-amber-500/50 '',
     Lit ''focus:border-amber-500 transition-all duration-150"></div></div></div><div><label '',
     Lit ''class="block text-sm font-medium text-stone-700 mb-1.5">Create Group Presence Relays'',
     Lit ''</label><p class="text-xs text-stone-500 mb-3">Restrict group creation to users that'',
     Lit '' can be found on these (comma-separated). Leave empty to accept anyone.</p><input '',
     Lit ''type="text" name="create_group_presence_relays" value="'',
     Esc (join_with '', '' (gc_create_presence_relays gc)),
     Lit ''" placeholder="nostr.wine, nostrarchives.com" class="w-full px-4 py-2.5 border '',
     Lit ''border-stone-300 rounded-lg text-stone-800 placeholder-stone-400 focus:outline-none '',
     Lit ''focus:ring-2 focus:ring-amber-500/50 focus:border-amber-500 transition-all '',
     Lit ''duration-150"></div><div><label class="block text-sm font-medium text-stone-700 '',
     Lit ''mb-1.5">Free Transit Presence Relays</label><p class="text-xs text-stone-500 '',
     Lit ''mb-3">Unrestricted groups and automatic join will be restricted to users in these '',
     Lit ''(comma-separated). Leave empty to accept anyone.</p><input type="text"'',
     Lit '' name="free_transit_presence_relays" value="'',
     Esc (join_with '', '' (gc_transit_presence_relays gc))]\<close>

definition form_gift_wraps :: "gift_wrap_settings \<Rightarrow> seg list" where \<open>
  form_gift_wraps gw =
    [Lit ''" placeholder="pow.relays.land, relay.certifiedhuman.com" class="w-full px-4 py-2.5 '',
     Lit ''border border-stone-300 rounded-lg text-stone-800 placeholder-stone-400 '',
     Lit ''focus:outline-none focus:ring-2 focus:ring-amber-500/50 focus:border-amber-500 '',
     Lit ''transition-all duration-150"></div><div x-data="'',
     Esc (''{ giftWrapsEnabled: '' @ bool_text (gw_enabled gw) @ '' }''),
     Lit ''"><label class="block text-sm font-medium text-stone-700 mb-1.5">Gift-Wraps (kind '',
     Lit ''1059)</label><p class="text-xs text-stone-500 mb-3">Store and serve gift-wraps for '',
     Lit ''authenticated recipients. Disabled by default.</p><div class="space-y-3"><div '',
     Lit ''class="flex items-center gap-2"><input type="checkbox" name="gift_wraps_enabled" '',
     Lit ''id="gift_wraps_enabled" value="true"''] @
    (if gw_enabled gw then [Lit '' checked''] else []) @
    [Lit '' x-model="giftWrapsEnabled" class="w-4 h-4 text-amber-500 border-stone-300 rounded '',
     Lit ''focus:ring-amber-500"> <label for="gift_wraps_enabled" class="text-sm '',
     Lit ''text-stone-700">Enable gift-wrap storage</label></div><div x-show="giftWrapsEnabled"'',
     Lit '' x-transition class="space-y-3 border border-stone-200 rounded-lg p-4"><label '',
     Lit ''class="block text-xs font-medium text-stone-600 mb-1">Sender Presence Relays</label>'',
     Lit ''<p class="text-xs text-stone-500 mb-2">Optional comma-separated relays. If set, '',
     Lit ''sender must authenticate with matching pubkey and also have `kind:0` on one of them.'',
     Lit ''</p><input type="text" name="gift_wraps_sender_presence_relays" value="'',
     Esc (join_with '', '' (gw_presence_relays gw))]\<close>

definition form_blossom_fields :: "blossom_settings \<Rightarrow> seg list" where \<open>
  form_blossom_fields bl =
    [Lit ''" placeholder="nostr.wine, nostrarchives.com" class="w-full px-4 py-2.5 border '',
     Lit ''border-stone-300 rounded-lg text-stone-800 placeholder-stone-400 focus:outline-none '',
     Lit ''focus:ring-2 focus:ring-amber-500/50 focus:border-amber-500 transition-all '',
     Lit ''duration-150"></div></div></div><div x-data="'',
     Esc (''{ blossomEnabled: '' @ bool_text (bl_enabled bl) @ '' }''),
     Lit ''"><label class="block text-sm font-medium text-stone-700 mb-1.5">Blossom Storage'',
     Lit ''</label><p class="text-xs text-stone-500 mb-3">File upload functionality will be '',
     Lit ''available for all members of all groups.</p><div class="flex items-center gap-2 '',
     Lit ''mb-4"><input type="checkbox" name="blossom_enabled" id="blossom_enabled" '',
     Lit ''value="true"''] @
    (if bl_enabled bl then [Lit '' checked''] else []) @
    [Lit '' x-model="blossomEnabled" class="w-4 h-4 text-amber-500 border-stone-300 rounded '',
     Lit ''focus:ring-amber-500"> <label for="blossom_enabled" class="text-sm '',
     Lit ''text-stone-700">Enable Blossom file uploads</label></div><div '',
     Lit ''x-show="blossomEnabled" x-transition class="space-y-4"><div><label class="block '',
     Lit ''text-xs font-medium text-stone-600 mb-1">Local Path (for filesystem storage)</label>'',
     Lit '' <input type="text" name="blossom_local_path" value="'',
     Esc (bl_local_path bl)]\<close>

definition form_s3_fields :: "blossom_settings \<Rightarrow> seg list" where \<open>
  form_s3_fields bl =
    [Lit ''" placeholder="blossom-files" class="w-full px-4 py-2.5 border border-stone-300 '',
     Lit ''rounded-lg text-stone-800 placeholder-stone-400 focus:outline-none focus:ring-2 '',
     Lit ''focus:ring-amber-500/50 focus:border-amber-500 transition-all duration-150"><p '',
     Lit (''class="text-xs text-stone-500 mt-1">This will be used unless S3 is set up. Can'' @ [CHR 39] @ ''t be ''),
     Lit ''blank.</p></div><div class="border-t border-stone-200 pt-4"><label class="block '',
     Lit ''text-xs font-medium text-stone-600 mb-2">S3 Configuration</label><div class="grid '',
     Lit ''grid-cols-1 sm:grid-cols-2 gap-4"><div><label class="block text-xs text-stone-500 '',
     Lit ''mb-1">Endpoint</label> <input type="text" name="blossom_s3_endpoint" value="'',
     Esc (bl_s3_endpoint bl),
     Lit ''" placeholder="s3.us-west-001.backblazeb2.com" class="w-full px-4 py-2.5 border '',
     Lit ''border-stone-300 rounded-lg text-stone-800 placeholder-stone-400 focus:outline-none '',
     Lit ''focus:ring-2 focus:ring-amber-500/50 focus:border-amber-500 transition-all '',
     Lit ''duration-150"></div><div><label class="block text-xs text-stone-500 mb-1">Bucket'',
     Lit ''</label> <input type="text" name="blossom_s3_bucket" value="'',
     Esc (bl_s3_bucket bl),
     Lit ''" placeholder="my-bucket" class="w-full px-4 py-2.5 border border-stone-300 '',
     Lit ''rounded-lg text-stone-800 placeholder-stone-400 focus:outline-none focus:ring-2 '',
     Lit ''focus:ring-amber-500/50 focus:border-amber-500 transition-all duration-150"></div>'',
     Lit ''</div><div class="grid grid-cols-1 sm:grid-cols-2 gap-4 mt-4"><div><label '',
     Lit ''class="block text-xs text-stone-500 mb-1">Access Key ID</label> <input type="text"'',
     Lit '' name="blossom_s3_key_id" value="'',
     Esc (bl_s3_key_id bl),
     Lit ''" placeholder="AKIA..." class="w-full px-4 py-2.5 border border-stone-300 rounded-lg'',
     Lit '' text-stone-800 placeholder-stone-400 focus:outline-none focus:ring-2 '',
     Lit ''focus:ring-amber-500/50 focus:border-amber-500 transition-all duration-150"></div>'',
     Lit ''<div><label class="block text-xs text-stone-500 mb-1">Secret Access Key</label> '',
     Lit ''<input type="password" name="blossom_s3_secret" value="'',
     Esc (bl_s3_secret bl),
     Lit (''" placeholder="'' @ password_dots @ ''" class="w-full px-4 py-2.5 border border-stone-300 ''),
     Lit ''rounded-lg text-stone-800 placeholder-stone-400 focus:outline-none focus:ring-2 '',
     Lit ''focus:ring-amber-500/50 focus:border-amber-500 transition-all duration-150"></div>'',
     Lit ''</div><div class="mt-4"><label class="block text-xs text-stone-500 mb-1">Redirect '',
     Lit ''Base URL (optional)</label> <input type="text"'',
     Lit '' name="blossom_s3_redirect_base_url" value="'',
     Esc (bl_s3_redirect_base_url bl),
     Lit ''" placeholder="https://blossom-bucket.s3.us-east-1.amazonaws.com" class="w-full px-4'',
     Lit '' py-2.5 border border-stone-300 rounded-lg text-stone-800 placeholder-stone-400 '',
     Lit ''focus:outline-none focus:ring-2 focus:ring-amber-500/50 focus:border-amber-500 '',
     Lit ''transition-all duration-150"><p class="text-xs text-stone-500 '',
     Lit ''mt-1">/&lt;sha256&gt;.&lt;ext&gt will be appended to it. See <a '',
     Lit ''href="https://github.com/hzrd149/blossom/blob/master/buds/01.md#proxying-and-redirection-optional"'',
     Lit '' target="_blank" class="font-semibold hover:underline">Header requirements</a>. If '',
     Lit ''this is not set the server will proxy all blob access through itself.</p></div>'',
     Lit ''</div></div></div><div class="pt-4"><button type="submit" class="cursor-pointer '',
     Lit ''w-full sm:w-auto px-6 py-2.5 bg-amber-500 text-white rounded-lg text-sm font-medium '',
     Lit ''hover:bg-amber-600 transition-colors duration-150 shadow-sm">Save Changes</button>'',
     Lit ''</div></form>'']\<close>

definition settings_form :: "settings \<Rightarrow> seg list" where
  "settings_form st =
     form_identity st @
     form_rate_limit (gc_create_rate_limit (st_groups st)) @
     form_presence (st_groups st) @
     form_gift_wraps (st_gift_wraps st) @
     form_blossom_fields (st_blossom st) @
     form_s3_fields (st_blossom st)"

definition home_description :: "settings \<Rightarrow> seg list" where \<open>
  home_description st =
    (if st_relay_description st \<noteq> [] then
       [Lit ''<div class="bg-white rounded-xl shadow-sm border border-stone-200 p-4 mb-8">'',
        Lit ''<nostr-text content="'',
        Esc (st_relay_description st),
        Lit ''"></nostr-text></div>'']
     else [])\<close>

text \<open>
  The condition \<open>role != nil\<close> holds of every member: \<open>Members\<close> is only ever filled by \<open>PutUser.Apply\<close>,
  which makes the slice of roles even when it stays empty.
\<close>

definition owner_link :: "pubkey \<Rightarrow> seg list" where \<open>
  owner_link pk =
    [Lit ''<a href="'',
     Url (profile_url pk),
     Lit ''" target="_blank" class="text-xs text-stone-400 hover:text-stone-600 '',
     Lit ''transition-colors" onclick="event.stopPropagation()"><nostr-name pubkey="'',
     Esc (hex_of pk),
     Lit ''"></nostr-name></a>'']\<close>

definition home_flags :: "group \<Rightarrow> seg list" where \<open>
  home_flags g =
    (if g_private g then
       [Lit ''<span title="messages are only shown to authenticated members" class="inline-flex '',
        Lit ''items-center px-2.5 py-0.5 rounded-full text-xs font-medium bg-amber-100 '',
        Lit ''text-amber-800">private</span> '']
     else
       [Lit ''<span title="all messages can be read by anyone" class="inline-flex items-center '',
        Lit ''px-2.5 py-0.5 rounded-full text-xs font-medium bg-stone-100 text-stone-600">public'',
        Lit ''</span> '']) @
    (if g_restricted g then
       [Lit ''<span title="only members can send messages" class="inline-flex items-center px-2.5 '',
        Lit ''py-0.5 rounded-full text-xs font-medium bg-amber-100 text-amber-800">restricted'',
        Lit ''</span> '']
     else
       [Lit ''<span title="anyone can send messages to the group even without joining" '',
        Lit ''class="inline-flex items-center px-2.5 py-0.5 rounded-full text-xs font-medium '',
        Lit ''bg-stone-100 text-stone-600">unrestricted</span> '']) @
    (if g_closed g then
       [Lit ''<span title="people need an invite to join, or have to be manually approved" '',
        Lit ''class="inline-flex items-center px-2.5 py-0.5 rounded-full text-xs font-medium '',
        Lit ''bg-amber-100 text-amber-800">closed</span> '']
     else
       [Lit ''<span title="anyone can join" class="inline-flex items-center px-2.5 py-0.5 '',
        Lit ''rounded-full text-xs font-medium bg-stone-100 text-stone-600">open</span> '']) @
    (if g_livekit g then
       [Lit ''<span title="audio/video room" class="inline-flex items-center px-2.5 py-0.5 '',
        Lit ''rounded-full text-xs font-medium bg-stone-100 text-stone-600">livekit</span>'']
     else [])\<close>

definition group_row :: "pubkey list \<Rightarrow> group \<Rightarrow> seg list" where \<open>
  group_row members g =
    [Lit ''<tr class="hover:bg-stone-50 transition-colors"><td class="px-6 py-4"><a href="'',
     Url (group_url (g_id g)),
     Lit ''" class="text-stone-800 font-medium cursor-pointer">'',
     Esc (g_name g),
     Lit ''</a><br><a href="'',
     Url (group_url (g_id g)),
     Lit ''" class="text-xs text-stone-400 font-mono cursor-pointer">'',
     Esc (g_id g),
     Lit ''</a></td><td class="px-6 py-4"><div class="flex flex-wrap gap-1">''] @
    concat (map owner_link members) @
    [Lit ''</div></td><td class="px-6 py-4 gap-2"><div class="flex flex-wrap gap-1">''] @
    home_flags g @
    [Lit ''</div></td></tr>'']\<close>

text \<open>\<open>ord\<close> is the order of the groups, \<open>mords\<close> the order of the members of each.\<close>

definition home_groups ::
  "settings \<Rightarrow> pubkey \<Rightarrow> groups \<Rightarrow> string list \<Rightarrow> (string \<Rightarrow> pubkey list) \<Rightarrow> seg list" where \<open>
  home_groups st logged gs ord mords =
    [Lit '' <div class="bg-white rounded-xl shadow-sm border border-stone-200 overflow-hidden '',
     Lit ''mt-8"><div class="px-6 py-4 border-b border-stone-100"><h2 class="text-lg '',
     Lit ''font-semibold text-stone-800">Groups</h2></div><div class="overflow-x-auto"><table '',
     Lit ''class="w-full"><thead class="bg-stone-50"><tr><th class="px-6 py-3 text-left text-xs'',
     Lit '' font-medium text-stone-500 uppercase tracking-wider">Name</th><th class="px-6 py-3 '',
     Lit ''text-left text-xs font-medium text-stone-500 uppercase tracking-wider">Owner</th><th'',
     Lit '' class="px-6 py-3 text-left text-xs font-medium text-stone-500 uppercase '',
     Lit ''tracking-wider">Status</th></tr></thead> <tbody class="divide-y divide-stone-100">''] @
    concat (map (\<lambda>gid.
      case gs gid of
        None \<Rightarrow> []
      | Some g \<Rightarrow>
          if \<not> g_hidden g \<or> logged = st_owner_pub_key st then group_row (mords gid) g else []) ord) @
    [Lit ''</tbody></table></div></div>'']\<close>

definition deleted_row :: "deleted_group \<Rightarrow> seg list" where \<open>
  deleted_row dg =
    [Lit ''<tr class="hover:bg-stone-50 transition-colors"><td class="px-6 py-4"><a href="'',
     Url (group_url (dg_id dg)),
     Lit ''" class="text-stone-800 font-medium cursor-pointer">deleted group</a><br><a href="'',
     Url (group_url (dg_id dg)),
     Lit ''" class="text-xs text-stone-400 font-mono cursor-pointer">'',
     Esc (dg_id dg),
     Lit ''</a></td><td class="px-6 py-4"><a href="'',
     Url (profile_url (dg_by dg)),
     Lit ''" target="_blank" class="text-xs text-stone-400 hover:text-stone-600 '',
     Lit ''transition-colors" onclick="event.stopPropagation()"><nostr-name pubkey="'',
     Esc (hex_of (dg_by dg)),
     Lit ''"></nostr-name></a></td><td class="px-6 py-4"><span class="inline-flex items-center '',
     Lit ''px-2.5 py-0.5 rounded-full text-xs font-medium bg-red-100 text-red-800">deleted'',
     Lit ''</span></td></tr>'']\<close>

definition home_deleted :: "settings \<Rightarrow> pubkey \<Rightarrow> deleted_group list \<Rightarrow> seg list" where \<open>
  home_deleted st logged deleted =
    (if logged = st_owner_pub_key st \<and> deleted \<noteq> [] then
       [Lit ''<div class="bg-white rounded-xl shadow-sm border border-stone-200 overflow-hidden '',
        Lit ''mt-8"><div class="px-6 py-4 border-b border-stone-100"><h2 class="text-lg '',
        Lit ''font-semibold text-stone-800">Deleted Groups</h2></div><div class="overflow-x-auto">'',
        Lit ''<table class="w-full"><thead class="bg-stone-50"><tr><th class="px-6 py-3 text-left '',
        Lit ''text-xs font-medium text-stone-500 uppercase tracking-wider">Group</th><th '',
        Lit ''class="px-6 py-3 text-left text-xs font-medium text-stone-500 uppercase '',
        Lit ''tracking-wider">Deleted By</th><th class="px-6 py-3 text-left text-xs font-medium '',
        Lit ''text-stone-500 uppercase tracking-wider">Status</th></tr></thead> <tbody '',
        Lit ''class="divide-y divide-stone-100">''] @
       concat (map deleted_row deleted) @
       [Lit ''</tbody></table></div></div>'']
     else [])\<close>

definition login_script :: "seg list" where \<open>
  login_script =
    [Lit '' <script>'',
     Lit (newline_tabs 3 @ ''function authButton() {''),
     Lit (newline_tabs 4 @ ''return {''),
     Lit (newline_tabs 5 @ ''setCookie(name, value) {''),
     Lit (newline_tabs 6 @ ''document.cookie = `${name}=${value}; path=/; max-age=34560000`;''),
     Lit (newline_tabs 5 @ ''},''),
     Lit (newline_tabs 5 @ ''clearCookie(name) {''),
     Lit (newline_tabs 6 @ ''document.cookie = `${name}=; path=/; expires=Thu, 01 Jan 1970 00:00:00 GMT`;''),
     Lit (newline_tabs 5 @ ''},''),
     Lit (newline_tabs 5 @ ''async handleAuth(event) {''),
     Lit (newline_tabs 6 @ ''const isLogin = event.target.innerText.toLowerCase() === '' @ [CHR 39] @ ''login'' @ [CHR 39] @ '';''),
     Lit (newline_tabs 6 @ ''if (isLogin) {''),
     Lit (newline_tabs 7 @ ''try {''),
     Lit (newline_tabs 8 @ ''const signed = await window.nostr.signEvent({''),
     Lit (newline_tabs 9 @ ''created_at: Math.round(Date.now() / 1000),''),
     Lit (newline_tabs 9 @ ''kind: 27235,''),
     Lit (newline_tabs 9 @ ''tags: [['' @ [CHR 39] @ ''domain'' @ [CHR 39] @ '', location.host]],''),
     Lit (newline_tabs 9 @ ''content: '' @ [CHR 39] @ [CHR 39]),
     Lit (newline_tabs 8 @ ''});''),
     Lit (newline_tabs 8 @ ''this.setCookie('' @ [CHR 39] @ ''nip98'' @ [CHR 39] @ '', btoa(JSON.stringify(signed)));''),
     Lit (newline_tabs 7 @ ''} catch (e) {''),
     Lit (newline_tabs 8 @ ''console.error('' @ [CHR 39] @ ''login failed:'' @ [CHR 39] @ '', e);''),
     Lit (newline_tabs 8 @ ''return;''),
     Lit (newline_tabs 7 @ ''}''),
     Lit (newline_tabs 6 @ ''} else {''),
     Lit (newline_tabs 7 @ ''this.clearCookie('' @ [CHR 39] @ ''nip98'' @ [CHR 39] @ '');''),
     Lit (newline_tabs 6 @ ''}''),
     Lit (newline_tabs 6 @ ''location.reload();''),
     Lit (newline_tabs 5 @ ''}''),
     Lit (newline_tabs 4 @ ''}''),
     Lit (newline_tabs 3 @ ''}''),
     Lit (newline_tabs 2 @ ''</script>'')]\<close>

text \<open>
  \<open>stats\<close> is what \<open>R.Stats\<close> answers; \<open>deleted\<close> lists the deleted groups in the order of their map.
\<close>

definition home ::
  "settings \<Rightarrow> pubkey \<Rightarrow> nat \<times> nat \<Rightarrow> groups \<Rightarrow> string list \<Rightarrow> (string \<Rightarrow> pubkey list) \<Rightarrow>
     deleted_group list \<Rightarrow> seg list" where
  "home st logged stats gs ord mords deleted =
     layout st logged []
       (home_stats (length ord) (fst stats) (snd stats) @
        (if logged = st_owner_pub_key st then settings_form st else home_description st) @
        home_groups st logged gs ord mords @
        home_deleted st logged deleted @
        login_script)"

subsection \<open>The page of a group\<close>

definition group_identity :: "group \<Rightarrow> seg list" where \<open>
  group_identity g =
    [Lit ''<div class="bg-white rounded-xl shadow-sm border border-stone-200 p-6 space-y-4">'',
     Lit ''<div class="flex gap-4"><div><p class="text-xs text-stone-500 uppercase '',
     Lit ''tracking-wide">ID</p><p class="text-sm font-mono text-stone-700">'',
     Esc (g_id g),
     Lit ''</p></div>''] @
    (if g_picture g \<noteq> [] then
       [Lit ''<div><img src="'', Esc (g_picture g),
        Lit ''" class="w-10 h-10 rounded-lg object-cover shadow-sm"></div>'']
     else []) @
    (if g_name g \<noteq> [] then
       [Lit ''<div><p class="text-xs text-stone-500 uppercase tracking-wide">Name</p><p '',
        Lit ''class="text-sm font-mono text-stone-700">'',
        Esc (g_name g),
        Lit ''</p></div>'']
     else []) @
    (if g_about g \<noteq> [] then
       [Lit ''<div><p class="text-sm text-stone-600">'', Esc (g_about g), Lit ''</p></div>'']
     else []) @
    [Lit ''</div><div class="flex flex-wrap gap-2">'']\<close>

definition group_flags :: "deleted_group option \<Rightarrow> group \<Rightarrow> seg list" where \<open>
  group_flags dg g =
    (if dg \<noteq> None then
       [Lit ''<span class="inline-flex items-center px-2.5 py-0.5 rounded-full text-xs font-medium'',
        Lit '' bg-red-100 text-red-800">deleted</span> '']
     else []) @
    (if g_private g then
       [Lit ''<span title="messages are only shown to authenticated members" class="inline-flex '',
        Lit ''items-center px-2.5 py-0.5 rounded-full text-xs font-medium bg-amber-100 '',
        Lit ''text-amber-800">private</span> '']
     else
       [Lit ''<span title="all messages can be read by anyone" class="inline-flex items-center '',
        Lit ''px-2.5 py-0.5 rounded-full text-xs font-medium bg-stone-100 text-stone-600">public'',
        Lit ''</span> '']) @
    (if g_restricted g then
       [Lit ''<span title="only members can send messages" class="inline-flex items-center px-2.5 '',
        Lit ''py-0.5 rounded-full text-xs font-medium bg-stone-100 text-stone-600">restricted'',
        Lit ''</span> '']
     else
       [Lit ''<span title="anyone can send messages to the group even without joining" '',
        Lit ''class="inline-flex items-center px-2.5 py-0.5 rounded-full text-xs font-medium '',
        Lit ''bg-stone-100 text-stone-600">unrestricted</span> '']) @
    (if g_closed g then
       [Lit ''<span title="people need an invite to join, or have to be manually approved" '',
        Lit ''class="inline-flex items-center px-2.5 py-0.5 rounded-full text-xs font-medium '',
        Lit ''bg-stone-100 text-stone-600">closed</span> '']
     else
       [Lit ''<span title="anyone can join" class="inline-flex items-center px-2.5 py-0.5 '',
        Lit ''rounded-full text-xs font-medium bg-stone-100 text-stone-600">open</span> '']) @
    (if g_livekit g then
       [Lit ''<span title="audio/video room" class="inline-flex items-center px-2.5 py-0.5 '',
        Lit ''rounded-full text-xs font-medium bg-stone-100 text-stone-600">livekit</span>'']
     else []) @
    [Lit ''</div>'']\<close>

definition group_deleted_by :: "deleted_group option \<Rightarrow> seg list" where \<open>
  group_deleted_by dg =
    (case dg of
       None \<Rightarrow> []
     | Some d \<Rightarrow>
         [Lit ''<div class="text-sm text-stone-600">Deleted by <a href="'',
          Url (profile_url (dg_by d)),
          Lit ''" target="_blank" class="text-stone-700 hover:text-stone-900 transition-colors">'',
          Lit ''<nostr-name pubkey="'',
          Esc (hex_of (dg_by d)),
          Lit ''"></nostr-name></a></div>'']) @
    [Lit ''</div>'']\<close>

definition role_badge :: "role \<Rightarrow> seg list" where \<open>
  role_badge r =
    [Lit ''<span class="inline-flex items-center px-2 py-0.5 rounded-full text-xs font-medium '',
     Lit ''bg-amber-100 text-amber-800 mr-1">'',
     Esc (role_name r), Lit ''</span>'']\<close>

definition member_row :: "group \<Rightarrow> pubkey \<Rightarrow> seg list" where \<open>
  member_row g pk =
    [Lit ''<tr class="hover:bg-stone-50 transition-colors"><td class="px-6 py-4"><a href="'',
     Url (profile_url pk),
     Lit ''" target="_blank" class="text-sm text-stone-700 hover:text-stone-900 '',
     Lit ''transition-colors"><nostr-name pubkey="'',
     Esc (hex_of pk),
     Lit ''"></nostr-name></a><br><span class="text-xs text-stone-400 font-mono">'',
     Esc (hex_of pk),
     Lit ''</span></td><td class="px-6 py-4">''] @
    (if member_roles g pk \<noteq> [] then concat (map role_badge (member_roles g pk))
     else
       [Lit ''<span class="inline-flex items-center px-2 py-0.5 rounded-full text-xs font-medium '',
        Lit ''bg-stone-100 text-stone-600">member</span>'']) @
    [Lit ''</td></tr>'']\<close>

definition group_stats :: "group \<Rightarrow> pubkey list \<Rightarrow> int \<Rightarrow> string \<Rightarrow> seg list" where \<open>
  group_stats g members events last_event =
    [Lit ''<div class="grid grid-cols-1 sm:grid-cols-3 gap-4 my-8"><div class="bg-white '',
     Lit ''rounded-xl shadow-sm border border-stone-200 p-4 text-center"><div class="text-2xl '',
     Lit ''font-bold text-amber-600 h-8">'',
     Esc (itoa (length members)),
     Lit ''</div><div class="text-sm text-stone-500">Members</div></div><div class="bg-white '',
     Lit ''rounded-xl shadow-sm border border-stone-200 p-4 text-center"><div class="text-2xl '',
     Lit ''font-bold text-amber-600 h-8">'',
     Esc (int_text events),
     Lit ''</div><div class="text-sm text-stone-500">Events</div></div><div class="bg-white '',
     Lit ''rounded-xl shadow-sm border border-stone-200 p-4 text-center"><div class="text-sm '',
     Lit ''font-semibold text-amber-500 h-8 flex items-center justify-center">'',
     Esc last_event,
     Lit ''</div><div class="text-sm text-stone-500">Last Event</div></div></div><div '',
     Lit ''class="bg-white rounded-xl shadow-sm border border-stone-200 overflow-hidden mb-8">'',
     Lit ''<div class="px-6 py-4 border-b border-stone-100"><h2 class="text-lg font-semibold '',
     Lit ''text-stone-800">Members</h2></div><div class="overflow-x-auto"><table '',
     Lit ''class="w-full"><thead class="bg-stone-50"><tr><th class="px-6 py-3 text-left text-xs'',
     Lit '' font-medium text-stone-500 uppercase tracking-wider">Member</th><th class="px-6 '',
     Lit ''py-3 text-left text-xs font-medium text-stone-500 uppercase tracking-wider">Roles'',
     Lit ''</th></tr></thead> <tbody class="divide-y divide-stone-100">''] @
    concat (map (member_row g) members) @
    [Lit ''</tbody></table></div></div>'']\<close>

definition group_visit :: "string \<Rightarrow> string \<Rightarrow> seg list" where \<open>
  group_visit address naddr =
    [Lit ''<div class="bg-white rounded-xl shadow-sm border border-stone-200 p-6"><h2 '',
     Lit ''class="text-lg font-semibold text-stone-800 mb-4">Visit</h2><p class="text-xs '',
     Lit ''text-stone-400 mb-4 font-mono">'',
     Esc address,
     Lit ''</p><div class="flex flex-wrap flex gap-4 mb-4"><a href="'',
     Esc (''nostr:'' @ naddr),
     Lit ''" target="_blank" class="px-3 py-2 rounded-lg text-sm font-medium bg-stone-100 '',
     Lit ''text-stone-700 hover:bg-stone-200 transition-colors">native</a> <a href="'',
     Url (''https://web.nostrord.com/'' @ naddr),
     Lit ''" target="_blank" class="px-3 py-2 rounded-lg text-sm font-medium bg-stone-100 '',
     Lit ''text-stone-700 hover:bg-stone-200 transition-colors">nostrord</a> <a href="'',
     Url (''https://grimoire.rocks/run?cmd=chat%20'' @ naddr),
     Lit ''" target="_blank" class="px-3 py-2 rounded-lg text-sm font-medium bg-stone-100 '',
     Lit ''text-stone-700 hover:bg-stone-200 transition-colors">grimoire.rocks</a> <a href="'',
     Url (''https://app.flotilla.social/'' @ naddr),
     Lit ''" target="_blank" class="px-3 py-2 rounded-lg text-sm font-medium bg-stone-100 '',
     Lit ''text-stone-700 hover:bg-stone-200 transition-colors">flotilla.social</a> <a href="'',
     Url (''https://chachi.chat/'' @ naddr),
     Lit ''" target="_blank" class="px-3 py-2 rounded-lg text-sm font-medium bg-stone-100 '',
     Lit ''text-stone-700 hover:bg-stone-200 transition-colors">chachi.chat</a></div></div>'']\<close>

definition group_danger :: "string \<Rightarrow> seg list" where \<open>
  group_danger gid =
    [Lit ''<div class="bg-white rounded-xl shadow-sm border border-red-200 p-6"><h2 '',
     Lit ''class="text-lg font-semibold text-stone-800">Danger Zone</h2><p class="text-sm '',
     Lit ''text-stone-600 mt-2">Delete this group, members, and all events. This cannot be '',
     Lit ''undone.</p><form method="POST" action="'',
     Url (group_url gid @ ''/wipeout''),
     Lit (''" onsubmit="return confirm('' @ [CHR 39] @ ''This will delete this group and all its events. ''),
     Lit (''Continue?'' @ [CHR 39] @ '');" class="mt-4"><button type="submit" class="cursor-pointer w-full ''),
     Lit ''sm:w-auto px-6 py-2.5 bg-red-600 text-white rounded-lg text-sm font-medium '',
     Lit ''hover:bg-red-700 transition-colors duration-150 shadow-sm">Wipe Group</button>'',
     Lit ''</form></div>'']\<close>

text \<open>
  \<open>address\<close> is what \<open>Address.String()\<close> gives. The link with the scheme \<open>nostr\<close> is a \<open>SafeURL\<close> of its
  own and is not sanitised.
\<close>

definition group_page ::
  "settings \<Rightarrow> pubkey \<Rightarrow> group \<Rightarrow> deleted_group option \<Rightarrow> pubkey list \<Rightarrow> int \<Rightarrow> string \<Rightarrow> string \<Rightarrow>
     string \<Rightarrow> seg list" where \<open>
  group_page st logged g dg members events last_event naddr address =
    layout st logged (g_name g)
      (group_identity g @ group_flags dg g @ group_deleted_by dg @
       (if dg = None \<and> \<not> g_private g then group_stats g members events last_event else []) @
       [Lit '' ''] @
       (if dg = None then group_visit address naddr else []) @
       [Lit '' ''] @
       (if dg = None \<and> logged = st_owner_pub_key st then group_danger (g_id g) else []))\<close>

end
