(* ===== verification/Web.thy ===== *)
theory Web
  imports Settings Text
begin

text \<open>
  What the owner does over HTTP (\<^verbatim>\<open>global/auth.go\<close>, \<^verbatim>\<open>global/settings.go\<close>, \<^verbatim>\<open>global/init.go\<close>): logging
  in with a signed event in a cookie, loading the settings at start, and changing them with a form.
  Parsing JSON, checking a signature, NIP-19 codes and the file system are parameters.
\<close>

subsection \<open>Login\<close>

record web_outside =
  wo_event_json :: "string \<Rightarrow> event option"
  wo_verify :: "event \<Rightarrow> bool"
  wo_valid :: "pubkey \<Rightarrow> bool"
  wo_nip19 :: "string \<Rightarrow> (string \<times> pubkey) option"

text \<open>\<open>GetLoggedUser\<close>: the cookie's value if the request has one, and the \<open>Host\<close> of the request.\<close>

definition get_logged_user :: "web_outside \<Rightarrow> env \<Rightarrow> string \<Rightarrow> string option \<Rightarrow> pubkey option" where
  "get_logged_user w en host cookie =
     (case cookie of
        None \<Rightarrow> None
      | Some v \<Rightarrow>
          if v = [] then None
          else case b64_decode v of
                 None \<Rightarrow> None
               | Some json \<Rightarrow>
                   (case wo_event_json w json of
                      None \<Rightarrow> None
                    | Some e \<Rightarrow>
                        if ev_kind e \<noteq> 27235 then None
                        else case tags_find (ev_tags e) ''domain'' of
                               None \<Rightarrow> None
                             | Some t \<Rightarrow>
                                 if length t < 2 then None
                                 else if t ! 1 \<noteq> (if en_domain en = [] then host else en_domain en) then None
                                 else if \<not> wo_verify w e then None
                                 else Some (ev_pubkey e)))"

text \<open>\<open>pubKeyFromInput\<close>: an npub or nprofile code, or hexadecimal.\<close>

definition pub_key_from_input :: "web_outside \<Rightarrow> string \<Rightarrow> pubkey option" where
  "pub_key_from_input w input =
     (let s = trim_space input
      in if s = [] then None
         else case wo_nip19 w s of
                Some (prefix, pk) \<Rightarrow>
                  if prefix = ''npub'' \<or> prefix = ''nprofile'' then Some pk
                  else pubkey_from_hex (wo_valid w) s
              | None \<Rightarrow> pubkey_from_hex (wo_valid w) s)"

subsection \<open>Loading\<close>

datatype read_result = ReadMissing | ReadFailed | ReadData string

datatype load_error = MkdirFailed | ReadSettingsFailed | ParseFailed | SaveFailed

text \<open>
  \<open>loadSettings\<close> and \<open>save\<close>. \<open>parse\<close> is \<open>json.Unmarshal\<close>, \<open>writes\<close> says whether writing some settings
  succeeds, \<open>sk\<close> is the key \<open>Generate\<close> would give. The second component lists the settings written.
\<close>

definition default_local_path :: string where
  "default_local_path = ''blossom-files''"

definition with_local_path :: "settings \<Rightarrow> settings" where
  "with_local_path s = s\<lparr>st_blossom := (st_blossom s)\<lparr>bl_local_path := default_local_path\<rparr>\<rparr>"

definition load_settings ::
  "bool \<Rightarrow> read_result \<Rightarrow> (string \<Rightarrow> settings option) \<Rightarrow> (settings \<Rightarrow> bool) \<Rightarrow> seckey \<Rightarrow>
     (load_error + settings) \<times> settings list" where
  "load_settings mkdir_ok read parse writes sk =
     (if \<not> mkdir_ok then (Inl MkdirFailed, [])
      else case read of
             ReadFailed \<Rightarrow> (Inl ReadSettingsFailed, [])
           | ReadMissing \<Rightarrow>
               let s = default_settings sk
               in if writes s then (Inr s, [s]) else (Inl SaveFailed, [])
           | ReadData d \<Rightarrow>
               (case parse d of
                  None \<Rightarrow> (Inl ParseFailed, [])
                | Some s0 \<Rightarrow>
                    let s1 = (if st_relay_secret_key s0 = 0 then s0\<lparr>st_relay_secret_key := sk\<rparr> else s0);
                        w1 = (if st_relay_secret_key s0 = 0 then [s1] else [])
                    in if w1 \<noteq> [] \<and> \<not> writes s1 then (Inl SaveFailed, [])
                       else if bl_local_path (st_blossom s1) = [] then
                         let s2 = with_local_path s1
                         in if writes s2 then (Inr s2, w1 @ [s2]) else (Inl SaveFailed, w1)
                       else (Inr s1, w1)))"

text \<open>
  \<open>Init\<close> ends the process on an error; else it gives the settings, with the owner, and the limiter.
\<close>

definition init_global ::
  "web_outside \<Rightarrow> crypto \<Rightarrow> env \<Rightarrow> load_error + settings \<Rightarrow> (settings \<times> limiter option) option" where
  "init_global w c en loaded =
     (case loaded of
        Inl _ \<Rightarrow> None
      | Inr s0 \<Rightarrow>
          (case (if en_owner_public_key en = [] then Some (cr_public c (st_relay_secret_key s0))
                 else pub_key_from_input w (en_owner_public_key en)) of
             None \<Rightarrow> None
           | Some pk \<Rightarrow>
               let s = s0\<lparr>st_owner_pub_key := pk\<rparr>
               in Some (s, configure_group_create_rate_limit s)))"

subsection \<open>The settings form\<close>

type_synonym form = "string \<Rightarrow> string"

definition form_value :: "form \<Rightarrow> string \<Rightarrow> string" where
  "form_value f field = trim_space (f field)"

definition parse_csv :: "string \<Rightarrow> string list" where
  "parse_csv v =
     (let s = trim_space v
      in if s = [] then [] else filter (\<lambda>p. p \<noteq> []) (map trim_space (split_at (CHR '','') s)))"

definition parse_int :: "form \<Rightarrow> string \<Rightarrow> int \<Rightarrow> int option" where
  "parse_int f field current =
     (let v = form_value f field
      in if v = [] then Some current
         else case atoi v of
                None \<Rightarrow> None
              | Some n \<Rightarrow> if n < 0 then None else Some n)"

text \<open>The three numbers are read in this order; the first that is invalid is named in the answer.\<close>

definition parse_rate_limit :: "form \<Rightarrow> rate_limit_config \<Rightarrow> string + rate_limit_config" where
  "parse_rate_limit f cfg =
     (case parse_int f ''group_create_rate_tokens_per_interval'' (rl_tokens_per_interval cfg) of
        None \<Rightarrow> Inl ''group_create_rate_tokens_per_interval''
      | Some t \<Rightarrow>
     (case parse_int f ''group_create_rate_interval_seconds'' (rl_interval_seconds cfg) of
        None \<Rightarrow> Inl ''group_create_rate_interval_seconds''
      | Some i \<Rightarrow>
     (case parse_int f ''group_create_rate_max_tokens'' (rl_max_tokens cfg) of
        None \<Rightarrow> Inl ''group_create_rate_max_tokens''
      | Some m \<Rightarrow> Inr \<lparr>rl_tokens_per_interval = t, rl_interval_seconds = i, rl_max_tokens = m\<rparr>)))"

definition form_blossom :: "form \<Rightarrow> blossom_settings" where
  "form_blossom f =
     \<lparr>bl_enabled = (f ''blossom_enabled'' = ''true''),
      bl_s3_endpoint = form_value f ''blossom_s3_endpoint'',
      bl_s3_key_id = form_value f ''blossom_s3_key_id'',
      bl_s3_secret = form_value f ''blossom_s3_secret'',
      bl_s3_bucket = form_value f ''blossom_s3_bucket'',
      bl_s3_redirect_base_url = form_value f ''blossom_s3_redirect_base_url'',
      bl_local_path = (let p = form_value f ''blossom_local_path''
                       in if p = [] then default_local_path else p)\<rparr>"

definition updated_settings :: "form \<Rightarrow> settings \<Rightarrow> string + settings" where
  "updated_settings f s =
     (case parse_rate_limit f (gc_create_rate_limit (st_groups s)) of
        Inl field \<Rightarrow> Inl field
      | Inr cfg \<Rightarrow>
          Inr (s\<lparr>st_relay_name := form_value f ''relay_name'',
                 st_relay_description := form_value f ''relay_description'',
                 st_relay_contact := form_value f ''relay_contact'',
                 st_relay_icon := form_value f ''relay_icon'',
                 st_groups := (st_groups s)\<lparr>gc_create_rate_limit := cfg,
                   gc_create_presence_relays := parse_csv (f ''create_group_presence_relays''),
                   gc_transit_presence_relays := parse_csv (f ''free_transit_presence_relays'')\<rparr>,
                 st_gift_wraps := \<lparr>gw_enabled = (f ''gift_wraps_enabled'' = ''true''),
                   gw_presence_relays = parse_csv (f ''gift_wraps_sender_presence_relays'')\<rparr>,
                 st_blossom := form_blossom f\<rparr>))"

datatype settings_response =
  SrUnauthorized | SrInvalidForm | SrInvalidField string | SrSaveFailed | SrResetFailed | SrRedirect

record global_state =
  gl_settings :: settings
  gl_limiter :: "limiter option"

text \<open>
  \<open>SettingsHandler\<close>: \<open>form\<close> is the parsed form, if it parses; \<open>reset\<close> is \<open>ResetRelay\<close>, if it is set,
  with what it answers for the new settings.
\<close>

definition settings_handler ::
  "(settings \<Rightarrow> bool) \<Rightarrow> (settings \<Rightarrow> bool) option \<Rightarrow> pubkey option \<Rightarrow> form option \<Rightarrow> global_state \<Rightarrow>
     settings_response \<times> global_state" where
  "settings_handler writes reset logged form g =
     (if logged \<noteq> Some (st_owner_pub_key (gl_settings g)) then (SrUnauthorized, g)
      else case form of
             None \<Rightarrow> (SrInvalidForm, g)
           | Some f \<Rightarrow>
               (case updated_settings f (gl_settings g) of
                  Inl field \<Rightarrow> (SrInvalidField field, g)
                | Inr s \<Rightarrow>
                    if \<not> writes s then (SrSaveFailed, g)
                    else
                      (case reset of
                         None \<Rightarrow> SrRedirect
                       | Some r \<Rightarrow> if r s then SrRedirect else SrResetFailed,
                       g\<lparr>gl_settings := s, gl_limiter := configure_group_create_rate_limit s\<rparr>)))"

subsection \<open>Comma-separated fields\<close>

lemma join_snoc:
  "join_with sep (xs @ [y]) = (if xs = [] then y else join_with sep xs @ sep @ y)"
  by (induction xs rule: induct_list012) simp_all

definition csv_part :: "string \<Rightarrow> bool" where
  "csv_part x \<longleftrightarrow> clean x \<and> x \<noteq> [] \<and> CHR '','' \<notin> set x"

lemma clean_join:
  assumes "xs \<noteq> []" "\<And>x. x \<in> set xs \<Longrightarrow> csv_part x"
  shows "clean (join_with '','' xs)"
  unfolding clean_def
proof
  obtain x r where x: "xs = x # r" using assms(1) by (cases xs) auto
  with assms(2) have px: "clean_left spaces x" "x \<noteq> []" by (auto simp: csv_part_def clean_def)
  show "clean_left spaces (join_with '','' xs)"
  proof (cases r)
    case Nil
    with px x show ?thesis by simp
  next
    case (Cons y ys)
    with x clean_left_before [OF px spaces_no_comma] show ?thesis by simp
  qed
  obtain r' y where y: "xs = r' @ [y]" using assms(1) by (cases xs rule: rev_cases) auto
  with assms(2) have py: "clean_left (map rev spaces) (rev y)" "rev y \<noteq> []"
    by (auto simp: csv_part_def clean_def)
  have nc: "CHR '','' \<notin> set p" if "p \<in> set (map rev spaces)" for p
    using that spaces_no_comma by auto
  show "clean_left (map rev spaces) (rev (join_with '','' xs))"
    using py clean_left_before [OF py nc, of "rev (join_with '','' r')"]
    by (simp add: y join_snoc)
qed

lemma parse_csv_parts: "x \<in> set (parse_csv v) \<Longrightarrow> csv_part x"
  using trim_space_sublist
  by (fastforce simp: parse_csv_def csv_part_def Let_def trim_space_clean dest: split_at_parts split: if_splits)

lemma clean_join_space:
  assumes "\<And>x. x \<in> set (y # ys) \<Longrightarrow> csv_part x"
  shows "clean (join_with '', '' (y # ys))"
  unfolding clean_def
proof
  have py: "clean_left spaces y" "y \<noteq> []" using assms by (auto simp: csv_part_def clean_def)
  show "clean_left spaces (join_with '', '' (y # ys))"
  proof (cases ys)
    case Nil
    with py show ?thesis by simp
  next
    case (Cons z zs)
    have "clean_left spaces (y @ CHR '','' # '' '' @ join_with '', '' (z # zs))"
      by (rule clean_left_before [OF py]) (use spaces_no_comma in blast)
    with Cons show ?thesis by simp
  qed
  obtain xs z where z: "y # ys = xs @ [z]" by (metis list.distinct(1) rev_exhaust)
  with assms have pz: "clean_left (map rev spaces) (rev z)" "rev z \<noteq> []"
    by (auto simp: csv_part_def clean_def)
  have nc: "CHR '' '' \<notin> set p" if "p \<in> set (map rev spaces)" "2 \<le> length p" for p
    using that wide_spaces by fastforce
  show "clean_left (map rev spaces) (rev (join_with '', '' (y # ys)))"
    using pz clean_left_before [OF pz nc, of "CHR '','' # rev (join_with '', '' xs)"]
    by (simp add: z join_snoc)
qed

lemma parse_csv_spaced:
  assumes "list_all csv_part xs"
  shows "parse_csv (join_with '', '' xs) = xs"
proof (cases xs)
  case Nil
  then show ?thesis by (simp add: parse_csv_def)
next
  case (Cons y ys)
  have p: "csv_part x" if "x \<in> set (y # ys)" for x using that assms Cons by (auto simp: list_all_iff)
  have s: "trim_space (join_with '', '' (y # ys)) = join_with '', '' (y # ys)"
    by (rule trim_space_id [OF clean_join_space]) (rule p)
  have ne: "join_with '', '' (y # ys) \<noteq> []" using p [of y] by (cases ys) (auto simp: csv_part_def)
  have sp: "split_at (CHR '','') (join_with '', '' (y # ys)) = y # map (\<lambda>x. CHR '' '' # x) ys"
    by (rule split_at_join_space) (use p in \<open>simp add: csv_part_def\<close>)
  have "trim_space y = y" using p [of y] by (simp add: csv_part_def trim_space_id)
  moreover have "map (\<lambda>x. trim_space (CHR '' '' # x)) ys = ys"
    by (rule map_idI) (use p in \<open>simp add: csv_part_def trim_one_space\<close>)
  moreover have "filter (\<lambda>x. x \<noteq> []) (y # ys) = y # ys"
    unfolding filter_id_conv using p by (simp add: csv_part_def)
  ultimately show ?thesis by (simp add: parse_csv_def s ne sp Cons comp_def)
qed

text \<open>
  A list of relays survives the settings form: the comma-separated text of a list of trimmed,
  non-empty entries without commas parses back to that list.
\<close>

theorem csv_round_trip:
  assumes "\<forall>x \<in> set xs. csv_part x"
  shows "parse_csv (join_with '','' xs) = xs"
proof (cases "xs = []")
  case True
  then show ?thesis by (simp add: parse_csv_def trim_space_def trim_left_def)
next
  case False
  let ?s = "join_with '','' xs"
  have s: "trim_space ?s = ?s"
    by (rule trim_space_id [OF clean_join [OF False]]) (use assms in blast)
  have "?s \<noteq> []"
  proof (cases xs)
    case (Cons x r)
    with assms show ?thesis by (cases r) (auto simp: csv_part_def)
  qed (use False in simp)
  moreover have "split_at (CHR '','') ?s = xs"
    by (rule split_at_join [OF False]) (use assms in \<open>simp add: csv_part_def\<close>)
  moreover have "map trim_space xs = xs"
    by (rule map_idI) (use assms trim_space_id in \<open>simp add: csv_part_def\<close>)
  moreover have "filter (\<lambda>p. p \<noteq> []) xs = xs"
    using assms by (simp add: filter_id_conv csv_part_def)
  ultimately show ?thesis by (simp add: parse_csv_def s)
qed

theorem csv_round_trip_witness:
  "parse_csv ''wss://a.b,wss://c'' = [''wss://a.b'', ''wss://c'']"
proof -
  have "list_all (\<lambda>x. csv_part x) [''wss://a.b'', ''wss://c'']"
    by (simp add: csv_part_def clean_visible visible_def)
  then have "\<forall>x \<in> set [''wss://a.b'', ''wss://c'']. csv_part x" by (simp add: list_all_iff)
  from csv_round_trip [OF this] show ?thesis by simp
qed

subsection \<open>Who may change the settings, and to what\<close>

lemma get_logged_user_Some:
  assumes "get_logged_user w en host cookie = Some pk"
  shows "\<exists>v json e. cookie = Some v \<and> b64_decode v = Some json \<and> wo_event_json w json = Some e \<and>
    ev_kind e = 27235 \<and> wo_verify w e \<and> ev_pubkey e = pk \<and>
    (\<exists>t. tags_find (ev_tags e) ''domain'' = Some t \<and>
       t ! 1 = (if en_domain en = [] then host else en_domain en))"
  using assms by (auto simp: get_logged_user_def split: option.splits if_splits)

lemma settings_handler_cases:
  assumes "settings_handler writes reset logged form g = (r, g')"
  obtains "g' = g" "r \<notin> {SrRedirect, SrResetFailed}"
    | f s' where "logged = Some (st_owner_pub_key (gl_settings g))" "form = Some f"
      "updated_settings f (gl_settings g) = Inr s'" "writes s'" "r \<in> {SrRedirect, SrResetFailed}"
      "gl_settings g' = s'" "gl_limiter g' = configure_group_create_rate_limit s'"
proof (cases "logged = Some (st_owner_pub_key (gl_settings g))")
  case False
  with assms that(1) show ?thesis by (simp add: settings_handler_def)
next
  case log: True
  show ?thesis
  proof (cases form)
    case None
    with log assms that(1) show ?thesis by (simp add: settings_handler_def)
  next
    case (Some f)
    show ?thesis
    proof (cases "updated_settings f (gl_settings g)")
      case (Inl x)
      with log Some assms that(1) show ?thesis by (auto simp: settings_handler_def)
    next
      case (Inr s')
      show ?thesis
      proof (cases "writes s'")
        case False
        with log Some Inr assms that(1) show ?thesis by (simp add: settings_handler_def)
      next
        case True
        with log Some Inr assms have e:
          "r = (case reset of None \<Rightarrow> SrRedirect | Some r \<Rightarrow> if r s' then SrRedirect else SrResetFailed)"
          "gl_settings g' = s'" "gl_limiter g' = configure_group_create_rate_limit s'"
          by (auto simp: settings_handler_def)
        have "r \<in> {SrRedirect, SrResetFailed}" by (simp add: e(1) split: option.split)
        from that(2) [OF log Some Inr True this e(2,3)] show ?thesis .
      qed
    qed
  qed
qed

text \<open>
  C30. The settings change only for the owner: if a request changes them, its cookie holds an event
  of kind 27235 with a valid signature by the owner's key, made for the domain of this relay.
\<close>

theorem settings_need_owner_login:
  assumes "settings_handler writes reset (get_logged_user w en host cookie) form g = (r, g')" "g' \<noteq> g"
  shows "\<exists>v json e t. cookie = Some v \<and> b64_decode v = Some json \<and> wo_event_json w json = Some e \<and>
    ev_kind e = 27235 \<and> wo_verify w e \<and> ev_pubkey e = st_owner_pub_key (gl_settings g) \<and>
    tags_find (ev_tags e) ''domain'' = Some t \<and> t ! 1 = (if en_domain en = [] then host else en_domain en)"
proof -
  have "get_logged_user w en host cookie = Some (st_owner_pub_key (gl_settings g))"
    using assms(2) by (cases rule: settings_handler_cases [OF assms(1)]) simp_all
  from get_logged_user_Some [OF this] show ?thesis by blast
qed

lemma parse_int_range:
  "parse_int f field cur = Some n \<Longrightarrow> 0 \<le> cur \<Longrightarrow> in_int64 cur \<Longrightarrow> 0 \<le> n \<and> in_int64 n"
  by (auto simp: parse_int_def Let_def atoi_in_range split: option.splits if_splits)

definition rates_ok :: "rate_limit_config \<Rightarrow> bool" where
  "rates_ok c \<longleftrightarrow> (\<forall>n \<in> {rl_tokens_per_interval c, rl_interval_seconds c, rl_max_tokens c}. 0 \<le> n \<and> in_int64 n)"

lemma parse_rate_limit_ok: "parse_rate_limit f c = Inr c' \<Longrightarrow> rates_ok c \<Longrightarrow> rates_ok c'"
  by (auto simp: parse_rate_limit_def rates_ok_def dest: parse_int_range split: option.splits)

text \<open>
  A change of the settings is all or nothing: either the request is refused and nothing
  changes, or the form's values are in force, the keys, the owner and the LiveKit account are as
  before, the three rates are non-negative 64-bit numbers, every relay entry is trimmed, not empty
  and without commas, and the limiter is the one these settings describe.
\<close>

theorem settings_update_whole:
  assumes "settings_handler writes reset logged form g = (r, g')"
    and "rates_ok (gc_create_rate_limit (st_groups (gl_settings g)))"
  shows "if r = SrRedirect \<or> r = SrResetFailed then
      (let s = gl_settings g; s' = gl_settings g'; gc = st_groups s'
       in writes s' \<and> st_relay_secret_key s' = st_relay_secret_key s \<and>
          st_owner_pub_key s' = st_owner_pub_key s \<and> logged = Some (st_owner_pub_key s) \<and>
          gc_livekit_api_secret gc = gc_livekit_api_secret (st_groups s) \<and>
          rates_ok (gc_create_rate_limit gc) \<and>
          list_all csv_part (gc_create_presence_relays gc @ gc_transit_presence_relays gc @
            gw_presence_relays (st_gift_wraps s')) \<and>
          bl_local_path (st_blossom s') \<noteq> [] \<and>
          gl_limiter g' = configure_group_create_rate_limit s')
    else g' = g"
proof (cases rule: settings_handler_cases [OF assms(1)])
  case 1
  then show ?thesis by auto
next
  case (2 f s')
  from 2(3) obtain c where c: "parse_rate_limit f (gc_create_rate_limit (st_groups (gl_settings g))) = Inr c"
    by (auto simp: updated_settings_def split: sum.splits)
  have "rates_ok c" by (rule parse_rate_limit_ok [OF c assms(2)])
  moreover have "bl_local_path (form_blossom f) \<noteq> []"
    by (simp add: form_blossom_def Let_def default_local_path_def)
  moreover have "list_all csv_part (parse_csv a @ parse_csv b @ parse_csv d)" for a b d
    using parse_csv_parts by (auto simp: list_all_iff)
  moreover note 2(3) [unfolded updated_settings_def c sum.case, THEN sum.inject(2) [THEN iffD1, symmetric]]
  ultimately show ?thesis using 2(1,4-7) by (simp add: Let_def)
qed

text \<open>Settings as a form leaves them.\<close>

definition settings_tidy :: "settings \<Rightarrow> bool" where
  "settings_tidy s \<longleftrightarrow>
     rates_ok (gc_create_rate_limit (st_groups s)) \<and>
     list_all csv_part (gc_create_presence_relays (st_groups s) @
       gc_transit_presence_relays (st_groups s) @ gw_presence_relays (st_gift_wraps s)) \<and>
     list_all clean [st_relay_name s, st_relay_description s, st_relay_contact s, st_relay_icon s,
       bl_s3_endpoint (st_blossom s), bl_s3_key_id (st_blossom s), bl_s3_secret (st_blossom s),
       bl_s3_bucket (st_blossom s), bl_s3_redirect_base_url (st_blossom s), bl_local_path (st_blossom s)] \<and>
     bl_local_path (st_blossom s) \<noteq> []"

lemma updated_settings_tidy:
  assumes "updated_settings f s = Inr s'" "rates_ok (gc_create_rate_limit (st_groups s))"
  shows "settings_tidy s'"
proof -
  from assms(1) obtain c where c: "parse_rate_limit f (gc_create_rate_limit (st_groups s)) = Inr c"
    by (auto simp: updated_settings_def split: sum.splits)
  have "rates_ok c" by (rule parse_rate_limit_ok [OF c assms(2)])
  moreover have "clean default_local_path" "default_local_path \<noteq> []"
    by (simp_all add: default_local_path_def clean_visible visible_def)
  moreover have "list_all csv_part (parse_csv a @ parse_csv b @ parse_csv d)" for a b d
    using parse_csv_parts by (auto simp: list_all_iff)
  moreover note assms(1) [unfolded updated_settings_def c sum.case, THEN sum.inject(2) [THEN iffD1, symmetric]]
  ultimately show ?thesis
    by (simp add: settings_tidy_def form_blossom_def form_value_def trim_space_clean Let_def)
qed

lemma default_settings_tidy: "settings_tidy (default_settings sk)"
  by (simp add: settings_tidy_def default_settings_def rates_ok_def in_int64_def clean_visible visible_def)

text \<open>The owner, logged in with a cookie for this host, empties the form.\<close>

definition ex_login :: event where
  "ex_login = zero_event\<lparr>ev_pubkey := 9, ev_kind := 27235, ev_tags := [[''domain'', ''relay'']]\<rparr>"

definition ex_web :: web_outside where
  "ex_web = \<lparr>wo_event_json = (\<lambda>_. Some ex_login), wo_verify = (\<lambda>_. True), wo_valid = (\<lambda>_. True),
     wo_nip19 = (\<lambda>_. None)\<rparr>"

definition ex_env :: env where
  "ex_env = \<lparr>en_port = ''9888'', en_host = ''127.0.0.1'', en_domain = [], en_data_path = ''data'',
     en_owner_public_key = []\<rparr>"

definition ex_global :: global_state where
  "ex_global = \<lparr>gl_settings = (default_settings 7)\<lparr>st_owner_pub_key := 9\<rparr>, gl_limiter = None\<rparr>"

lemma ex_login_ok: "get_logged_user ex_web ex_env ''relay'' (Some ''AAAA'') = Some 9"
proof -
  have "b64_decode ''AAAA'' = Some (map char_of [0, 0, 0 :: nat])" by code_simp
  then show ?thesis by (simp add: get_logged_user_def ex_web_def ex_env_def ex_login_def)
qed

lemma ex_update:
  "\<exists>g'. settings_handler (\<lambda>_. True) None (Some 9) (Some (\<lambda>_. [])) ex_global = (SrRedirect, g') \<and>
     st_relay_name (gl_settings g') = []"
  by (simp add: settings_handler_def ex_global_def default_settings_def updated_settings_def
      parse_rate_limit_def parse_int_def form_value_def)

theorem settings_need_owner_login_witness:
  "\<exists>v json e. (Some ''AAAA'' = Some v \<and> b64_decode v = Some json \<and> wo_event_json ex_web json = Some e) \<and>
     wo_verify ex_web e \<and> ev_pubkey e = 9"
proof -
  obtain g' where g': "settings_handler (\<lambda>_. True) None (Some 9) (Some (\<lambda>_. [])) ex_global = (SrRedirect, g')"
      "st_relay_name (gl_settings g') = []" using ex_update by blast
  then have "g' \<noteq> ex_global" by (auto simp: ex_global_def default_settings_def)
  from settings_need_owner_login [OF g'(1) [folded ex_login_ok] this] show ?thesis
    by (auto simp: ex_global_def)
qed

theorem settings_update_whole_witness:
  "\<exists>g'. settings_handler (\<lambda>_. True) None (Some 9) (Some (\<lambda>_. [])) ex_global = (SrRedirect, g') \<and>
     st_relay_secret_key (gl_settings g') = 7"
proof -
  obtain g' where g': "settings_handler (\<lambda>_. True) None (Some 9) (Some (\<lambda>_. [])) ex_global = (SrRedirect, g')"
    using ex_update by blast
  have "rates_ok (gc_create_rate_limit (st_groups (gl_settings ex_global)))"
    by (simp add: rates_ok_def ex_global_def default_settings_def in_int64_def)
  from settings_update_whole [OF g' this] g' show ?thesis
    by (simp add: Let_def ex_global_def default_settings_def)
qed

end
