(* ===== verification/Site.thy ===== *)
theory Site
  imports Pages Web Examples
begin

text \<open>
  What the pages show and to whom. First the context each part of a page starts and ends in, so that
  every value stands in the text or in a quoted attribute; then the handler of a group's page, and what
  a visitor who is not the owner can learn. The last part posts the owner's form back as it was shown.
\<close>

named_theorems page_contexts \<open>the context a part of a page is read in, and the one it leaves\<close>

lemma html_scan_newline [simp]: "html_scan InText (newline_tabs n) = InText"
proof -
  have "html_scan InText (replicate n (CHR 0x09)) = InText" by (induction n) simp_all
  then show ?thesis by (simp add: newline_tabs_def)
qed

lemma html_scan_dots [simp]: "html_scan InDq password_dots = InDq"
  by code_simp

lemma placed_layout:
  assumes "placed InText children = Some InText"
  shows "placed InText (layout st logged title children) = Some InText"
  using assms by (simp add: layout_def placed_append)

lemma placed_home_stats [page_contexts]: "placed InText (home_stats a b c) = Some InText"
  by (simp add: home_stats_def)

lemma placed_form_identity [page_contexts]: "placed InText (form_identity st) = Some InDq"
  by (simp add: form_identity_def)

lemma placed_form_rate_limit [page_contexts]: "placed InDq (form_rate_limit cfg) = Some InDq"
  by (simp add: form_rate_limit_def)

lemma placed_form_presence [page_contexts]: "placed InDq (form_presence gc) = Some InDq"
  by (simp add: form_presence_def)

lemma placed_form_gift_wraps [page_contexts]: "placed InDq (form_gift_wraps gw) = Some InDq"
  by (simp add: form_gift_wraps_def)

lemma placed_form_blossom [page_contexts]: "placed InDq (form_blossom_fields bl) = Some InDq"
  by (simp add: form_blossom_fields_def)

lemma placed_form_s3 [page_contexts]: "placed InDq (form_s3_fields bl) = Some InText"
  by (simp add: form_s3_fields_def)

lemma placed_settings_form [page_contexts]: "placed InText (settings_form st) = Some InText"
  by (simp add: settings_form_def placed_append page_contexts)

lemma placed_home_description [page_contexts]: "placed InText (home_description st) = Some InText"
  by (simp add: home_description_def)

lemma placed_owner_link [page_contexts]: "placed InText (owner_link pk) = Some InText"
  by (simp add: owner_link_def)

lemma placed_home_flags [page_contexts]: "placed InText (home_flags g) = Some InText"
  by (simp add: home_flags_def)

lemma placed_group_row [page_contexts]: "placed InText (group_row members g) = Some InText"
  by (simp add: group_row_def placed_append placed_concat page_contexts)

lemma placed_home_groups [page_contexts]: "placed InText (home_groups st logged gs ord mords) = Some InText"
proof -
  have "placed InText (case gs gid of None \<Rightarrow> [] | Some g \<Rightarrow>
      if \<not> g_hidden g \<or> logged = st_owner_pub_key st then group_row (mords gid) g else []) = Some InText" for gid
    by (simp add: page_contexts split: option.split)
  then have "placed InText (concat (map (\<lambda>gid. case gs gid of None \<Rightarrow> [] | Some g \<Rightarrow>
      if \<not> g_hidden g \<or> logged = st_owner_pub_key st then group_row (mords gid) g else []) ord)) = Some InText"
    by (rule placed_concat)
  then show ?thesis by (simp add: home_groups_def placed_append)
qed

lemma placed_deleted_row [page_contexts]: "placed InText (deleted_row dg) = Some InText"
  by (simp add: deleted_row_def)

lemma placed_home_deleted [page_contexts]: "placed InText (home_deleted st logged deleted) = Some InText"
  by (simp add: home_deleted_def placed_append placed_concat page_contexts)

lemma placed_login_script [page_contexts]: "placed InText login_script = Some InText"
  by (simp add: login_script_def)

lemma placed_home [page_contexts]: "placed InText (home st logged stats gs ord mords deleted) = Some InText"
  unfolding home_def
  by (rule placed_layout) (simp add: placed_append page_contexts)

lemma placed_group_identity [page_contexts]: "placed InText (group_identity g) = Some InText"
  by (simp add: group_identity_def)

lemma placed_group_flags [page_contexts]: "placed InText (group_flags dg g) = Some InText"
  by (simp add: group_flags_def)

lemma placed_group_deleted_by [page_contexts]: "placed InText (group_deleted_by dg) = Some InText"
  by (simp add: group_deleted_by_def split: option.split)

lemma placed_role_badge [page_contexts]: "placed InText (role_badge r) = Some InText"
  by (simp add: role_badge_def)

lemma placed_member_row [page_contexts]: "placed InText (member_row g pk) = Some InText"
  by (simp add: member_row_def placed_append placed_concat page_contexts)

lemma placed_group_stats [page_contexts]: "placed InText (group_stats g members events last_event) = Some InText"
  by (simp add: group_stats_def placed_append placed_concat page_contexts)

lemma placed_group_visit [page_contexts]: "placed InText (group_visit address naddr) = Some InText"
  by (simp add: group_visit_def)

lemma placed_group_danger [page_contexts]: "placed InText (group_danger gid) = Some InText"
  by (simp add: group_danger_def)

lemma placed_group_page [page_contexts]:
  "placed InText (group_page st logged g dg members events last_event naddr address) = Some InText"
  unfolding group_page_def
  by (rule placed_layout) (simp add: placed_append page_contexts)

subsection \<open>The page of a group\<close>

text \<open>
  Beyond the program: \<open>EncodeNaddr\<close>, the format of a time, and the host of a URL, if it parses.
\<close>

record page_outside =
  po_naddr :: "pubkey \<Rightarrow> string \<Rightarrow> string \<Rightarrow> string"
  po_time :: "timestamp \<Rightarrow> string"
  po_host :: "string \<Rightarrow> string option"

datatype page_response = PageNotFound | PageServed "seg list" | PagePanicked

text \<open>
  The second half of \<open>groupHandler\<close>. \<open>Address.String()\<close> dereferences what \<open>url.Parse\<close> gave, which
  is nil for an address that does not parse.
\<close>

definition serve_group ::
  "'d store_ops \<Rightarrow> crypto \<Rightarrow> page_outside \<Rightarrow> settings \<Rightarrow> pubkey \<Rightarrow> pubkey list \<Rightarrow> group \<Rightarrow>
     deleted_group option \<Rightarrow> 'd \<Rightarrow> page_response" where
  "serve_group ops c po st logged members g dg db =
     (let shown = (dg = None \<and> \<not> g_private g);
          events = (if shown then int (unat (snd (so_count ops (h_filter (g_id g)) db))) else - 1);
          last_event = (if shown then
                     (case so_query ops ((h_filter (g_id g))\<lparr>f_limit := 1\<rparr>) 1 db of
                        [] \<Rightarrow> [] | e # _ \<Rightarrow> po_time po (ev_created_at e))
                   else []);
          relay = addr_relay (g_address g);
          naddr = po_naddr po (cr_public c (st_relay_secret_key st)) (g_id g) relay;
          page = group_page st logged g dg members events last_event naddr
      in if dg \<noteq> None then PageServed (page [])
         else case po_host po relay of
                None \<Rightarrow> PagePanicked
              | Some h \<Rightarrow> PageServed (page (h @ [CHR 39] @ g_id g)))"

text \<open>\<open>logged\<close> is the key in the request's context, zero for a visitor who is not logged in.\<close>

definition group_handler ::
  "'d store_ops \<Rightarrow> crypto \<Rightarrow> page_outside \<Rightarrow> settings \<Rightarrow> pubkey \<Rightarrow> pubkey list \<Rightarrow> string \<Rightarrow>
     'd groups_state \<Rightarrow> page_response" where
  "group_handler ops c po st logged members gid s =
     (case gs_groups s gid of
        None \<Rightarrow>
          if logged \<noteq> st_owner_pub_key st then PageNotFound
          else (case load_deleted_group_state ops (cr_valid c) gid s of
                  None \<Rightarrow> PageNotFound
                | Some (g, dg) \<Rightarrow> serve_group ops c po st logged members g (Some dg) (gs_db s))
      | Some g \<Rightarrow>
          if g_hidden g then PageNotFound
          else serve_group ops c po st logged members g None (gs_db s))"

subsection \<open>What the pages show\<close>

text \<open>
  C32. No value can add markup to a page: whatever the settings, the groups, the members and their
  roles are, the tags, attribute names and quotes of the home page and of a group's page are those of
  the page with every value left out, and the page ends in its text.
\<close>

theorem pages_inject_no_markup:
  "markup InText (render (home st logged stats gs ord mords deleted)) =
     markup InText (render (map blank (home st logged stats gs ord mords deleted))) \<and>
   html_scan InText (render (home st logged stats gs ord mords deleted)) = InText \<and>
   markup InText (render (group_page st logged g dg members events last_event naddr address)) =
     markup InText (render (map blank (group_page st logged g dg members events last_event naddr address))) \<and>
   html_scan InText (render (group_page st logged g dg members events last_event naddr address)) = InText"
  using placed_markup [OF placed_home] placed_markup [OF placed_group_page] by blast

text \<open>Two maps of groups that differ in hidden groups only.\<close>

definition same_but_hidden :: "groups \<Rightarrow> groups \<Rightarrow> bool" where
  "same_but_hidden gs gs' \<longleftrightarrow>
     (\<forall>gid. gs gid = gs' gid \<or>
        (\<exists>g g'. gs gid = Some g \<and> gs' gid = Some g' \<and> g_hidden g \<and> g_hidden g'))"

lemma home_groups_visitor:
  assumes "same_but_hidden gs gs'" "logged \<noteq> st_owner_pub_key st" "logged \<noteq> st_owner_pub_key st'"
    and "\<And>gid g. gs gid = Some g \<Longrightarrow> \<not> g_hidden g \<Longrightarrow> mords gid = mords' gid"
  shows "home_groups st logged gs ord mords = home_groups st' logged gs' ord mords'"
proof -
  have "(case gs gid of None \<Rightarrow> [] | Some g \<Rightarrow>
           if \<not> g_hidden g \<or> logged = st_owner_pub_key st then group_row (mords gid) g else []) =
        (case gs' gid of None \<Rightarrow> [] | Some g \<Rightarrow>
           if \<not> g_hidden g \<or> logged = st_owner_pub_key st' then group_row (mords' gid) g else [])" for gid
  proof (cases "gs gid = gs' gid")
    case True
    with assms(2-4) show ?thesis by (auto split: option.split)
  next
    case False
    with assms(1) obtain g g' where "gs gid = Some g" "gs' gid = Some g'" "g_hidden g" "g_hidden g'"
      unfolding same_but_hidden_def by blast
    with assms(2,3) show ?thesis by simp
  qed
  then show ?thesis unfolding home_groups_def by presburger
qed


text \<open>
  The owner's secrets stay with the owner: what any other visitor sees on the home page depends on
  the relay's name, icon and description and on its owner, not on keys, storage accounts, limits or the
  relays of the policies; nor does it tell which groups were deleted.
\<close>

theorem settings_stay_with_owner:
  assumes "logged \<noteq> st_owner_pub_key st" "logged \<noteq> st_owner_pub_key st'"
    and "st_relay_name st' = st_relay_name st" "st_relay_icon st' = st_relay_icon st"
      "st_relay_description st' = st_relay_description st"
  shows "home st logged stats gs ord mords deleted = home st' logged stats gs ord mords deleted'"
proof -
  have "home_groups st logged gs ord mords = home_groups st' logged gs ord mords"
    by (rule home_groups_visitor) (use assms in \<open>simp_all add: same_but_hidden_def\<close>)
  with assms show ?thesis
    by (simp add: home_def layout_def home_description_def home_deleted_def)
qed

lemma set_members_selectors:
  "g_address (g\<lparr>g_members := m\<rparr>) = g_address g" "g_picture (g\<lparr>g_members := m\<rparr>) = g_picture g"
  "g_name (g\<lparr>g_members := m\<rparr>) = g_name g" "g_about (g\<lparr>g_members := m\<rparr>) = g_about g"
  "g_private (g\<lparr>g_members := m\<rparr>) = g_private g" "g_restricted (g\<lparr>g_members := m\<rparr>) = g_restricted g"
  "g_closed (g\<lparr>g_members := m\<rparr>) = g_closed g" "g_livekit (g\<lparr>g_members := m\<rparr>) = g_livekit g"
  by simp_all

lemma group_parts_private:
  "group_identity (g\<lparr>g_members := m\<rparr>) = group_identity g"
  "group_flags dg (g\<lparr>g_members := m\<rparr>) = group_flags dg g"
  by (simp_all only: group_identity_def group_flags_def set_members_selectors)

lemma group_page_private:
  assumes "g_private g"
  shows "group_page st logged (g\<lparr>g_members := m\<rparr>) None members' events' last_event' naddr address =
    group_page st logged g None members events last_event naddr address"
  unfolding group_page_def group_parts_private set_members_selectors using assms by simp

text \<open>
  The page of a private group says nothing of its members, their roles or its messages: it is the
  same for any other members and any other content of the store.
\<close>

theorem private_page_tells_no_members:
  assumes "gs_groups s gid = Some g" "g_private g"
    and "s' = s\<lparr>gs_groups := (gs_groups s)(gid \<mapsto> g\<lparr>g_members := m\<rparr>), gs_db := db\<rparr>"
  shows "group_handler ops c po st logged members' gid s' = group_handler ops c po st logged members gid s"
proof -
  have "serve_group ops c po st logged members' (g\<lparr>g_members := m\<rparr>) None db =
    serve_group ops c po st logged members g None (gs_db s)"
    using group_page_private [OF assms(2)] assms(2)
    by (simp add: serve_group_def Let_def split: option.split)
  with assms show ?thesis by (simp add: group_handler_def)
qed

text \<open>But the home page names every member of every group that is not hidden, of private groups too.\<close>

lemma home_names_members:
  assumes "gs gid = Some g" "\<not> g_hidden g" "gid \<in> set ord" "pk \<in> set (mords gid)"
  shows "Esc (hex_of pk) \<in> set (home st logged stats gs ord mords deleted)"
proof -
  have "Esc (hex_of pk) \<in> set (owner_link pk)" by (simp add: owner_link_def)
  with assms(4) have "Esc (hex_of pk) \<in> set (group_row (mords gid) g)"
    by (auto simp: group_row_def)
  with assms(1-3) have "Esc (hex_of pk) \<in> set (home_groups st logged gs ord mords)"
    unfolding home_groups_def by (auto intro!: bexI [of _ gid])
  then show ?thesis by (simp add: home_def layout_def)
qed

text \<open>A hidden and a private group; a visitor who is not the owner.\<close>

definition ex_hidden :: group where
  "ex_hidden = (new_group ''wss://relay'' ''den'')\<lparr>g_hidden := True, g_name := ''Den''\<rparr>"

definition ex_private :: group where
  "ex_private = (new_group ''wss://relay'' ''club'')\<lparr>g_private := True, g_members := [5 \<mapsto> []]\<rparr>"

definition ex_site :: "slice_store groups_state" where
  "ex_site = (empty_groups_state [] 7 ''wss://relay'' ''https://relay'' \<lparr>lk_server_url = [], lk_api_key = [],
     lk_api_secret = []\<rparr>)\<lparr>gs_groups := [''den'' \<mapsto> ex_hidden, ''club'' \<mapsto> ex_private]\<rparr>"

definition ex_pages :: page_outside where
  "ex_pages = \<lparr>po_naddr = (\<lambda>_ gid _. ''naddr1'' @ gid), po_time = (\<lambda>_. ''then''), po_host = (\<lambda>_. Some ''relay'')\<rparr>"


theorem settings_stay_with_owner_witness:
  "home (default_settings 7) 5 (0, 0) (gs_groups ex_site) [''club''] (\<lambda>_. []) [] =
     home ((default_settings 8)\<lparr>st_relay_contact := ''me'', st_gift_wraps := \<lparr>gw_enabled = True, gw_presence_relays = []\<rparr>\<rparr>)
       5 (0, 0) (gs_groups ex_site) [''club''] (\<lambda>_. []) []"
  by (rule settings_stay_with_owner) (simp_all add: default_settings_def)

theorem private_page_tells_no_members_witness:
  "group_handler slice_ops ex_crypto ex_pages (default_settings 7) 5 [6] ''club''
     (ex_site\<lparr>gs_groups := (gs_groups ex_site)(''club'' \<mapsto> ex_private\<lparr>g_members := [6 \<mapsto> []]\<rparr>),
              gs_db := [zero_event]\<rparr>) =
   group_handler slice_ops ex_crypto ex_pages (default_settings 7) 5 [6] ''club'' ex_site"
  by (rule private_page_tells_no_members [where g = ex_private]) (simp_all add: ex_site_def ex_private_def)

subsection \<open>The settings form, posted back\<close>

lemma text_inputs_sections:
  "text_inputs (form_identity st @ q) =
     [(''relay_name'', st_relay_name st), (''relay_contact'', st_relay_contact st),
      (''relay_icon'', st_relay_icon st), (''owner_pubkey'', hex_of (st_owner_pub_key st))] @ text_inputs q"
  "text_inputs (form_rate_limit cfg @ q) =
     [(''group_create_rate_tokens_per_interval'', int_text (rl_tokens_per_interval cfg)),
      (''group_create_rate_interval_seconds'', int_text (rl_interval_seconds cfg)),
      (''group_create_rate_max_tokens'', int_text (rl_max_tokens cfg))] @ text_inputs q"
  "text_inputs (form_presence gc @ q) =
     [(''create_group_presence_relays'', join_with '', '' (gc_create_presence_relays gc)),
      (''free_transit_presence_relays'', join_with '', '' (gc_transit_presence_relays gc))] @ text_inputs q"
  "text_inputs (form_gift_wraps gw @ q) =
     [(''gift_wraps_sender_presence_relays'', join_with '', '' (gw_presence_relays gw))] @ text_inputs q"
  "text_inputs (form_blossom_fields bl @ q) =
     [(''blossom_local_path'', bl_local_path bl)] @ text_inputs q"
  "text_inputs (form_s3_fields bl) =
     [(''blossom_s3_endpoint'', bl_s3_endpoint bl), (''blossom_s3_bucket'', bl_s3_bucket bl),
      (''blossom_s3_key_id'', bl_s3_key_id bl), (''blossom_s3_secret'', bl_s3_secret bl),
      (''blossom_s3_redirect_base_url'', bl_s3_redirect_base_url bl)]"
  by (simp_all add: form_identity_def form_rate_limit_def form_presence_def form_gift_wraps_def
      form_blossom_fields_def form_s3_fields_def input_name_def starts_with_def unescape_escape)

lemma text_inputs_form:
  "text_inputs (settings_form st) =
     [(''relay_name'', st_relay_name st), (''relay_contact'', st_relay_contact st),
      (''relay_icon'', st_relay_icon st), (''owner_pubkey'', hex_of (st_owner_pub_key st)),
      (''group_create_rate_tokens_per_interval'',
         int_text (rl_tokens_per_interval (gc_create_rate_limit (st_groups st)))),
      (''group_create_rate_interval_seconds'',
         int_text (rl_interval_seconds (gc_create_rate_limit (st_groups st)))),
      (''group_create_rate_max_tokens'', int_text (rl_max_tokens (gc_create_rate_limit (st_groups st)))),
      (''create_group_presence_relays'', join_with '', '' (gc_create_presence_relays (st_groups st))),
      (''free_transit_presence_relays'', join_with '', '' (gc_transit_presence_relays (st_groups st))),
      (''gift_wraps_sender_presence_relays'', join_with '', '' (gw_presence_relays (st_gift_wraps st))),
      (''blossom_local_path'', bl_local_path (st_blossom st)),
      (''blossom_s3_endpoint'', bl_s3_endpoint (st_blossom st)),
      (''blossom_s3_bucket'', bl_s3_bucket (st_blossom st)),
      (''blossom_s3_key_id'', bl_s3_key_id (st_blossom st)),
      (''blossom_s3_secret'', bl_s3_secret (st_blossom st)),
      (''blossom_s3_redirect_base_url'', bl_s3_redirect_base_url (st_blossom st))]"
  by (simp add: settings_form_def text_inputs_sections)

lemma int_text_digits: "0 \<le> i \<Longrightarrow> clean (int_text i) \<and> int_text i \<noteq> []"
proof -
  assume "0 \<le> i"
  let ?s = "itoa (nat i)"
  have s: "list_all is_digit ?s" "?s \<noteq> []" using itoa_digits [of "nat i"] by blast+
  then have "is_digit (hd ?s)" "is_digit (last ?s)" by (auto simp: list_all_iff)
  then have "clean ?s" by (intro clean_visible) (simp add: is_digit_def visible_def)
  with s(2) \<open>0 \<le> i\<close> show ?thesis by (simp add: int_text_def)
qed

lemma parse_int_shown:
  assumes "f field = int_text i" "0 \<le> i" "in_int64 i"
  shows "parse_int f field cur = Some i"
proof -
  have "atoi (int_text i) = Some i" using assms(2,3) atoi_itoa [of "nat i"] by (simp add: int_text_def)
  with int_text_digits [OF assms(2)] assms(1,2) show ?thesis
    by (simp add: parse_int_def form_value_def trim_space_id)
qed


definition ex_form :: form where
  "ex_form name =
     (case map_of (text_inputs (settings_form (default_settings 7))) name of
        Some v \<Rightarrow> v
      | None \<Rightarrow> if name = ''relay_description'' then ''groups provider'' else [])"


text \<open>
  The settings a run goes through, from the first start of the relay: requests, whoever sends them.
\<close>

inductive settings_reach :: "seckey \<Rightarrow> global_state \<Rightarrow> bool" for sk where
  first_start: "gl_settings g = (default_settings sk)\<lparr>st_owner_pub_key := pk\<rparr> \<Longrightarrow> settings_reach sk g"
| request: "settings_reach sk g \<Longrightarrow> settings_handler writes reset logged form g = (r, g') \<Longrightarrow> settings_reach sk g'"

text \<open>
  C40. The settings stay tidy: whatever forms are posted after the first start, the rates are
  non-negative 64-bit numbers, the texts are trimmed, the relay entries are trimmed, not empty and
  without commas, there is a storage path, and the relay's key is the one generated at the start.
\<close>

theorem reachable_settings_tidy:
  assumes "settings_reach sk g"
  shows "settings_tidy (gl_settings g) \<and> st_relay_secret_key (gl_settings g) = sk"
  using assms
proof (induction rule: settings_reach.induct)
  case (first_start g pk)
  with default_settings_tidy [of sk] show ?case
    by (simp add: settings_tidy_def) (simp add: default_settings_def)
next
  case (request g writes reset logged form r g')
  from request(2) show ?case
  proof (cases rule: settings_handler_cases)
    case 1
    with request.IH show ?thesis by simp
  next
    case (2 f s')
    from request.IH have "rates_ok (gc_create_rate_limit (st_groups (gl_settings g)))"
      by (simp add: settings_tidy_def)
    with 2(3) have "settings_tidy s'" by (rule updated_settings_tidy)
    moreover from 2(3) have "st_relay_secret_key s' = st_relay_secret_key (gl_settings g)"
      by (auto simp: updated_settings_def split: sum.splits)
    ultimately show ?thesis using 2(6) request.IH by simp
  qed
qed

theorem reachable_settings_tidy_witness:
  "\<exists>g'. settings_handler (\<lambda>_. True) None (Some 9) (Some (\<lambda>_. [])) ex_global = (SrRedirect, g') \<and>
     settings_tidy (gl_settings g')"
proof -
  obtain g' where g': "settings_handler (\<lambda>_. True) None (Some 9) (Some (\<lambda>_. [])) ex_global = (SrRedirect, g')"
    using ex_update by blast
  have "settings_reach 7 ex_global" by (rule first_start [where pk = 9]) (simp add: ex_global_def)
  from reachable_settings_tidy [OF settings_reach.request [OF this g']] g' show ?thesis by blast
qed

end
