(* ===== verification/EventLog.thy ===== *)
theory EventLog
  imports Reject Text
begin

text \<open>
  The event log (\<^verbatim>\<open>eventlog.go\<close>): one line of text for every event, accepted or rejected. The time, the
  address and the user agent of the connection are inputs, and \<open>print\<close> is the table of printable
  runes that quoting uses.
\<close>

subsection \<open>What a line says of the event\<close>

definition ellipsis :: string where
  "ellipsis = map char_of [226, 128, 166 :: nat]"

definition shorten :: "nat \<Rightarrow> string \<Rightarrow> string \<Rightarrow> string" where
  "shorten n dots s = (if n < length s then take n s @ dots else s)"

definition user_entry :: "tag \<Rightarrow> string" where
  "user_entry t =
     shorten 12 [] (t ! 1) @ (if 3 \<le> length t then ''('' @ join_with '','' (drop 2 t) @ '')'' else [])"

text \<open>What a tag of edit-metadata adds, if anything.\<close>

definition edit_part :: "(nat \<Rightarrow> bool) \<Rightarrow> tag \<Rightarrow> string list" where
  "edit_part print t =
     (if length t < 2 then []
      else let k = t ! 0; v = t ! 1
        in if k = ''name'' then [''name='' @ quote print v]
           else if k = ''about'' then [''about='' @ quote print (shorten 40 ellipsis v)]
           else if k = ''picture'' then [''picture=set'']
           else if k = ''closed'' then [''closed=true'']
           else if k = ''open'' then [''closed=false'']
           else if k = ''restricted'' then [''restricted=true'']
           else if k = ''unrestricted'' then [''restricted=false'']
           else if k = ''private'' then [''private=true'']
           else if k = ''public'' then [''private=false'']
           else if k = ''hidden'' then [''hidden=true'']
           else if k = ''visible'' then [''hidden=false'']
           else [])"

definition bracketed :: "string \<Rightarrow> string list \<Rightarrow> string" where
  "bracketed name parts = name @ ''=['' @ join_with '' '' parts @ '']''"

definition nip29_details :: "(nat \<Rightarrow> bool) \<Rightarrow> event \<Rightarrow> string" where
  "nip29_details print e =
     (let k = ev_kind e; ts = ev_tags e
      in if k = 9 \<or> k = 11 \<or> k = 10 \<or> k = 12 then
           ''content='' @ quote print (shorten 80 ellipsis (ev_content e))
         else if k = kPutUser then bracketed ''add-users'' (map user_entry (tags_find_all ts ''p''))
         else if k = kRemoveUser then
           bracketed ''remove-users'' (map (\<lambda>t. shorten 12 [] (t ! 1)) (tags_find_all ts ''p''))
         else if k = kEditMetadata then bracketed ''edit'' (concat (map (edit_part print) ts))
         else if k = kDeleteEvent then
           bracketed ''delete-events'' (map (\<lambda>t. shorten 12 [] (t ! 1)) (tags_find_all ts ''e''))
         else if k = kCreateGroup then
           (case tags_find ts ''h'' of None \<Rightarrow> [] | Some t \<Rightarrow> ''new-group='' @ quote print (t ! 1))
         else if k = kDeleteGroup then ''delete-group''
         else if k = kCreateInvite then
           (case tags_find ts ''code'' of None \<Rightarrow> [] | Some t \<Rightarrow> ''invite-code='' @ quote print (t ! 1))
         else if k = kJoinRequest then
           ''join'' @ (case tags_find ts ''code'' of None \<Rightarrow> [] | Some t \<Rightarrow> '' code='' @ quote print (t ! 1))
         else if k = kLeaveRequest then ''leave''
         else [])"

subsection \<open>The line\<close>

definition event_head ::
  "(nat \<Rightarrow> bool) \<Rightarrow> string \<Rightarrow> string \<Rightarrow> string \<Rightarrow> bool \<Rightarrow> event \<Rightarrow> string" where
  "event_head print time ip ua accepted e =
     (let group = (case tags_find (ev_tags e) ''h'' of None \<Rightarrow> [] | Some t \<Rightarrow> t ! 1)
      in time @ '' '' @ (if accepted then ''ACCEPTED'' else ''REJECTED'')
         @ '' kind='' @ itoa (unat (ev_kind e))
         @ '' id='' @ take 12 (hex_of (ev_id e)) @ '' pubkey='' @ take 12 (hex_of (ev_pubkey e))
         @ '' group='' @ quote print group @ '' ip='' @ ip @ '' ua='' @ quote print ua)"

definition event_line ::
  "(nat \<Rightarrow> bool) \<Rightarrow> string \<Rightarrow> string \<Rightarrow> string \<Rightarrow> bool \<Rightarrow> string \<Rightarrow> event \<Rightarrow> string" where
  "event_line print time ip ua accepted reason e =
     (let details = nip29_details print e
      in event_head print time ip ua accepted e
         @ (if details \<noteq> [] then '' '' @ details else [])
         @ (if \<not> accepted \<and> reason \<noteq> [] then '' reason='' @ quote print reason else []))"

text \<open>\<open>logEvent\<close> appends the line to the file, if the log could be opened; the error of the write is
  dropped, and \<open>writes\<close> says whether there was one.\<close>

definition log_event ::
  "(nat \<Rightarrow> bool) \<Rightarrow> bool \<Rightarrow> string \<Rightarrow> string \<Rightarrow> string \<Rightarrow> event \<Rightarrow> bool \<Rightarrow> string \<Rightarrow> string option \<Rightarrow> string option" where
  "log_event print writes time ip ua e accepted reason file =
     (case file of
        None \<Rightarrow> None
      | Some f \<Rightarrow> Some (if writes then f @ event_line print time ip ua accepted reason e @ [CHR 0x0A] else f))"

text \<open>
  \<open>OnEvent\<close>: an event is judged and then logged with the judgement. \<open>text_of\<close> gives the text of a reason;
  the line shows the tags as judging left them.
\<close>

definition on_event ::
  "'d store_ops \<Rightarrow> outside \<Rightarrow> timestamp \<Rightarrow> request_context \<Rightarrow> (reject_reason \<Rightarrow> string) \<Rightarrow> (nat \<Rightarrow> bool) \<Rightarrow>
     bool \<Rightarrow> string \<Rightarrow> string \<Rightarrow> string \<Rightarrow> event \<Rightarrow> 'd relay_state \<Rightarrow> string option \<Rightarrow>
     reject_reason option \<times> event \<times> 'd relay_state \<times> string option" where
  "on_event ops out now cx text_of print writes time ip ua e s file =
     (case reject_event ops out now cx e s of
        (why, e', s') \<Rightarrow>
          (why, e', s',
           log_event print writes time ip ua e' (why = None) (case why of None \<Rightarrow> [] | Some x \<Rightarrow> text_of x) file))"

subsection \<open>One line for each event\<close>

lemma no_control_join: "no_control sep \<Longrightarrow> (\<And>x. x \<in> set xs \<Longrightarrow> no_control x) \<Longrightarrow> no_control (join_with sep xs)"
  by (induction xs rule: induct_list012) simp_all

lemma no_control_take: "no_control s \<Longrightarrow> no_control (take n s)"
  by (auto simp: no_control_def dest: in_set_takeD)

lemma no_control_shorten: "no_control s \<Longrightarrow> no_control (shorten n [] s)"
  by (simp add: shorten_def no_control_take)

lemma no_control_itoa: "no_control (itoa n)"
  using itoa_digits [of n] by (auto simp: no_control_def list_all_iff is_digit_def)

lemma no_control_edit_part: "x \<in> set (edit_part print t) \<Longrightarrow> no_control x"
  by (auto simp: edit_part_def Let_def no_control_quote split: if_splits)

definition clean_targets :: "event \<Rightarrow> bool" where
  "clean_targets e \<longleftrightarrow>
     (\<forall>t \<in> set (tags_find_all (ev_tags e) ''p'') \<union> set (tags_find_all (ev_tags e) ''e'').
        list_all no_control (tl t))"

lemma clean_targetsD:
  assumes "clean_targets e" "t \<in> set (tags_find_all (ev_tags e) k)" "k = ''p'' \<or> k = ''e''"
  shows "no_control (t ! 1) \<and> list_all no_control (drop 2 t)"
proof -
  have a: "list_all no_control (tl t)" using assms by (auto simp: clean_targets_def)
  have "2 \<le> length t" using tags_find_all_mem [OF assms(2)] by simp
  with a show ?thesis by (cases t; cases "tl t") (auto simp: numeral_2_eq_2)
qed

lemma no_control_details:
  assumes "clean_targets e"
  shows "no_control (nip29_details print e)"
proof -
  have u: "no_control (user_entry t)" if "t \<in> set (tags_find_all (ev_tags e) ''p'')" for t
    using clean_targetsD [OF assms that]
    by (auto simp: user_entry_def no_control_shorten list_all_iff intro!: no_control_join)
  have s: "no_control (shorten 12 [] (t ! 1))"
    if "t \<in> set (tags_find_all (ev_tags e) k)" "k = ''p'' \<or> k = ''e''" for t k
    using clean_targetsD [OF assms that] by (simp add: no_control_shorten)
  show ?thesis
    using u s no_control_edit_part
    by (auto simp: nip29_details_def Let_def bracketed_def no_control_quote
        intro!: no_control_join split: option.split)
qed

text \<open>
  Every event makes one line of the log: as long as the values of its \<open>p\<close> and \<open>e\<close> tags hold no
  control characters, neither its content nor its other tags, the user agent or the reason of a
  refusal bring a line break or another control character into it.
\<close>

theorem event_makes_one_line:
  assumes "clean_targets e" "no_control time" "no_control ip"
  shows "log_event print True time ip ua e accepted reason (Some f) =
      Some (f @ event_line print time ip ua accepted reason e @ [CHR 0x0A]) \<and>
    no_control (event_line print time ip ua accepted reason e)"
  using assms no_control_details [OF assms(1)]
  by (simp add: log_event_def event_line_def event_head_def Let_def no_control_quote no_control_itoa hex_of_def
      no_control_hex no_control_take)

text \<open>
  The roles of a put-user event come into the log as they are, before the event is validated: a
  role with a line break in it starts a line of its own, with any text.
\<close>

theorem roles_logged_verbatim:
  "\<exists>a b. event_line print time ip ua accepted reason
     (e\<lparr>ev_kind := kPutUser, ev_tags := [[''p'', pk, role]]\<rparr>) = a @ role @ b"
proof -
  let ?e = "e\<lparr>ev_kind := kPutUser, ev_tags := [[''p'', pk, role]]\<rparr>"
  have d: "nip29_details print ?e = (''add-users=['' @ shorten 12 [] pk @ ''('') @ role @ '')]''"
    by (simp add: nip29_details_def bracketed_def user_entry_def)
  have "event_line print time ip ua accepted reason ?e =
      (event_head print time ip ua accepted ?e @ '' '' @ ''add-users=['' @ shorten 12 [] pk @ ''('') @ role @
      '')]'' @ (if \<not> accepted \<and> reason \<noteq> [] then '' reason='' @ quote print reason else [])"
    by (simp add: event_line_def d)
  then show ?thesis by blast
qed

theorem event_makes_one_line_witness:
  "no_control (event_line (\<lambda>_. True) ''now'' ''::1'' [CHR 0x0A] False [CHR 0x0A] zero_event)"
  using event_makes_one_line [of zero_event "''now''" "''::1''" "\<lambda>_. True" "[CHR 0x0A]" False "[CHR 0x0A]" "[]"]
  by (simp add: clean_targets_def zero_event_def)

end
