(* ===== verification/WireLog.thy ===== *)
theory WireLog
  imports EventLog
begin

text \<open>
  What the relay prints to its terminal (\<^verbatim>\<open>wire_log.go\<close>): one coloured line for each message of a
  websocket, for each connection, and for each HTTP request. Parsing a message and writing a filter as
  JSON are parameters; \<open>print\<close> is the table of printable runes.
\<close>

subsection \<open>Formatting\<close>

text \<open>The colours, and the glyphs the lines use (U+2192, U+25CF, U+25CB, U+2191).\<close>

definition colour :: "string \<Rightarrow> string" where
  "colour code = CHR 0x1B # ''['' @ code @ ''m''"

definition arrow :: string where "arrow = [CHR 0xE2, CHR 0x86, CHR 0x92]"
definition full_circle :: string where "full_circle = [CHR 0xE2, CHR 0x97, CHR 0x8F]"
definition empty_circle :: string where "empty_circle = [CHR 0xE2, CHR 0x97, CHR 0x8B]"
definition up_arrow :: string where "up_arrow = [CHR 0xE2, CHR 0x86, CHR 0x91]"

definition wire_trunc :: "string \<Rightarrow> nat \<Rightarrow> string" where
  "wire_trunc s n = (if length s \<le> n then s else take n s @ ellipsis)"

text \<open>\<open>%-ns\<close> and \<open>%-nd\<close>: blanks fill up to \<open>n\<close> runes.\<close>

function rune_count :: "nat list \<Rightarrow> nat" where
  "rune_count s = (if s = [] then 0 else Suc (rune_count (drop (max 1 (snd (decode_rune s))) s)))"
  by pat_completeness auto
termination
  by (relation "measure size") auto

declare rune_count.simps [simp del]

definition pad :: "nat \<Rightarrow> string \<Rightarrow> string" where
  "pad n s = s @ replicate (n - rune_count (map of_char s)) (CHR '' '')"

subsection \<open>The lines\<close>

datatype envelope =
    EventEnvelope event
  | ReqEnvelope string "nfilter list"
  | CloseEnvelope string
  | AuthEnvelope event
  | CountEnvelope string nfilter
  | OtherEnvelope

definition wire_event_line :: "(nat \<Rightarrow> bool) \<Rightarrow> string \<Rightarrow> event \<Rightarrow> string" where
  "wire_event_line print ip e =
     (let grp = (case tags_find (ev_tags e) ''h'' of
            Some t \<Rightarrow> if 2 \<le> length t then ''  group='' @ quote print (t ! 1) else []
          | None \<Rightarrow> []);
          content = (if ev_content e = [] then []
            else ''  '' @ colour ''2'' @ quote print (wire_trunc (ev_content e) 60) @ colour ''0'')
      in colour ''92'' @ arrow @ '' EVENT '' @ colour ''0'' @ ''  '' @ pad 18 ip @
         ''  kind='' @ pad 6 (itoa (unat (ev_kind e))) @
         ''  id='' @ take 12 (hex_of (ev_id e)) @ ''  pub='' @ take 12 (hex_of (ev_pubkey e)) @
         grp @ content)"

definition wire_message_line ::
  "(nat \<Rightarrow> bool) \<Rightarrow> (nfilter \<Rightarrow> string) \<Rightarrow> string \<Rightarrow> envelope \<Rightarrow> string \<Rightarrow> string" where
  "wire_message_line print json ip env message =
     (case env of
        EventEnvelope e \<Rightarrow> wire_event_line print ip e
      | ReqEnvelope sub fs \<Rightarrow>
          colour ''94'' @ arrow @ '' REQ   '' @ colour ''0'' @ ''  '' @ pad 18 ip @
          ''  sub='' @ pad 16 (wire_trunc sub 16) @ ''  '' @ join_with '' '' (map json fs)
      | CloseEnvelope sub \<Rightarrow>
          colour ''90'' @ arrow @ '' CLOSE '' @ colour ''0'' @ ''  '' @ pad 18 ip @ ''  sub='' @ sub
      | AuthEnvelope e \<Rightarrow>
          colour ''95'' @ arrow @ '' AUTH  '' @ colour ''0'' @ ''  '' @ pad 18 ip @
          ''  id='' @ take 12 (hex_of (ev_id e)) @ ''  pub='' @ take 12 (hex_of (ev_pubkey e))
      | CountEnvelope sub f \<Rightarrow>
          colour ''93'' @ arrow @ '' COUNT '' @ colour ''0'' @ ''  '' @ pad 18 ip @
          ''  sub='' @ pad 16 (wire_trunc sub 16) @ ''  '' @ json f
      | OtherEnvelope \<Rightarrow>
          colour ''90'' @ arrow @ '' ???   '' @ colour ''0'' @ ''  '' @ pad 18 ip @ ''  '' @
          wire_trunc message 100)"

text \<open>\<open>logWireMessage\<close>; a message that does not parse is printed as far as 100 bytes.\<close>

definition log_wire_message ::
  "(nat \<Rightarrow> bool) \<Rightarrow> (nfilter \<Rightarrow> string) \<Rightarrow> (string \<Rightarrow> envelope option) \<Rightarrow> string \<Rightarrow> string \<Rightarrow> string" where
  "log_wire_message print json parse ip message =
     (case parse message of
        None \<Rightarrow>
          colour ''90'' @ ''  '' @ pad 6 ''?'' @ colour ''0'' @ ''  '' @ pad 18 ip @ ''  '' @
          wire_trunc message 100
      | Some env \<Rightarrow> wire_message_line print json ip env message) @ [CHR 0x0A]"

definition log_ws_connect :: "string \<Rightarrow> string \<Rightarrow> string" where
  "log_ws_connect ip ua =
     colour ''96'' @ full_circle @ '' WS    '' @ colour ''0'' @ ''  '' @ pad 18 ip @ ''  connect'' @
     (if ua = [] then [] else ''  '' @ colour ''2'' @ wire_trunc ua 60 @ colour ''0'') @ [CHR 0x0A]"

text \<open>\<open>OnConnect\<close>: the user agent of the request, if there is a connection.\<close>

definition on_connect :: "string \<Rightarrow> string option \<Rightarrow> string" where
  "on_connect ip agent = log_ws_connect ip (case agent of None \<Rightarrow> [] | Some ua \<Rightarrow> ua)"

definition log_ws_disconnect :: "string \<Rightarrow> string" where
  "log_ws_disconnect ip =
     colour ''90'' @ empty_circle @ '' WS    '' @ colour ''0'' @ ''  '' @ pad 18 ip @ ''  disconnect'' @ [CHR 0x0A]"

definition log_http_request :: "string \<Rightarrow> string \<Rightarrow> string \<Rightarrow> nat \<Rightarrow> string" where
  "log_http_request remote verb path status =
     (let sc = (if 500 \<le> status then colour ''31'' else if 400 \<le> status then colour ''33'' else colour ''32'')
      in colour ''90'' @ ''  HTTP  '' @ colour ''0'' @ ''  '' @ pad 18 remote @ ''  '' @ pad 6 verb @ ''  '' @
         pad 40 (wire_trunc path 40) @ ''  '' @ sc @ itoa status @ colour ''0'' @ [CHR 0x0A])"

definition log_http_upgrade :: "string \<Rightarrow> string \<Rightarrow> string" where
  "log_http_upgrade remote path =
     colour ''36'' @ ''  WS'' @ up_arrow @ ''   '' @ colour ''0'' @ ''  '' @ pad 18 remote @ ''  '' @
     pad 6 ''GET'' @ ''  '' @ path @ [CHR 0x0A]"

subsection \<open>One line for each event\<close>

text \<open>Text without a line feed.\<close>

definition one_line :: "string \<Rightarrow> bool" where
  "one_line s \<longleftrightarrow> CHR 0x0A \<notin> set s"

lemma one_line_simps [simp]:
  "one_line []" "one_line (c # s) \<longleftrightarrow> c \<noteq> CHR 0x0A \<and> one_line s"
  "one_line (s @ t) \<longleftrightarrow> one_line s \<and> one_line t" "one_line (pad n s) \<longleftrightarrow> one_line s"
  by (auto simp: one_line_def pad_def)

lemma no_control_one_line: "no_control s \<Longrightarrow> one_line s"
  by (auto simp: no_control_def one_line_def)

lemma one_line_take: "one_line s \<Longrightarrow> one_line (take n s)"
  by (auto simp: one_line_def dest: in_set_takeD)

lemma one_line_parts [simp]:
  "one_line (quote print s)" "one_line (itoa n)" "one_line (take n (hex_of w))"
  "one_line arrow"
  by (simp_all add: no_control_one_line no_control_quote no_control_itoa no_control_hex one_line_take
      hex_of_def arrow_def)

text \<open>The line of an event is one line, whatever the event holds.\<close>

lemma wire_event_one_line:
  assumes "one_line ip"
  shows "one_line (wire_event_line print ip e)"
  using assms by (simp add: wire_event_line_def Let_def colour_def split: option.split)

text \<open>A subscription id is printed as the client sent it: a terminal obeys the sequences in it.\<close>

lemma close_printed_raw:
  "\<exists>a. wire_message_line print json ip (CloseEnvelope sub) m = a @ sub"
  by (simp add: wire_message_line_def)

end
