(* ===== verification/Wipe.thy ===== *)
theory Wipe
  imports Examples
begin

text \<open>
  Wiping a group out (\<^verbatim>\<open>wipe.go\<close>): the owner removes a group with every event that names it, by an
  \<open>h\<close> or a \<open>d\<close> tag. The handler deletes inside its query loops; a query yields the matches the store
  had when it began.
\<close>

subsection \<open>The handler\<close>

datatype wipe_result = WipeUnauthorized | WipeNotFound | WipeRedirect

definition d_filter :: "string \<Rightarrow> nfilter" where
  "d_filter gid = empty_filter\<lparr>f_tags := [(''d'', [gid])]\<rparr>"

text \<open>\<open>deleteEvent\<close>: an event seen before is passed over, and a failed delete is only logged.\<close>

definition wipe_event :: "'d store_ops \<Rightarrow> event \<Rightarrow> eid set \<times> 'd \<Rightarrow> eid set \<times> 'd" where
  "wipe_event ops e st =
     (if ev_id e \<in> fst st then st
      else (insert (ev_id e) (fst st), snd (so_delete ops (ev_id e) (snd st))))"

definition wipe_query :: "'d store_ops \<Rightarrow> nfilter \<Rightarrow> eid set \<times> 'd \<Rightarrow> eid set \<times> 'd" where
  "wipe_query ops f st = fold (wipe_event ops) (so_query ops f 10000000 (snd st)) st"

text \<open>The \<open>Compute\<close> of the member count: a missing key stays missing.\<close>

definition wipe_count :: "pubkey \<Rightarrow> (pubkey \<rightharpoonup> int) \<Rightarrow> (pubkey \<rightharpoonup> int)" where
  "wipe_count pk m =
     (case m pk of
        None \<Rightarrow> m(pk := None)
      | Some c \<Rightarrow> if c - 1 \<le> 0 then m(pk := None) else m(pk \<mapsto> c - 1))"

text \<open>\<open>logged\<close> is what \<open>GetLoggedUser\<close> found, \<open>ord\<close> the order in which \<open>range\<close> visits the members.\<close>

definition wipe_group_handler ::
  "'d store_ops \<Rightarrow> pubkey option \<Rightarrow> pubkey \<Rightarrow> pubkey list \<Rightarrow> string \<Rightarrow> 'd groups_state \<Rightarrow>
     wipe_result \<times> 'd groups_state" where
  "wipe_group_handler ops logged owner ord gid s =
     (if logged \<noteq> Some owner then (WipeUnauthorized, s)
      else case gs_groups s gid of
             None \<Rightarrow> (WipeNotFound, s)
           | Some g \<Rightarrow>
               (WipeRedirect,
                s\<lparr>gs_db := snd (wipe_query ops (d_filter gid) (wipe_query ops (h_filter gid) ({}, gs_db s))),
                  gs_all_members := fold wipe_count ord (gs_all_members s),
                  gs_groups := (gs_groups s)(gid := None)\<rparr>))"

subsection \<open>What is left\<close>

lemma wipe_filters [simp]:
  "filter_matches (h_filter gid) e \<longleftrightarrow> tags_contains_any (ev_tags e) ''h'' [gid]"
  "filter_matches (d_filter gid) e \<longleftrightarrow> tags_contains_any (ev_tags e) ''d'' [gid]"
  "f_since (h_filter gid) = 0" "f_since (d_filter gid) = 0"
  "effective_limit (h_filter gid) n = n" "effective_limit (d_filter gid) n = n"
  by (simp_all add: filter_matches_def matches_ignoring_timestamps_def h_filter_def d_filter_def
      empty_filter_def in_opt_def effective_limit_def theoretical_limit_def opt_len_def tag_values_def)

text \<open>A store whose deletions succeed holds, after the loops, exactly what no query found.\<close>

context event_store
begin

lemma wipe_events_exact:
  assumes "\<And>i d. fst (so_delete ops i d) = None" "inv d" "seen \<inter> ev_id ` contents d = {}"
    and "fold (wipe_event ops) es (seen, d) = (seen', d')"
  shows "inv d' \<and> contents d' = {x \<in> contents d. ev_id x \<notin> ev_id ` set es} \<and>
    seen' \<inter> ev_id ` contents d' = {}"
  using assms(2-)
proof (induction es arbitrary: seen d)
  case (Cons e es)
  show ?case
  proof (cases "ev_id e \<in> seen")
    case True
    then have "wipe_event ops e (seen, d) = (seen, d)" by (simp add: wipe_event_def)
    with Cons.prems(3) have "fold (wipe_event ops) es (seen, d) = (seen', d')" by simp
    moreover have "ev_id x \<noteq> ev_id e" if "x \<in> contents d" for x
      using True Cons.prems(2) that by (metis IntI emptyE imageI)
    ultimately show ?thesis using Cons.IH [OF Cons.prems(1,2)] by auto
  next
    case False
    obtain d1 where d1: "so_delete ops (ev_id e) d = (None, d1)"
      using assms(1) by (metis prod.collapse)
    from delete_ok [OF Cons.prems(1) d1] have c1: "inv d1" "contents d1 = {x \<in> contents d. ev_id x \<noteq> ev_id e}"
      by simp_all
    have "wipe_event ops e (seen, d) = (insert (ev_id e) seen, d1)"
      using False d1 by (simp add: wipe_event_def)
    with Cons.prems(3) have "fold (wipe_event ops) es (insert (ev_id e) seen, d1) = (seen', d')" by simp
    moreover have "insert (ev_id e) seen \<inter> ev_id ` contents d1 = {}" using c1 Cons.prems(2) by auto
    ultimately have "inv d' \<and> contents d' = {x \<in> contents d1. ev_id x \<notin> ev_id ` set es} \<and>
        seen' \<inter> ev_id ` contents d' = {}" by (intro Cons.IH [OF c1(1)])
    with c1(2) show ?thesis by auto
  qed
qed simp

lemma wipe_query_exact:
  assumes "\<And>i d. fst (so_delete ops i d) = None" "inv d" "seen \<inter> ev_id ` contents d = {}"
    and f: "f_since f = 0" "int (length (so_query ops f 10000000 d)) < effective_limit f 10000000"
    and u: "id_unique (contents d)" and w: "wipe_query ops f (seen, d) = (seen', d')"
  shows "inv d' \<and> contents d' = {x \<in> contents d. \<not> filter_matches f x} \<and>
    seen' \<inter> ev_id ` contents d' = {}"
proof -
  have q: "set (so_query ops f 10000000 d) = {e \<in> contents d. filter_matches f e}"
    by (rule query_exact [OF assms(2) f])
  have "fold (wipe_event ops) (so_query ops f 10000000 d) (seen, d) = (seen', d')"
    using w by (simp add: wipe_query_def)
  from wipe_events_exact [OF assms(1-3) this] q u show ?thesis
    by (auto simp: id_unique_def dest: inj_onD)
qed

text \<open>With few enough events each query ends before its limit of ten million.\<close>

lemma query_below_limit:
  assumes "inv d" "card (contents d) < 10000000" "finite (contents d)"
  shows "int (length (so_query ops f 10000000 d)) < 10000000"
proof -
  have "set (so_query ops f 10000000 d) \<subseteq> contents d" using query_sound [OF assms(1)] by blast
  then have "card (set (so_query ops f 10000000 d)) \<le> card (contents d)" by (rule card_mono [OF assms(3)])
  with assms(2) distinct_card [OF query_distinct [OF assms(1)]] show ?thesis by simp
qed

lemma wiped_contents:
  assumes "\<And>i d. fst (so_delete ops i d) = None" "inv d" "id_unique (contents d)"
    and "card (contents d) < 10000000" "finite (contents d)"
  shows "inv (snd (wipe_query ops (d_filter gid) (wipe_query ops (h_filter gid) ({}, d)))) \<and>
    contents (snd (wipe_query ops (d_filter gid) (wipe_query ops (h_filter gid) ({}, d)))) =
      {x \<in> contents d. \<not> filter_matches (h_filter gid) x \<and> \<not> filter_matches (d_filter gid) x}"
proof -
  obtain s1 d1 where 1: "wipe_query ops (h_filter gid) ({}, d) = (s1, d1)" by fastforce
  obtain s2 d2 where 2: "wipe_query ops (d_filter gid) (s1, d1) = (s2, d2)" by fastforce
  have r1: "inv d1 \<and> contents d1 = {x \<in> contents d. \<not> filter_matches (h_filter gid) x} \<and>
      s1 \<inter> ev_id ` contents d1 = {}"
    using query_below_limit [OF assms(2,4,5)] by (intro wipe_query_exact [OF assms(1,2) _ _ _ assms(3) 1]) simp_all
  have le: "contents d1 \<subseteq> contents d" using r1 by blast
  have c1: "finite (contents d1)" "card (contents d1) < 10000000"
    using finite_subset [OF le assms(5)] card_mono [OF assms(5) le] assms(4) by simp_all
  have u1: "id_unique (contents d1)" by (rule id_unique_subset [OF assms(3) le])
  have "inv d2 \<and> contents d2 = {x \<in> contents d1. \<not> filter_matches (d_filter gid) x} \<and>
      s2 \<inter> ev_id ` contents d2 = {}"
  proof (rule wipe_query_exact [OF assms(1) _ _ _ _ u1 2])
    show "inv d1" "s1 \<inter> ev_id ` contents d1 = {}" using r1 by blast+
    then show "int (length (so_query ops (d_filter gid) 10000000 d1)) < effective_limit (d_filter gid) 10000000"
      using query_below_limit [OF _ c1(2,1)] by simp
  qed simp
  with 1 2 r1 show ?thesis by auto
qed

end

subsection \<open>The group is gone\<close>

lemma wipe_count_other [simp]: "x \<noteq> pk \<Longrightarrow> wipe_count pk m x = m x"
  by (simp add: wipe_count_def split: option.split)

lemma wipe_count_same [simp]:
  "wipe_count pk m pk = (case m pk of None \<Rightarrow> None | Some c \<Rightarrow> if c \<le> 1 then None else Some (c - 1))"
  by (simp add: wipe_count_def split: option.split)

lemma wipe_counts:
  "distinct ord \<Longrightarrow> fold wipe_count ord m x =
     (if x \<in> set ord then (case m x of None \<Rightarrow> None | Some c \<Rightarrow> if c \<le> 1 then None else Some (c - 1))
      else m x)"
proof (induction ord arbitrary: m)
  case (Cons a ord)
  show ?case
  proof (cases "x = a")
    case True
    with Cons show ?thesis by simp
  next
    case False
    with Cons show ?thesis by simp
  qed
qed simp

text \<open>An event of a group names it, by its \<open>h\<close> or its \<open>d\<close> tag.\<close>

lemma group_id_matches:
  "get_group_id_from_event e = Some gid \<Longrightarrow>
   filter_matches (h_filter gid) e \<or> filter_matches (d_filter gid) e"
  by (auto simp: get_group_id_from_event_def tags_contains_any_iff tag_is_def
      dest!: tags_find_Some split: if_splits)

text \<open>
  C26. The owner wipes a group out: the group is taken off the map and no other is changed, every
  event that names the group is gone and every other one is kept, so that nothing of it is loaded
  at the next start; the member count of each member goes down by one.
\<close>

theorem wipe_removes_group:
  assumes g: "gs_groups s gid = Some g" and inv: "slice_inv (gs_db s)"
    and few: "length (gs_db s) < 10000000" and ord: "enumerates ord (g_members g)"
    and h: "wipe_group_handler slice_ops (Some owner) owner ord gid s = (r, s')"
  shows "r = WipeRedirect \<and> gs_groups s' = (gs_groups s)(gid := None) \<and>
    set (gs_db s') = {e \<in> set (gs_db s). \<not> filter_matches (h_filter gid) e \<and> \<not> filter_matches (d_filter gid) e} \<and>
    (\<forall>e. get_group_id_from_event e = Some gid \<longrightarrow> e \<notin> set (gs_db s')) \<and>
    (\<forall>pk. gs_all_members s' pk =
       (if is_member g pk then (case gs_all_members s pk of None \<Rightarrow> None
          | Some c \<Rightarrow> if c \<le> 1 then None else Some (c - 1))
        else gs_all_members s pk))"
proof -
  have "id_unique (set (gs_db s))" using inv by (simp add: slice_inv_def)
  moreover have "card (set (gs_db s)) < 10000000" using card_length [of "gs_db s"] few by simp
  ultimately have db: "set (snd (wipe_query slice_ops (d_filter gid)
        (wipe_query slice_ops (h_filter gid) ({}, gs_db s)))) =
      {e \<in> set (gs_db s). \<not> filter_matches (h_filter gid) e \<and> \<not> filter_matches (d_filter gid) e}"
    using slicestore.wiped_contents [OF _ inv, of gid] slice_delete_event_None by (simp add: slice_ops_def)
  have mem: "pk \<in> set ord \<longleftrightarrow> is_member g pk" for pk
    using enumerates_memD [OF ord] by (auto simp: is_member_def)
  have s': "r = WipeRedirect" "gs_groups s' = (gs_groups s)(gid := None)"
      "gs_db s' = snd (wipe_query slice_ops (d_filter gid) (wipe_query slice_ops (h_filter gid) ({}, gs_db s)))"
      "gs_all_members s' = fold wipe_count ord (gs_all_members s)"
    using h g by (auto simp: wipe_group_handler_def)
  have "distinct ord" using ord by (simp add: enumerates_def)
  from wipe_counts [OF this] have am: "gs_all_members s' pk =
       (if is_member g pk then (case gs_all_members s pk of None \<Rightarrow> None
          | Some c \<Rightarrow> if c \<le> 1 then None else Some (c - 1))
        else gs_all_members s pk)" for pk by (simp only: s'(4) mem)
  have "e \<notin> set (gs_db s')" if "get_group_id_from_event e = Some gid" for e
    using group_id_matches [OF that] db unfolding s'(3) by blast
  with s' db am show ?thesis by simp
qed

theorem wipe_removes_group_witness:
  "gs_groups (snd (wipe_group_handler slice_ops (Some 9) 9 [1, 2] ''g''
     (ex_groups\<lparr>gs_db := [ex_event 1 9 [[''h'', ''g'']]]\<rparr>))) ''g'' = None"
proof -
  let ?s = "ex_groups\<lparr>gs_db := [ex_event 1 9 [[''h'', ''g'']]]\<rparr>"
  have "gs_groups ?s ''g'' = Some ex_group" "slice_inv (gs_db ?s)" "length (gs_db ?s) < 10000000"
      "enumerates [1, 2] (g_members ex_group)"
    by (auto simp: slice_inv_def id_unique_def enumerates_def)
  from wipe_removes_group [OF this prod.collapse [symmetric], of 9] show ?thesis by simp
qed

text \<open>Nobody but the owner, and nothing but an existing group.\<close>

lemma wipe_refused:
  "logged \<noteq> Some owner \<or> gs_groups s gid = None \<Longrightarrow>
   snd (wipe_group_handler ops logged owner ord gid s) = s \<and>
   fst (wipe_group_handler ops logged owner ord gid s) \<noteq> WipeRedirect"
  by (auto simp: wipe_group_handler_def)

text \<open>The parent of the group goes on listing it as a child.\<close>

lemma wipe_keeps_parent_children:
  "gs_groups s p = Some pg \<Longrightarrow> p \<noteq> gid \<Longrightarrow>
   gs_groups (snd (wipe_group_handler ops logged owner ord gid s)) p = Some pg"
  by (simp add: wipe_group_handler_def split: option.split)

end
