(* ===== verification/LiveKit.thy ===== *)
theory LiveKit
  imports Examples Web
begin

text \<open>
  Audio and video rooms (\<^verbatim>\<open>livekit.go\<close>): a signed request gets a token to join the room of a group,
  and the LiveKit server reports who joined or left. That server, its tokens, the URL parser and JSON
  are parameters.
\<close>

subsection \<open>The LiveKit server\<close>

datatype livekit_grant = ServerGrant | JoinGrant string

text \<open>
  \<open>lo_parse_url\<close> gives the scheme of an URL and how the URL is printed with another scheme.
  \<open>lo_create_room\<close> and \<open>lo_list\<close> are given the URL, the token and the room; the first gives the status
  of the answer, the second the identities an answer with status 200 lists.
\<close>

record livekit_outside =
  lo_event_json :: "string \<Rightarrow> event option"
  lo_verify :: "event \<Rightarrow> bool"
  lo_parse_url :: "string \<Rightarrow> (string \<times> (string \<Rightarrow> string)) option"
  lo_jwt :: "string \<Rightarrow> string \<Rightarrow> livekit_grant \<Rightarrow> string \<Rightarrow> string"
  lo_create_room :: "string \<Rightarrow> string \<Rightarrow> string \<Rightarrow> int option"
  lo_list :: "string \<Rightarrow> string \<Rightarrow> string \<Rightarrow> string list option"

definition livekit_configured :: "livekit_settings \<Rightarrow> bool" where
  "livekit_configured lk \<longleftrightarrow> lk_server_url lk \<noteq> [] \<and> lk_api_key lk \<noteq> [] \<and> lk_api_secret lk \<noteq> []"

text \<open>\<open>strings.Replace(s, old, new, 1)\<close>.\<close>

fun replace_first :: "string \<Rightarrow> string \<Rightarrow> string \<Rightarrow> string" where
  "replace_first old new [] = (if old = [] then new else [])"
| "replace_first old new (x # xs) =
     (if starts_with old (x # xs) then new @ drop (length old) (x # xs)
      else x # replace_first old new xs)"

text \<open>The URL of a method; the error of \<open>url.Parse\<close> is dropped, and its \<open>nil\<close> dereferenced.\<close>

definition room_service_url :: "livekit_outside \<Rightarrow> livekit_settings \<Rightarrow> string \<Rightarrow> string outcome" where
  "room_service_url lo lk name =
     (case lo_parse_url lo (lk_server_url lk @ ''/twirp/livekit.RoomService/'' @ name) of
        None \<Rightarrow> Panicked
      | Some (scheme, print) \<Rightarrow> Returned (print (replace_first ''ws'' ''http'' scheme)))"

definition generate_server_token :: "livekit_outside \<Rightarrow> livekit_settings \<Rightarrow> string" where
  "generate_server_token lo lk = lo_jwt lo (lk_api_key lk) (lk_api_secret lk) ServerGrant []"

text \<open>\<open>randomToken\<close> of the random bytes \<open>rnd\<close>; the identity carries the key in front.\<close>

definition random_token :: "nat list \<Rightarrow> string" where
  "random_token rnd = b64_url_encode rnd"

definition livekit_identity :: "pubkey \<Rightarrow> nat list \<Rightarrow> string" where
  "livekit_identity pk rnd = hex_of pk @ '':'' @ random_token rnd"

definition generate_livekit_token ::
  "livekit_outside \<Rightarrow> livekit_settings \<Rightarrow> group \<Rightarrow> pubkey \<Rightarrow> nat list \<Rightarrow> string" where
  "generate_livekit_token lo lk g pk rnd =
     lo_jwt lo (lk_api_key lk) (lk_api_secret lk) (JoinGrant (g_id g)) (livekit_identity pk rnd)"

datatype room_result = RoomReady | RoomFailed | RoomPanicked

definition ensure_livekit_room ::
  "livekit_outside \<Rightarrow> livekit_settings \<Rightarrow> group \<Rightarrow> string set \<Rightarrow> room_result \<times> string set" where
  "ensure_livekit_room lo lk g rooms =
     (if \<not> g_livekit g then (RoomFailed, rooms)
      else if g_id g \<in> rooms then (RoomReady, rooms)
      else case room_service_url lo lk ''CreateRoom'' of
             Panicked \<Rightarrow> (RoomPanicked, rooms)
           | Returned url \<Rightarrow>
               (case lo_create_room lo url (generate_server_token lo lk) (g_id g) of
                  None \<Rightarrow> (RoomFailed, rooms)
                | Some status \<Rightarrow>
                    if status = 200 \<or> status = 409 then (RoomReady, insert (g_id g) rooms)
                    else (RoomFailed, rooms)))"

text \<open>The keys of the listed identities: those too short or without a key are passed over.\<close>

fun participants_of :: "(pubkey \<Rightarrow> bool) \<Rightarrow> pubkey list \<Rightarrow> string list \<Rightarrow> pubkey list" where
  "participants_of valid acc [] = acc"
| "participants_of valid acc (x # xs) =
     (if length x < 64 then participants_of valid acc xs
      else case pubkey_from_hex valid (take 64 x) of
             None \<Rightarrow> participants_of valid acc xs
           | Some pk \<Rightarrow> participants_of valid (append_unique acc pk) xs)"

definition list_livekit_participants ::
  "livekit_outside \<Rightarrow> (pubkey \<Rightarrow> bool) \<Rightarrow> livekit_settings \<Rightarrow> group \<Rightarrow> pubkey list option outcome" where
  "list_livekit_participants lo valid lk g =
     (case room_service_url lo lk ''ListParticipants'' of
        Panicked \<Rightarrow> Panicked
      | Returned url \<Rightarrow>
          Returned (map_option (participants_of valid [])
            (lo_list lo url (generate_server_token lo lk) (g_id g))))"

subsection \<open>The handlers\<close>

datatype livekit_answer =
    LkNotFound | LkNoContent | LkBadRequest | LkUnauthorized | LkForbidden | LkServerError
  | LkToken string string | LkCrashed

definition livekit_status_handler :: "'d groups_state option \<Rightarrow> livekit_answer" where
  "livekit_status_handler st =
     (case st of
        None \<Rightarrow> LkNotFound
      | Some s \<Rightarrow> if livekit_configured (gs_livekit s) then LkNoContent else LkNotFound)"

text \<open>The event of the \<open>Authorization\<close> header (empty when the request has none).\<close>

definition authorization_event :: "livekit_outside \<Rightarrow> string \<Rightarrow> event option" where
  "authorization_event lo header =
     (case cut_at (CHR '' '') header of
        None \<Rightarrow> None
      | Some (scheme, code) \<Rightarrow>
          if scheme \<noteq> ''Nostr'' then None
          else case b64_decode code of
                 None \<Rightarrow> None
               | Some json \<Rightarrow>
                   (case lo_event_json lo json of
                      None \<Rightarrow> None
                    | Some e \<Rightarrow> if lo_verify lo e then Some e else None))"

definition livekit_url :: "'d groups_state \<Rightarrow> string \<Rightarrow> string" where
  "livekit_url s gid = gs_base_url s @ ''/.well-known/nip29/livekit/'' @ gid"

definition livekit_auth_handler ::
  "livekit_outside \<Rightarrow> nat list \<Rightarrow> 'd groups_state option \<Rightarrow> string \<Rightarrow> string \<Rightarrow> string set \<Rightarrow>
     livekit_answer \<times> string set" where
  "livekit_auth_handler lo rnd st gid header rooms =
     (case st of
        None \<Rightarrow> (LkNotFound, rooms)
      | Some s \<Rightarrow>
          if \<not> livekit_configured (gs_livekit s) then (LkNotFound, rooms)
          else if gid = [] then (LkBadRequest, rooms)
          else case gs_groups s gid of
                 None \<Rightarrow> (LkNotFound, rooms)
               | Some g \<Rightarrow>
                   (case authorization_event lo header of
                      None \<Rightarrow> (LkUnauthorized, rooms)
                    | Some e \<Rightarrow>
                        if ev_kind e \<noteq> 27235 then (LkUnauthorized, rooms)
                        else case tags_find (ev_tags e) ''u'' of
                               None \<Rightarrow> (LkUnauthorized, rooms)
                             | Some t \<Rightarrow>
                                 if length t < 2 \<or> t ! 1 \<noteq> livekit_url s gid then (LkUnauthorized, rooms)
                                 else if \<not> g_livekit g then (LkForbidden, rooms)
                                 else case ensure_livekit_room lo (gs_livekit s) g rooms of
                                        (RoomReady, r) \<Rightarrow>
                                          (LkToken (lk_server_url (gs_livekit s))
                                             (generate_livekit_token lo (gs_livekit s) g (ev_pubkey e) rnd), r)
                                      | (RoomFailed, r) \<Rightarrow> (LkServerError, r)
                                      | (RoomPanicked, r) \<Rightarrow> (LkCrashed, r)))"

text \<open>
  A webhook of the LiveKit server, as \<open>ReceiveWebhookEvent\<close> gives it (\<open>None\<close>: not signed with the
  secret). The new list of participants is signed, stored and broadcast; the errors of the first two
  are dropped.
\<close>

record webhook_event =
  we_event :: string
  we_room :: "string option"

definition set_participants :: "timestamp \<Rightarrow> pubkey list \<Rightarrow> group \<Rightarrow> group" where
  "set_participants now ps g = g\<lparr>g_participants := ps, g_last_participants := now\<rparr>"

definition livekit_webhook_handler ::
  "livekit_outside \<Rightarrow> 'd store_ops \<Rightarrow> crypto \<Rightarrow> timestamp \<Rightarrow> webhook_event option \<Rightarrow>
     'd groups_state option \<Rightarrow> livekit_answer \<times> event list \<times> 'd groups_state option" where
  "livekit_webhook_handler lo ops c now received st =
     (case st of
        None \<Rightarrow> (LkNotFound, [], st)
      | Some s \<Rightarrow>
          if lk_api_key (gs_livekit s) = [] \<or> lk_api_secret (gs_livekit s) = [] then (LkNotFound, [], st)
          else case received of
                 None \<Rightarrow> (LkUnauthorized, [], st)
               | Some w \<Rightarrow>
                   (case we_room w of
                      None \<Rightarrow> (LkBadRequest, [], st)
                    | Some gid \<Rightarrow>
                        if gid = [] then (LkBadRequest, [], st)
                        else case gs_groups s gid of
                               None \<Rightarrow> (LkNotFound, [], st)
                             | Some g \<Rightarrow>
                                 if \<not> g_livekit g then (LkForbidden, [], st)
                                 else if we_event w \<noteq> ''participant_joined'' \<and> we_event w \<noteq> ''participant_left''
                                 then (LkNoContent, [], st)
                                 else
                                   (case list_livekit_participants lo (cr_valid c) (gs_livekit s) g of
                                      Panicked \<Rightarrow> (LkCrashed, [], st)
                                    | Returned None \<Rightarrow> (LkNoContent, [], st)
                                    | Returned (Some ps) \<Rightarrow>
                                        let g' = set_participants now ps g;
                                            e = fst (event_sign c (gs_secret_key s) (to_participants_event g'))
                                        in (LkNoContent, [e],
                                            Some (s\<lparr>gs_groups := (gs_groups s)(gid \<mapsto> g'),
                                                    gs_db := snd (so_replace ops e (gs_db s))\<rparr>)))))"

subsection \<open>Who gets a token\<close>

lemma ensure_livekit_room_other:
  assumes "g_livekit g' = g_livekit g" "g_id g' = g_id g"
  shows "ensure_livekit_room lo lk g' rooms = ensure_livekit_room lo lk g rooms"
  unfolding ensure_livekit_room_def assms ..

lemma livekit_auth_token:
  assumes "livekit_auth_handler lo rnd (Some s) gid header rooms = (LkToken url tok, rooms')"
  obtains g e t where "livekit_configured (gs_livekit s)" "gid \<noteq> []" "gs_groups s gid = Some g"
    "authorization_event lo header = Some e" "ev_kind e = 27235" "tags_find (ev_tags e) ''u'' = Some t"
    "2 \<le> length t" "t ! 1 = livekit_url s gid" "g_livekit g"
    "ensure_livekit_room lo (gs_livekit s) g rooms = (RoomReady, rooms')"
    "url = lk_server_url (gs_livekit s)" "tok = generate_livekit_token lo (gs_livekit s) g (ev_pubkey e) rnd"
  using assms
  by (auto simp: livekit_auth_handler_def not_less split: option.splits if_splits prod.splits room_result.splits)

lemma authorization_event_verified: "authorization_event lo header = Some e \<Longrightarrow> lo_verify lo e"
  by (auto simp: authorization_event_def split: option.splits if_splits)

lemma identity_key: "take 64 (livekit_identity pk rnd) = hex_of pk"
  by (simp add: livekit_identity_def)

text \<open>
  C31. A token to join a room is given only for a group that exists and has LiveKit switched on, and
  only against an event of kind 27235 with a valid signature made for the URL of that group; it
  grants that room, and its identity begins with the key of the signer.
\<close>

theorem livekit_token_for_signer:
  assumes "livekit_auth_handler lo rnd (Some s) gid header rooms = (LkToken url tok, rooms')"
  shows "\<exists>g e t. gs_groups s gid = Some g \<and> g_livekit g \<and> authorization_event lo header = Some e \<and>
    lo_verify lo e \<and> ev_kind e = 27235 \<and> tags_find (ev_tags e) ''u'' = Some t \<and> t ! 1 = livekit_url s gid \<and>
    tok = lo_jwt lo (lk_api_key (gs_livekit s)) (lk_api_secret (gs_livekit s)) (JoinGrant (g_id g))
      (livekit_identity (ev_pubkey e) rnd) \<and>
    take 64 (livekit_identity (ev_pubkey e) rnd) = hex_of (ev_pubkey e)"
  using livekit_auth_token [OF assms]
  by (metis authorization_event_verified generate_livekit_token_def identity_key)

text \<open>
  Membership is not asked for: a request that gets a token gets the same one whoever the members
  of the group are, and whether or not the group is private or closed.
\<close>

theorem livekit_token_ignores_members:
  assumes "livekit_auth_handler lo rnd (Some s) gid header rooms = (LkToken url tok, rooms')"
    and "gs_groups s gid = Some g"
  shows "livekit_auth_handler lo rnd (Some (s\<lparr>gs_groups := (gs_groups s)(gid \<mapsto>
      g\<lparr>g_members := ms, g_private := p, g_closed := cl\<rparr>)\<rparr>)) gid header rooms = (LkToken url tok, rooms')"
proof -
  let ?g = "g\<lparr>g_members := ms, g_private := p, g_closed := cl\<rparr>"
  obtain e t where h: "livekit_configured (gs_livekit s)" "gid \<noteq> []"
    "authorization_event lo header = Some e" "ev_kind e = 27235" "tags_find (ev_tags e) ''u'' = Some t"
    "2 \<le> length t" "t ! 1 = livekit_url s gid" "g_livekit g"
    "ensure_livekit_room lo (gs_livekit s) g rooms = (RoomReady, rooms')"
    "url = lk_server_url (gs_livekit s)" "tok = generate_livekit_token lo (gs_livekit s) g (ev_pubkey e) rnd"
    using livekit_auth_token [OF assms(1)] assms(2) by (metis option.inject)
  have "ensure_livekit_room lo (gs_livekit s) ?g rooms = (RoomReady, rooms')"
    using ensure_livekit_room_other [of ?g g] h(9) by simp
  with h show ?thesis
    by (simp add: livekit_auth_handler_def livekit_url_def generate_livekit_token_def not_less)
qed

text \<open>
  The participants the relay reads off the LiveKit server are the holders of its tokens: from the
  identities it gave out it gets back their keys, each once.
\<close>

theorem identities_round_trip:
  assumes "\<forall>x \<in> set xs. valid (fst x)"
  shows "set (participants_of valid [] (map (\<lambda>(pk, rnd). livekit_identity pk rnd) xs)) = fst ` set xs \<and>
    distinct (participants_of valid [] (map (\<lambda>(pk, rnd). livekit_identity pk rnd) xs))"
proof -
  have "participants_of valid acc (map (\<lambda>(pk, rnd). livekit_identity pk rnd) xs) =
      foldl append_unique acc (map fst xs)" for acc
    using assms
  proof (induction xs arbitrary: acc)
    case (Cons x xs)
    obtain pk rnd where x: "x = (pk, rnd)" by (cases x)
    have "64 \<le> length (livekit_identity pk rnd)" by (simp add: livekit_identity_def)
    with Cons show ?case by (simp add: x identity_key)
  qed simp
  with foldl_append_unique [of "[]" "map fst xs"] show ?thesis by simp
qed

lemma webhook_participants:
  assumes "livekit_webhook_handler lo ops c now (Some w) (Some s) = (a, [e], Some s')"
  shows "\<exists>gid g ps. we_room w = Some gid \<and> gs_groups s gid = Some g \<and> g_livekit g \<and>
    gs_groups s' = (gs_groups s)(gid \<mapsto> set_participants now ps g) \<and>
    list_livekit_participants lo (cr_valid c) (gs_livekit s) g = Returned (Some ps) \<and>
    ev_kind e = kGroupLiveKit \<and> ev_created_at e = now \<and>
    ev_tags e = [''d'', g_id g] # map (\<lambda>pk. [''participant'', hex_of pk]) ps"
  using assms
  by (auto simp: livekit_webhook_handler_def Let_def to_participants_event_def set_participants_def
      split: option.splits if_splits outcome.splits)

text \<open>
  A group with LiveKit on, and a request whose event the outside decodes to one of key 5, no member.
\<close>

definition ex_livekit :: livekit_outside where
  "ex_livekit = \<lparr>lo_event_json = (\<lambda>_. Some (zero_event\<lparr>ev_pubkey := 5, ev_kind := 27235,
       ev_tags := [[''u'', ''http://r/.well-known/nip29/livekit/g'']]\<rparr>)),
     lo_verify = (\<lambda>_. True), lo_parse_url = (\<lambda>u. Some (''wss'', \<lambda>s. s @ u)),
     lo_jwt = (\<lambda>_ _ _ i. i), lo_create_room = (\<lambda>_ _ _. Some 200), lo_list = (\<lambda>_ _ _. Some [])\<rparr>"

definition ex_livekit_groups :: "slice_store groups_state" where
  "ex_livekit_groups = ex_groups\<lparr>gs_base_url := ''http://r'',
     gs_livekit := \<lparr>lk_server_url = ''wss://l'', lk_api_key = ''k'', lk_api_secret = ''s''\<rparr>,
     gs_groups := [''g'' \<mapsto> ex_group\<lparr>g_livekit := True\<rparr>]\<rparr>"

lemma ex_livekit_token:
  "livekit_auth_handler ex_livekit [1, 2] (Some ex_livekit_groups) ''g'' ''Nostr AAAA'' {} =
     (LkToken ''wss://l'' (livekit_identity 5 [1, 2]), {''g''})"
proof -
  have "cut_at (CHR '' '') ''Nostr AAAA'' = Some (''Nostr'', ''AAAA'')" by code_simp
  moreover have "b64_decode ''AAAA'' = Some (map char_of [0, 0, 0 :: nat])" by code_simp
  ultimately have "authorization_event ex_livekit ''Nostr AAAA'' = Some (zero_event\<lparr>ev_pubkey := 5,
      ev_kind := 27235, ev_tags := [[''u'', ''http://r/.well-known/nip29/livekit/g'']]\<rparr>)"
    by (simp add: authorization_event_def ex_livekit_def)
  then show ?thesis
    by (simp add: livekit_auth_handler_def ex_livekit_groups_def livekit_configured_def livekit_url_def
        ensure_livekit_room_def room_service_url_def generate_livekit_token_def ex_livekit_def)
qed

theorem livekit_token_for_signer_witness:
  "\<exists>g. gs_groups ex_livekit_groups ''g'' = Some g \<and> g_livekit g"
  using livekit_token_for_signer [OF ex_livekit_token] by blast

theorem livekit_token_ignores_members_witness:
  "fst (livekit_auth_handler ex_livekit [1, 2] (Some (ex_livekit_groups\<lparr>gs_groups :=
     (gs_groups ex_livekit_groups)(''g'' \<mapsto> (ex_group\<lparr>g_livekit := True\<rparr>)\<lparr>g_members := Map.empty,
       g_private := True, g_closed := True\<rparr>)\<rparr>)) ''g'' ''Nostr AAAA'' {}) = LkToken ''wss://l'' (livekit_identity 5 [1, 2])"
proof -
  have "gs_groups ex_livekit_groups ''g'' = Some (ex_group\<lparr>g_livekit := True\<rparr>)"
    by (simp add: ex_livekit_groups_def)
  from livekit_token_ignores_members [OF ex_livekit_token this] show ?thesis by simp
qed

theorem identities_round_trip_witness:
  "set (participants_of (\<lambda>_. True) [] [livekit_identity 5 [1, 2], livekit_identity 6 [3, 4],
     livekit_identity 5 [7, 8]]) = {5, 6}"
  using identities_round_trip [of "[(5, [1, 2]), (6, [3, 4]), (5, [7, 8])]" "\<lambda>_. True"]
  by (simp del: participants_of.simps add: insert_commute)

end
