(* ===== verification/Files.thy ===== *)
theory Files
  imports GroupState Web
begin

text \<open>
  The files the relay keeps for its users (\<^verbatim>\<open>blossom.go\<close>, \<^verbatim>\<open>fs/\<close>, \<^verbatim>\<open>filepathJoinWithAbsolute\<close> of
  \<^verbatim>\<open>utils.go\<close>) and the icon it serves (\<^verbatim>\<open>favicon.go\<close>). The object store and the directory are
  parameters, as is the HTTP client.
\<close>

subsection \<open>Paths\<close>

text \<open>
  \<open>path.Clean\<close> on Unix: the components, without empty ones and dots, each \<open>..\<close> taking the one before
  it. The second argument is the reversed result so far.
\<close>

fun clean_parts :: "bool \<Rightarrow> string list \<Rightarrow> string list \<Rightarrow> string list" where
  "clean_parts rooted acc [] = rev acc"
| "clean_parts rooted acc (p # ps) =
     (if p = [] \<or> p = ''.'' then clean_parts rooted acc ps
      else if p = ''..'' then
        (case acc of
           [] \<Rightarrow> clean_parts rooted (if rooted then [] else [p]) ps
         | a # as \<Rightarrow> clean_parts rooted (if a = ''..'' then p # acc else as) ps)
      else clean_parts rooted (p # acc) ps)"

definition is_abs :: "string \<Rightarrow> bool" where
  "is_abs p \<longleftrightarrow> starts_with ''/'' p"

definition clean_path :: "string \<Rightarrow> string" where
  "clean_path p =
     (let body = join_with ''/'' (clean_parts (is_abs p) [] (split_at (CHR ''/'') p))
      in if is_abs p then ''/'' @ body else if body = [] then ''.'' else body)"

text \<open>\<open>filepath.Join\<close>: leading empty elements are dropped, the rest is joined and cleaned.\<close>

definition file_join :: "string list \<Rightarrow> string" where
  "file_join ps =
     (case dropWhile (\<lambda>p. p = []) ps of [] \<Rightarrow> [] | qs \<Rightarrow> clean_path (join_with ''/'' qs))"

definition filepath_join_with_absolute :: "string list \<Rightarrow> string" where
  "filepath_join_with_absolute parts =
     fold (\<lambda>p res. if is_abs p then p else file_join [p]) (tl parts) (hd parts)"

subsection \<open>File systems\<close>

record 'f fs_ops =
  fo_save :: "string \<Rightarrow> string \<Rightarrow> 'f \<Rightarrow> bool \<times> 'f"
  fo_open :: "string \<Rightarrow> 'f \<Rightarrow> string option"
  fo_remove :: "string \<Rightarrow> 'f \<Rightarrow> bool \<times> 'f"

text \<open>
  The MinIO client: the entries a listing by prefix yields (objects, or an error in the middle of
  the listing, which is an entry too), and the operations on one object.
\<close>

datatype list_entry = ListedObject string | ListError

record 'f s3_client =
  sc_list :: "string \<Rightarrow> 'f \<Rightarrow> list_entry list"
  sc_put :: "string \<Rightarrow> string \<Rightarrow> 'f \<Rightarrow> bool \<times> 'f"
  sc_get :: "string \<Rightarrow> 'f \<Rightarrow> string option"
  sc_remove :: "string \<Rightarrow> 'f \<Rightarrow> bool \<times> 'f"

definition s3_save :: "'f s3_client \<Rightarrow> string \<Rightarrow> string \<Rightarrow> 'f \<Rightarrow> bool \<times> 'f" where
  "s3_save cl path data s = (if sc_list cl path s \<noteq> [] then (True, s) else sc_put cl path data s)"

definition s3_fs :: "'f s3_client \<Rightarrow> 'f fs_ops" where
  "s3_fs cl = \<lparr>fo_save = s3_save cl, fo_open = sc_get cl, fo_remove = sc_remove cl\<rparr>"

text \<open>A directory of the operating system; creating a file empties it, and a write can stop early.\<close>

record 'f os_dir =
  od_create :: "string \<Rightarrow> 'f \<Rightarrow> bool \<times> 'f"
  od_write :: "string \<Rightarrow> string \<Rightarrow> 'f \<Rightarrow> bool \<times> 'f"
  od_read :: "string \<Rightarrow> 'f \<Rightarrow> string option"
  od_remove :: "string \<Rightarrow> 'f \<Rightarrow> bool \<times> 'f"

definition subdir_save :: "'f os_dir \<Rightarrow> string \<Rightarrow> string \<Rightarrow> string \<Rightarrow> 'f \<Rightarrow> bool \<times> 'f" where
  "subdir_save os dir path data s =
     (case od_create os (file_join [dir, path]) s of
        (False, s1) \<Rightarrow> (False, s1)
      | (True, s1) \<Rightarrow> od_write os (file_join [dir, path]) data s1)"

definition subdir_fs :: "'f os_dir \<Rightarrow> string \<Rightarrow> 'f fs_ops" where
  "subdir_fs os dir =
     \<lparr>fo_save = subdir_save os dir,
      fo_open = (\<lambda>path. od_read os (file_join [dir, path])),
      fo_remove = (\<lambda>path. od_remove os (file_join [dir, path]))\<rparr>"

text \<open>What a blob store needs of a file system: a saved file opens, and others are left alone.\<close>

locale blob_files =
  fixes ops :: "'f fs_ops"
    and good :: "'f \<Rightarrow> bool"
    and names :: "string \<Rightarrow> bool"
  assumes save_good: "good s \<Longrightarrow> names p \<Longrightarrow> fo_save ops p d s = (True, s') \<Longrightarrow> good s'"
    and save_opens: "good s \<Longrightarrow> names p \<Longrightarrow> fo_save ops p d s = (True, s') \<Longrightarrow>
      fo_open ops p s = None \<Longrightarrow> fo_open ops p s' = Some d"
    and save_frame: "good s \<Longrightarrow> names p \<Longrightarrow> names q \<Longrightarrow> p \<noteq> q \<Longrightarrow> fo_save ops p d s = (True, s') \<Longrightarrow>
      fo_open ops q s' = fo_open ops q s"
    and remove_good: "good s \<Longrightarrow> names p \<Longrightarrow> fo_remove ops p s = (True, s') \<Longrightarrow> good s'"
    and remove_gone: "good s \<Longrightarrow> names p \<Longrightarrow> fo_remove ops p s = (True, s') \<Longrightarrow> fo_open ops p s' = None"
begin

lemma save_then_save:
  assumes "good s" "names p" "names q" "p \<noteq> q" "fo_open ops p s = None"
    and "fo_save ops p d s = (True, s1)" "fo_save ops q d' s1 = (True, s2)"
  shows "fo_open ops p s2 = Some d"
proof -
  have "good s1" "fo_open ops p s1 = Some d"
    by (rule save_good [OF assms(1,2,6)], rule save_opens [OF assms(1,2,6,5)])
  with save_frame [OF _ assms(3,2) _ assms(7)] assms(4) show ?thesis by metis
qed

end

subsection \<open>A bucket\<close>

text \<open>
  A bucket as an association list. The file system over it is a blob store for names of one length,
  the hashes. It is none for hashes with extensions: a listing by prefix also finds longer names.
\<close>

definition bucket_client :: "(string \<times> string) list s3_client" where
  "bucket_client =
     \<lparr>sc_list = (\<lambda>p s. map (\<lambda>e. ListedObject (fst e)) (filter (\<lambda>e. starts_with p (fst e)) s)),
      sc_put = (\<lambda>p d s. (True, (p, d) # filter (\<lambda>e. fst e \<noteq> p) s)),
      sc_get = (\<lambda>p s. map_of s p),
      sc_remove = (\<lambda>p s. (True, filter (\<lambda>e. fst e \<noteq> p) s))\<rparr>"

lemma starts_with_same_length: "length p = length q \<Longrightarrow> starts_with p q \<longleftrightarrow> p = q"
  by (auto simp: starts_with_def)

lemma map_of_other: "q \<noteq> p \<Longrightarrow> map_of (filter (\<lambda>e. fst e \<noteq> p) s) q = map_of s q"
  by (induction s) auto

lemma map_of_dropped: "map_of (filter (\<lambda>e. fst e \<noteq> p) s) p = None"
  by (auto simp: map_of_eq_None_iff)

lemma bucket_save:
  assumes "list_all (\<lambda>e. length (fst e) = n) s" "length p = n"
  shows "fo_save (s3_fs bucket_client) p d s =
    (True, if map_of s p \<noteq> None then s else (p, d) # filter (\<lambda>e. fst e \<noteq> p) s)"
proof -
  have "filter (\<lambda>e. starts_with p (fst e)) s = filter (\<lambda>e. p = fst e) s"
    by (rule filter_cong [OF refl]) (use assms in \<open>auto simp: list_all_iff intro!: starts_with_same_length\<close>)
  moreover have "filter (\<lambda>e. p = fst e) s = [] \<longleftrightarrow> map_of s p = None"
    by (auto simp: filter_empty_conv map_of_eq_None_iff)
  ultimately show ?thesis by (simp add: s3_fs_def s3_save_def bucket_client_def)
qed

interpretation s3files: blob_files "s3_fs bucket_client" "list_all (\<lambda>e. length (fst e) = n)" "\<lambda>p. length p = n"
  for n
proof
  fix s p d s' assume a: "list_all (\<lambda>e. length (fst e) = n) s" "length p = n"
    "fo_save (s3_fs bucket_client) p d s = (True, s')"
  from a show "list_all (\<lambda>e. length (fst e) = n) s'"
    by (simp only: bucket_save [OF a(1,2)]) (auto simp: list_all_iff split: if_splits)
  from a show "fo_open (s3_fs bucket_client) p s = None \<Longrightarrow> fo_open (s3_fs bucket_client) p s' = Some d"
    by (simp only: bucket_save [OF a(1,2)]) (auto simp: s3_fs_def bucket_client_def)
next
  fix s p q d s' assume a: "list_all (\<lambda>e. length (fst e) = n) s" "length p = n" "p \<noteq> q"
    "fo_save (s3_fs bucket_client) p d s = (True, s')"
  from a(3,4) show "fo_open (s3_fs bucket_client) q s' = fo_open (s3_fs bucket_client) q s"
    by (simp only: bucket_save [OF a(1,2)]) (auto simp: s3_fs_def bucket_client_def map_of_other)
qed (auto simp: s3_fs_def bucket_client_def list_all_iff map_of_dropped)

text \<open>
  Saving to S3 loses files: where the bucket has an object whose name only begins with the name
  to save, or where the listing fails, nothing is stored and success is reported.
\<close>

theorem s3_save_may_lose:
  assumes "sc_list cl p s \<noteq> []" "sc_get cl p s = None"
  shows "fo_save (s3_fs cl) p d s = (True, s) \<and> fo_open (s3_fs cl) p s = None"
  using assms by (simp add: s3_fs_def s3_save_def)

theorem s3_save_may_lose_witness:
  "fo_save (s3_fs bucket_client) ''ab'' ''data'' [(''ab.png'', ''x'')] = (True, [(''ab.png'', ''x'')]) \<and>
   fo_open (s3_fs bucket_client) ''ab'' [(''ab.png'', ''x'')] = None"
  by (rule s3_save_may_lose) (simp_all add: bucket_client_def starts_with_def)

subsection \<open>A directory\<close>

text \<open>A name without slashes that is not a dot stays below the directory, whatever the name is.\<close>

definition plain_name :: "string \<Rightarrow> bool" where
  "plain_name p \<longleftrightarrow> p \<noteq> [] \<and> CHR ''/'' \<notin> set p \<and> p \<noteq> ''.'' \<and> p \<noteq> ''..''"

lemma split_at_snoc: "c \<notin> set x \<Longrightarrow> split_at c (s @ c # x) = split_at c s @ [x]"
  by (induction s) (auto simp: split_at_free split: list.split)

lemma clean_parts_snoc:
  "plain_name p \<Longrightarrow> clean_parts r acc (ps @ [p]) = clean_parts r acc ps @ [p]"
  by (induction ps arbitrary: acc) (auto simp: plain_name_def split: list.split)

definition part_ok :: "string \<Rightarrow> bool" where
  "part_ok x \<longleftrightarrow> x \<noteq> [] \<and> CHR ''/'' \<notin> set x \<and> x \<noteq> ''.''"

lemma clean_parts_ok:
  "list_all part_ok acc \<Longrightarrow> list_all (\<lambda>x. CHR ''/'' \<notin> set x) ps \<Longrightarrow>
   list_all part_ok (clean_parts r acc ps)"
proof (induction ps arbitrary: acc)
  case (Cons p ps)
  have "list_all part_ok (if r then [] else [''..''])" by (simp add: part_ok_def)
  with Cons show ?case
    by (cases acc) (simp_all add: part_ok_def split del: if_split split: if_split_asm, simp_all add: part_ok_def)
qed simp

lemma join_parts_ok:
  assumes "list_all part_ok cs" "cs \<noteq> []"
  shows "join_with ''/'' cs \<noteq> [] \<and> hd (join_with ''/'' cs) \<noteq> CHR ''/'' \<and> join_with ''/'' cs \<noteq> ''.''"
proof (cases cs)
  case (Cons x r)
  with assms(1) have "x \<noteq> []" "hd x \<noteq> CHR ''/''" "x \<noteq> ''.''"
    by (auto simp: part_ok_def) (metis list.set_sel(1))
  with Cons show ?thesis by (cases r; cases x) auto
qed (use assms(2) in simp)

text \<open>The path of a name: the cleaned directory, a slash, the name.\<close>

lemma file_join_plain:
  assumes "dir \<noteq> []" "plain_name p"
  shows "file_join [dir, p] =
    (let c = clean_path dir in if c = ''/'' then ''/'' @ p else if c = ''.'' then p else c @ ''/'' @ p)"
proof -
  let ?cs = "clean_parts (is_abs dir) [] (split_at (CHR ''/'') dir)"
  have cs: "list_all part_ok ?cs" by (rule clean_parts_ok) (auto simp: list_all_iff dest: split_at_parts)
  have abs: "is_abs (dir @ x) = is_abs dir" for x
    using assms(1) by (cases dir) (auto simp: is_abs_def starts_with_def)
  have "split_at (CHR ''/'') (dir @ CHR ''/'' # p) = split_at (CHR ''/'') dir @ [p]"
    using assms(2) by (intro split_at_snoc) (simp add: plain_name_def)
  then have parts: "clean_parts (is_abs dir) [] (split_at (CHR ''/'') (dir @ CHR ''/'' # p)) = ?cs @ [p]"
    by (simp add: clean_parts_snoc [OF assms(2)])
  have p: "p \<noteq> []" using assms(2) by (simp add: plain_name_def)
  have "file_join [dir, p] = clean_path (dir @ CHR ''/'' # p)"
    using assms(1) by (simp add: file_join_def)
  also have "\<dots> = (if is_abs dir then ''/'' else []) @ (if ?cs = [] then p else join_with ''/'' ?cs @ ''/'' @ p)"
    unfolding clean_path_def abs parts Let_def using p by (simp add: join_snoc)
  finally have j: "file_join [dir, p] = (if is_abs dir then ''/'' else []) @
      (if ?cs = [] then p else join_with ''/'' ?cs @ ''/'' @ p)" .
  show ?thesis
  proof (cases "?cs = []")
    case True
    with j show ?thesis by (simp add: clean_path_def Let_def)
  next
    case False
    with join_parts_ok [OF cs] have "join_with ''/'' ?cs \<noteq> []" "join_with ''/'' ?cs \<noteq> ''.''"
        "join_with ''/'' ?cs \<noteq> ''/''" by auto
    with j False show ?thesis
      by (cases "is_abs dir") (simp_all add: clean_path_def Let_def)
  qed
qed

lemma file_join_inject:
  "dir \<noteq> [] \<Longrightarrow> plain_name p \<Longrightarrow> plain_name q \<Longrightarrow> file_join [dir, p] = file_join [dir, q] \<longleftrightarrow> p = q"
  by (simp add: file_join_plain Let_def)

text \<open>A directory in memory; over it the file system is a blob store for all plain names.\<close>

definition memory_dir :: "(string \<rightharpoonup> string) os_dir" where
  "memory_dir =
     \<lparr>od_create = (\<lambda>p s. (True, s(p \<mapsto> []))),
      od_write = (\<lambda>p d s. (True, s(p \<mapsto> d))),
      od_read = (\<lambda>p s. s p),
      od_remove = (\<lambda>p s. (s p \<noteq> None, s(p := None)))\<rparr>"

interpretation dirfiles: blob_files "subdir_fs memory_dir (CHR ''/'' # dir)" "\<lambda>_. True" plain_name for dir
  by unfold_locales
    (auto simp: subdir_fs_def subdir_save_def memory_dir_def file_join_inject)

subsection \<open>The Blossom server\<close>

text \<open>
  \<open>NewS3FS\<close>, given the client \<open>minio.New\<close> answers and whether the bucket exists (\<open>None\<close>: it cannot be
  asked), and \<open>NewSubdirFS\<close>, given the directories that can be made.
\<close>

datatype s3_failure = S3NotConnected | S3NotContacted | S3NoBucket

definition new_s3_fs :: "'f s3_client option \<Rightarrow> bool option \<Rightarrow> s3_failure + 'f fs_ops" where
  "new_s3_fs client exists =
     (case client of
        None \<Rightarrow> Inl S3NotConnected
      | Some cl \<Rightarrow>
          (case exists of
             None \<Rightarrow> Inl S3NotContacted
           | Some False \<Rightarrow> Inl S3NoBucket
           | Some True \<Rightarrow> Inr (s3_fs cl)))"

definition new_subdir_fs :: "'f os_dir \<Rightarrow> (string \<Rightarrow> bool) \<Rightarrow> string \<Rightarrow> 'f fs_ops option" where
  "new_subdir_fs os mkdir path = (if mkdir path then Some (subdir_fs os path) else None)"

text \<open>The globals of \<^verbatim>\<open>blossom.go\<close>: whether there are a server and an index, and the file system.\<close>

record 'f blossom_globals =
  bg_server :: bool
  bg_index :: bool
  bg_files :: "'f fs_ops option"

definition reset_blossom :: "'f blossom_globals" where
  "reset_blossom = \<lparr>bg_server = False, bg_index = False, bg_files = None\<rparr>"

text \<open>
  \<open>initBlossom\<close>: the index needs the mmm manager and its layer; with an S3 account the blobs go to the
  bucket, else to a directory. The globals are assigned on the way, the error notwithstanding.
\<close>

datatype blossom_error = NoManager | NoIndex | S3Failed s3_failure | DirFailed

definition uses_s3 :: "blossom_settings \<Rightarrow> bool" where
  "uses_s3 b \<longleftrightarrow> bl_s3_key_id b \<noteq> [] \<and> bl_s3_secret b \<noteq> [] \<and> bl_s3_bucket b \<noteq> []"

definition init_blossom ::
  "bool \<Rightarrow> bool \<Rightarrow> 'f s3_client option \<Rightarrow> bool option \<Rightarrow> 'f os_dir \<Rightarrow> (string \<Rightarrow> bool) \<Rightarrow> string \<Rightarrow>
     blossom_settings \<Rightarrow> 'f blossom_globals \<Rightarrow> blossom_error option \<times> 'f blossom_globals" where
  "init_blossom manager layer_ok client exists os mkdir data_path b g =
     (if \<not> manager then (Some NoManager, g)
      else if \<not> layer_ok then (Some NoIndex, g)
      else
        let g1 = g\<lparr>bg_index := True\<rparr>
        in if uses_s3 b then
             (case new_s3_fs client exists of
                Inl e \<Rightarrow> (Some (S3Failed e), g1\<lparr>bg_files := None\<rparr>)
              | Inr f \<Rightarrow> (None, g1\<lparr>bg_files := Some f, bg_server := True\<rparr>))
           else
             (case new_subdir_fs os mkdir (filepath_join_with_absolute [data_path, bl_local_path b]) of
                None \<Rightarrow> (Some DirFailed, g1\<lparr>bg_files := None\<rparr>)
              | Some f \<Rightarrow> (None, g1\<lparr>bg_files := Some f, bg_server := True\<rparr>)))"

text \<open>The end of \<open>configureRelay\<close>: the server is set up or taken down.\<close>

definition configure_blossom ::
  "bool \<Rightarrow> ('f blossom_globals \<Rightarrow> blossom_error option \<times> 'f blossom_globals) \<Rightarrow> 'f blossom_globals \<Rightarrow>
     blossom_error option \<times> 'f blossom_globals" where
  "configure_blossom enabled init g = (if enabled then init g else (None, reset_blossom))"

text \<open>
  A Blossom server that cannot be set up again takes the files from the one that goes on serving: the
  file system is nil then, and the hooks of the old relay call it.
\<close>

theorem failed_init_loses_files:
  assumes "init_blossom True True client exists os mkdir data_path b g = (Some e, g')"
  shows "bg_files g' = None \<and> bg_server g' = bg_server g"
  using assms by (auto simp: init_blossom_def Let_def split: if_splits sum.splits option.splits)

theorem failed_init_loses_files_witness:
  "bg_files (snd (init_blossom True True None None memory_dir (\<lambda>_. False) ''d'' (st_blossom (default_settings 7))
     \<lparr>bg_server = True, bg_index = True, bg_files = Some (subdir_fs memory_dir ''d'')\<rparr>)) = None"
proof -
  have "fst (init_blossom True True None None memory_dir (\<lambda>_. False) ''d'' (st_blossom (default_settings 7))
      \<lparr>bg_server = True, bg_index = True, bg_files = Some (subdir_fs memory_dir ''d'')\<rparr>) = Some DirFailed"
    by (simp add: init_blossom_def uses_s3_def default_settings_def new_subdir_fs_def)
  then show ?thesis by (metis failed_init_loses_files prod.collapse)
qed

definition store_blob :: "'f fs_ops \<Rightarrow> string \<Rightarrow> string \<Rightarrow> string \<Rightarrow> 'f \<Rightarrow> bool \<times> 'f" where
  "store_blob ops sha256 ext body = fo_save ops (sha256 @ ext) body"

text \<open>\<open>LoadBlob\<close>: a redirect if one is configured and parses (\<open>redirect\<close> adds the name to it), else
  the file.\<close>

datatype blob_answer = BlobBadBase | BlobMissing | BlobRedirect string | BlobData string

definition load_blob ::
  "(string \<Rightarrow> string \<Rightarrow> string option) \<Rightarrow> blossom_settings \<Rightarrow> 'f fs_ops \<Rightarrow> string \<Rightarrow> string \<Rightarrow> 'f \<Rightarrow> blob_answer" where
  "load_blob redirect b ops sha256 ext s =
     (if bl_s3_redirect_base_url b \<noteq> [] then
        (case redirect (bl_s3_redirect_base_url b) (sha256 @ ext) of
           None \<Rightarrow> BlobBadBase
         | Some u \<Rightarrow> BlobRedirect u)
      else case fo_open ops (sha256 @ ext) s of None \<Rightarrow> BlobMissing | Some d \<Rightarrow> BlobData d)"

definition delete_blob :: "'f fs_ops \<Rightarrow> string \<Rightarrow> string \<Rightarrow> 'f \<Rightarrow> bool \<times> 'f" where
  "delete_blob ops sha256 ext = fo_remove ops (sha256 @ ext)"

datatype upload_answer = UploadNoAuth | UploadNotMember | UploadAllowed

definition reject_upload :: "event option \<Rightarrow> (pubkey \<rightharpoonup> int) \<Rightarrow> upload_answer" where
  "reject_upload auth members =
     (case auth of
        None \<Rightarrow> UploadNoAuth
      | Some e \<Rightarrow> if members (ev_pubkey e) = None then UploadNotMember else UploadAllowed)"

text \<open>
  In the local directory blobs do not disturb each other: a new blob is served with its bytes,
  also after another one was stored, for any two different plain names.
\<close>

theorem local_blobs_kept:
  assumes "bl_s3_redirect_base_url b = []" "plain_name (h @ x)" "plain_name (h' @ x')" "h @ x \<noteq> h' @ x'"
    and "fo_open (subdir_fs memory_dir (CHR ''/'' # dir)) (h @ x) s = None"
    and "store_blob (subdir_fs memory_dir (CHR ''/'' # dir)) h x d s = (True, s1)"
    and "store_blob (subdir_fs memory_dir (CHR ''/'' # dir)) h' x' d' s1 = (True, s2)"
  shows "load_blob redirect b (subdir_fs memory_dir (CHR ''/'' # dir)) h x s2 = BlobData d"
  using assms dirfiles.save_then_save [of "h @ x" "h' @ x'" dir s d s1 d' s2]
  by (simp add: load_blob_def store_blob_def)

theorem local_blobs_kept_witness:
  "load_blob (\<lambda>_ _. None) (st_blossom (default_settings 7)) (subdir_fs memory_dir (CHR ''/'' # ''d'')) ''a'' ''.x''
     (snd (store_blob (subdir_fs memory_dir (CHR ''/'' # ''d'')) ''b'' ''.x'' ''two''
       (snd (store_blob (subdir_fs memory_dir (CHR ''/'' # ''d'')) ''a'' ''.x'' ''one'' Map.empty)))) = BlobData ''one''"
proof (rule local_blobs_kept)
  show "store_blob (subdir_fs memory_dir (CHR ''/'' # ''d'')) ''a'' ''.x'' ''one'' Map.empty =
      (True, snd (store_blob (subdir_fs memory_dir (CHR ''/'' # ''d'')) ''a'' ''.x'' ''one'' Map.empty))"
    by (simp add: store_blob_def subdir_fs_def subdir_save_def memory_dir_def)
  show "store_blob (subdir_fs memory_dir (CHR ''/'' # ''d'')) ''b'' ''.x'' ''two''
       (snd (store_blob (subdir_fs memory_dir (CHR ''/'' # ''d'')) ''a'' ''.x'' ''one'' Map.empty)) =
      (True, snd (store_blob (subdir_fs memory_dir (CHR ''/'' # ''d'')) ''b'' ''.x'' ''two''
       (snd (store_blob (subdir_fs memory_dir (CHR ''/'' # ''d'')) ''a'' ''.x'' ''one'' Map.empty))))"
    by (simp add: store_blob_def subdir_fs_def subdir_save_def memory_dir_def)
qed (simp_all add: default_settings_def plain_name_def subdir_fs_def memory_dir_def)

text \<open>
  A relative Blossom directory is not taken below the data path of the relay: joining it drops
  everything before it.
\<close>

theorem relative_path_drops_base:
  assumes "p \<noteq> []" "\<not> is_abs p"
  shows "filepath_join_with_absolute [base, p] = clean_path p"
  using assms by (simp add: filepath_join_with_absolute_def file_join_def)

theorem relative_path_drops_base_witness:
  "filepath_join_with_absolute [''/data'', ''blossom-files''] = ''blossom-files''"
proof -
  have "clean_path ''blossom-files'' = ''blossom-files''" by code_simp
  then show ?thesis
    using relative_path_drops_base [of "''blossom-files''" "''/data''"] by (simp add: is_abs_def starts_with_def)
qed

subsection \<open>The icon\<close>

text \<open>
  What fetching an URL gives (\<open>None\<close>: the request failed), and the detection of a content type; both
  are parameters.
\<close>

record http_response =
  hr_status :: int
  hr_body :: string
  hr_read_ok :: bool
  hr_content_type :: string

definition max_favicon_size :: nat where
  "max_favicon_size = 2097152"

definition fetch_icon ::
  "(string \<Rightarrow> string) \<Rightarrow> (string \<Rightarrow> http_response option) \<Rightarrow> string \<Rightarrow> (string \<times> string) option" where
  "fetch_icon detect net url =
     (case net url of
        None \<Rightarrow> None
      | Some r \<Rightarrow>
          if hr_status r < 200 \<or> 300 \<le> hr_status r then None
          else if \<not> hr_read_ok r then None
          else let body = take max_favicon_size (hr_body r)
               in if body = [] then None
                  else Some (body, if hr_content_type r = [] then detect body else hr_content_type r))"

record favicon_cache =
  fv_url :: string
  fv_data :: string
  fv_content_type :: string
  fv_logo_data :: string
  fv_logo_content_type :: string

definition favicon_logo ::
  "(string \<Rightarrow> string) \<Rightarrow> string option \<Rightarrow> favicon_cache \<Rightarrow> (string \<times> string) \<times> favicon_cache" where
  "favicon_logo detect logo_file c =
     (if fv_logo_data c \<noteq> [] then ((fv_logo_data c, fv_logo_content_type c), c)
      else case logo_file of
             None \<Rightarrow> (([], []), c)
           | Some d \<Rightarrow> ((d, detect d), c\<lparr>fv_logo_data := d, fv_logo_content_type := detect d\<rparr>))"

definition favicon_get ::
  "(string \<Rightarrow> string) \<Rightarrow> (string \<Rightarrow> http_response option) \<Rightarrow> string option \<Rightarrow> string \<Rightarrow> favicon_cache \<Rightarrow>
     (string \<times> string) \<times> favicon_cache" where
  "favicon_get detect net logo_file url c =
     (if url = [] then favicon_logo detect logo_file c
      else if url = fv_url c \<and> fv_data c \<noteq> [] then ((fv_data c, fv_content_type c), c)
      else case fetch_icon detect net url of
             None \<Rightarrow> favicon_logo detect logo_file c
           | Some (d, t) \<Rightarrow> ((d, t), c\<lparr>fv_url := url, fv_data := d, fv_content_type := t\<rparr>))"

datatype favicon_answer = FaviconNotFound | FaviconServed string string

definition favicon_handler ::
  "(string \<Rightarrow> string) \<Rightarrow> (string \<Rightarrow> http_response option) \<Rightarrow> string option \<Rightarrow> settings \<Rightarrow> favicon_cache \<Rightarrow>
     favicon_answer \<times> favicon_cache" where
  "favicon_handler detect net logo_file s c =
     (case favicon_get detect net logo_file (st_relay_icon s) c of
        ((d, t), c') \<Rightarrow> (if d = [] then FaviconNotFound else FaviconServed t d, c'))"

definition uncached_icon ::
  "(string \<Rightarrow> string) \<Rightarrow> (string \<Rightarrow> http_response option) \<Rightarrow> string option \<Rightarrow> string \<Rightarrow> string \<times> string" where
  "uncached_icon detect net logo_file url =
     (case (if url = [] then None else fetch_icon detect net url) of
        Some r \<Rightarrow> r
      | None \<Rightarrow> (case logo_file of None \<Rightarrow> ([], []) | Some d \<Rightarrow> (d, detect d)))"

definition favicon_ok ::
  "(string \<Rightarrow> string) \<Rightarrow> (string \<Rightarrow> http_response option) \<Rightarrow> string option \<Rightarrow> favicon_cache \<Rightarrow> bool" where
  "favicon_ok detect net logo_file c \<longleftrightarrow>
     (fv_data c \<noteq> [] \<longrightarrow> fetch_icon detect net (fv_url c) = Some (fv_data c, fv_content_type c)) \<and>
     (fv_logo_data c \<noteq> [] \<longrightarrow> logo_file = Some (fv_logo_data c) \<and> fv_logo_content_type c = detect (fv_logo_data c))"

lemma fetch_icon_bounds: "fetch_icon detect net url = Some (d, t) \<Longrightarrow> d \<noteq> [] \<and> length d \<le> max_favicon_size"
  by (auto simp: fetch_icon_def Let_def split: option.splits if_splits)

lemma favicon_logo_uncached:
  assumes "favicon_ok detect net logo_file c" "url = [] \<or> fetch_icon detect net url = None"
  shows "fst (favicon_logo detect logo_file c) = uncached_icon detect net logo_file url \<and>
    favicon_ok detect net logo_file (snd (favicon_logo detect logo_file c))"
  using assms by (cases logo_file) (auto simp: favicon_logo_def uncached_icon_def favicon_ok_def)

text \<open>
  Caching the icon is invisible: as long as the icon's server answers alike, the handler serves
  what it would serve without a cache (the icon of the settings, or the built-in logo when there is
  none or it cannot be had), never more than two megabytes of a fetched icon, and the cache stays
  true.
\<close>

theorem favicon_cache_transparent:
  assumes "favicon_ok detect net logo_file c"
  shows "favicon_ok detect net logo_file (snd (favicon_handler detect net logo_file s c)) \<and>
    fst (favicon_handler detect net logo_file s c) =
      (case uncached_icon detect net logo_file (st_relay_icon s) of
         (d, t) \<Rightarrow> if d = [] then FaviconNotFound else FaviconServed t d) \<and>
    (case fetch_icon detect net (st_relay_icon s) of
       None \<Rightarrow> True | Some (d, t) \<Rightarrow> d \<noteq> [] \<and> length d \<le> max_favicon_size)"
proof -
  let ?g = "favicon_get detect net logo_file (st_relay_icon s) c"
  have g: "fst ?g = uncached_icon detect net logo_file (st_relay_icon s) \<and> favicon_ok detect net logo_file (snd ?g)"
  proof (cases "st_relay_icon s = [] \<or> fetch_icon detect net (st_relay_icon s) = None")
    case True
    with assms have "?g = favicon_logo detect logo_file c"
      by (auto simp: favicon_get_def favicon_ok_def)
    with favicon_logo_uncached [OF assms True] show ?thesis by simp
  next
    case False
    then obtain d t where "fetch_icon detect net (st_relay_icon s) = Some (d, t)" by auto
    with False assms show ?thesis
      by (auto simp: favicon_get_def uncached_icon_def favicon_ok_def)
  qed
  then show ?thesis using fetch_icon_bounds
    by (auto simp: favicon_handler_def split: prod.split option.split)
qed

theorem favicon_cache_transparent_witness:
  "fst (favicon_handler (\<lambda>_. ''image/png'') (\<lambda>_. None) (Some ''logo'')
     (default_settings 7) \<lparr>fv_url = [], fv_data = [], fv_content_type = [], fv_logo_data = [], fv_logo_content_type = []\<rparr>)
   = FaviconServed ''image/png'' ''logo''"
proof -
  have "favicon_ok (\<lambda>_. ''image/png'') (\<lambda>_. None) (Some ''logo'')
      \<lparr>fv_url = [], fv_data = [], fv_content_type = [], fv_logo_data = [], fv_logo_content_type = []\<rparr>"
    by (simp add: favicon_ok_def)
  from favicon_cache_transparent [OF this, of "default_settings 7"] show ?thesis
    by (simp add: uncached_icon_def default_settings_def)
qed

end
