(* ===== verification/Lifecycle.thy ===== *)
theory Lifecycle
  imports GroupState Web
begin

text \<open>
  The life of the process (\<^verbatim>\<open>main.go\<close>, \<open>initStore\<close> of \<^verbatim>\<open>store.go\<close>) and the replacement of the relay when
  the settings change (\<^verbatim>\<open>relay.go\<close>). A run is the list of what it does to the store, the sockets and
  the log; what the operating system answers is an input.
\<close>

subsection \<open>Starting and stopping\<close>

datatype run_action =
    OpenManager | CloseManager
  | OpenEventLog | LoadGroups | ConfigureRelay
  | Listen string | Serve | ShutdownServer | CloseHijacked | CloseGate

record run_inputs =
  ri_mkdir_ok :: bool
  ri_manager_ok :: bool
  ri_layer_ok :: bool
  ri_groups_ok :: bool
  ri_configure_ok :: bool
  ri_listen_ok :: "string \<Rightarrow> bool"
  ri_serve_fails :: bool
  ri_shutdown_ok :: bool
  ri_drained :: bool

datatype run_error = StoreInit | RelayInit | ServerError | ShutdownIncomplete | StoreLeftOpen

datatype run_result = RunReturned "run_error list" | RunPanicked

text \<open>\<open>initStore\<close>: what it did, and whether it gives a store.\<close>

definition init_store :: "run_inputs \<Rightarrow> run_action list \<times> bool" where
  "init_store i =
     (if \<not> ri_mkdir_ok i then ([], False)
      else if \<not> ri_manager_ok i then ([], False)
      else if \<not> ri_layer_ok i then ([OpenManager, CloseManager], False)
      else ([OpenManager], True))"

text \<open>The deferred \<open>closeStore\<close>: a store that does not drain in time is left open.\<close>

definition close_store_run :: "run_inputs \<Rightarrow> run_action list \<times> run_error list" where
  "close_store_run i =
     (if ri_drained i then ([CloseGate, CloseManager], []) else ([CloseGate], [StoreLeftOpen]))"

definition shutdown_server :: "run_inputs \<Rightarrow> run_action list \<times> run_error list" where
  "shutdown_server i =
     ([ShutdownServer, CloseHijacked], if ri_shutdown_ok i then [] else [ShutdownIncomplete])"

text \<open>
  The body of \<open>run\<close> once the store is open; \<open>None\<close> is the panic of \<open>NewGroupsState\<close>. The two URLs are
  computed first, and change the host of the environment.
\<close>

definition listen_address :: "env \<Rightarrow> string" where
  "listen_address e =
     (let e1 = snd (relay_base_url e); e2 = snd (relay_ws_url e1)
      in join_host_port (en_host e2) (en_port e2))"

definition run_body :: "env \<Rightarrow> run_inputs \<Rightarrow> run_action list \<times> run_error list option" where
  "run_body e i =
     (if \<not> ri_groups_ok i then ([OpenEventLog, LoadGroups], None)
      else if \<not> ri_configure_ok i then ([OpenEventLog, LoadGroups, ConfigureRelay], Some [RelayInit])
      else if \<not> ri_listen_ok i (listen_address e) then
        ([OpenEventLog, LoadGroups, ConfigureRelay, Listen (listen_address e)], Some [ServerError])
      else
        let as = [OpenEventLog, LoadGroups, ConfigureRelay, Listen (listen_address e), Serve]
        in if ri_serve_fails i then (as @ [CloseHijacked], Some [ServerError])
           else case shutdown_server i of (bs, errs) \<Rightarrow> (as @ bs, Some errs))"

definition run_relay :: "env \<Rightarrow> run_inputs \<Rightarrow> run_action list \<times> run_result" where
  "run_relay e i =
     (case init_store i of
        (as, False) \<Rightarrow> (as, RunReturned [StoreInit])
      | (as, True) \<Rightarrow>
          (case run_body e i of
             (bs, r) \<Rightarrow>
               (case close_store_run i of
                  (cs, errs) \<Rightarrow>
                    (as @ bs @ cs,
                     case r of None \<Rightarrow> RunPanicked | Some es \<Rightarrow> RunReturned (es @ errs)))))"



text \<open>
  Served from all addresses without a domain, the relay listens on a host named
  \<open>localE.Host\<close>: computing its URLs has overwritten the host to listen on.
\<close>

theorem wildcard_host_lost:
  assumes "en_host e = ''0.0.0.0'' \<or> en_host e = ''::''" "en_domain e = []"
  shows "listen_address e = ''localE.Host:'' @ en_port e"
  using assms by (auto simp: listen_address_def relay_base_url_def relay_ws_url_def localise_host_def
      join_host_port_def Let_def)

theorem wildcard_host_lost_witness:
  "listen_address (ex_env\<lparr>en_host := ''0.0.0.0''\<rparr>) = ''localE.Host:9888''"
  using wildcard_host_lost [of "ex_env\<lparr>en_host := ''0.0.0.0''\<rparr>"] by (simp add: ex_env_def)

subsection \<open>Replacing the relay\<close>

text \<open>
  What a new relay says of itself, and what \<open>configureRelay\<close> sets of it: its address and
  information document, and whether a Blossom server came with it.
\<close>

record relay_info =
  ri_service_url :: string
  ri_name :: string
  ri_description :: string
  ri_contact :: string
  ri_icon :: string
  ri_software :: string
  ri_pubkey :: "pubkey option"
  ri_self :: "pubkey option"
  ri_nips :: "nat list"
  ri_negentropy :: bool
  ri_blossom :: bool

definition new_relay :: relay_info where
  "new_relay = \<lparr>ri_service_url = [], ri_name = [], ri_description = [], ri_contact = [], ri_icon = [],
     ri_software = ''https://pkg.go.dev/fiatjaf.com/nostr/khatru'', ri_pubkey = None, ri_self = None,
     ri_nips = [1, 11, 42, 70, 86], ri_negentropy = False, ri_blossom = False\<rparr>"

definition add_supported_nip :: "nat \<Rightarrow> nat list \<Rightarrow> nat list" where
  "add_supported_nip n ns = (if n \<in> set ns then ns else ns @ [n])"

text \<open>\<open>blossom_ok\<close> is what \<open>initBlossom\<close> answers.\<close>

definition configure_relay ::
  "crypto \<Rightarrow> (settings \<Rightarrow> bool) \<Rightarrow> settings \<Rightarrow> string \<Rightarrow> relay_info \<Rightarrow> relay_info option" where
  "configure_relay c blossom_ok s base_url r =
     (let pk = cr_public c (st_relay_secret_key s);
          r1 = r\<lparr>ri_service_url := base_url, ri_name := st_relay_name s,
                 ri_description := st_relay_description s, ri_contact := st_relay_contact s,
                 ri_icon := st_relay_icon s, ri_pubkey := Some pk, ri_self := Some pk,
                 ri_nips := add_supported_nip 29 (ri_nips r), ri_negentropy := True\<rparr>
      in if bl_enabled (st_blossom s)
         then (if blossom_ok s then Some (r1\<lparr>ri_blossom := True\<rparr>) else None)
         else Some (r1\<lparr>ri_blossom := False\<rparr>))"

text \<open>\<open>relayHandler\<close>: the relay that serves, if one was set; without one the answer is a 503.\<close>

type_synonym relay_handler = "relay_info option"

datatype 'a serve_result = RelayNotReady | ServedBy 'a

definition serve_http :: "relay_handler \<Rightarrow> relay_info serve_result" where
  "serve_http h = (case h of None \<Rightarrow> RelayNotReady | Some r \<Rightarrow> ServedBy r)"

definition livekit_of :: "settings \<Rightarrow> livekit_settings" where
  "livekit_of s = \<lparr>lk_server_url = gc_livekit_server_url (st_groups s),
     lk_api_key = gc_livekit_api_key (st_groups s), lk_api_secret = gc_livekit_api_secret (st_groups s)\<rparr>"

text \<open>
  \<open>resetRelay\<close>: the state is given the new addresses first; a relay that cannot be configured is
  not set.
\<close>

definition reset_relay ::
  "crypto \<Rightarrow> (settings \<Rightarrow> bool) \<Rightarrow> settings \<Rightarrow> env \<times> 'd groups_state \<times> relay_handler \<Rightarrow>
     bool \<times> env \<times> 'd groups_state \<times> relay_handler" where
  "reset_relay c blossom_ok s st =
     (case st of (e, gs, h) \<Rightarrow>
      case relay_base_url e of (base, e1) \<Rightarrow>
      case relay_ws_url e1 of (ws, e2) \<Rightarrow>
        let gs1 = update_runtime_config ws base (livekit_of s) gs
        in case configure_relay c blossom_ok s base new_relay of
             None \<Rightarrow> (False, e2, gs1, h)
           | Some r \<Rightarrow> (True, e2, gs1, Some r))"

lemma configure_relay_Some:
  "configure_relay c blossom_ok s base r0 = Some r \<Longrightarrow>
   ri_name r = st_relay_name s \<and> ri_service_url r = base \<and> ri_software r = ri_software r0 \<and>
   ri_self r = Some (cr_public c (st_relay_secret_key s)) \<and> 29 \<in> set (ri_nips r) \<and>
   ri_blossom r = bl_enabled (st_blossom s)"
  by (auto simp: configure_relay_def add_supported_nip_def Let_def split: if_splits)

text \<open>
  Replacing the relay is safe: the groups, the member counts and the store are untouched; if it
  succeeds the relay that serves carries the new settings and signs with the same key, and if it
  fails (only a Blossom server can) the old relay goes on serving.
\<close>

theorem reset_keeps_groups_and_serves:
  assumes "reset_relay c blossom_ok s (e, gs, h) = (ok, e', gs', h')"
  shows "gs_groups gs' = gs_groups gs \<and> gs_all_members gs' = gs_all_members gs \<and> gs_db gs' = gs_db gs \<and>
    gs_deleted gs' = gs_deleted gs \<and> gs_secret_key gs' = gs_secret_key gs \<and>
    gs_base_url gs' = fst (relay_base_url e) \<and> gs_livekit gs' = livekit_of s \<and>
    (if ok then \<exists>r. serve_http h' = ServedBy r \<and> ri_name r = st_relay_name s \<and>
         ri_service_url r = gs_base_url gs' \<and> ri_self r = Some (cr_public c (st_relay_secret_key s)) \<and>
         29 \<in> set (ri_nips r)
     else h' = h \<and> bl_enabled (st_blossom s))"
proof -
  obtain base e1 where b: "relay_base_url e = (base, e1)" by fastforce
  obtain ws e2 where w: "relay_ws_url e1 = (ws, e2)" by fastforce
  show ?thesis
  proof (cases "configure_relay c blossom_ok s base new_relay")
    case None
    then have "bl_enabled (st_blossom s)"
      by (auto simp: configure_relay_def Let_def split: if_splits)
    with None assms b w show ?thesis by (auto simp: reset_relay_def update_runtime_config_def)
  next
    case (Some r)
    with assms b w have e: "ok" "h' = Some r" "gs' = update_runtime_config ws base (livekit_of s) gs"
      by (auto simp: reset_relay_def)
    with configure_relay_Some [OF Some] b show ?thesis
      by (simp add: update_runtime_config_def serve_http_def)
  qed
qed

theorem reset_keeps_groups_and_serves_witness:
  "\<exists>e' gs' h'. reset_relay \<lparr>cr_public = (\<lambda>sk. sk), cr_hash = (\<lambda>_. 0), cr_sign = (\<lambda>_ _. Some 0),
       cr_valid = (\<lambda>_. True)\<rparr> (\<lambda>_. False) (default_settings 7)
       (ex_env, empty_groups_state ([] :: event list) 7 [] [] (livekit_of (default_settings 7)), None)
       = (True, e', gs', h') \<and> (\<exists>r. serve_http h' = ServedBy r \<and> ri_name r = ''croissant'')"
proof -
  let ?c = "\<lparr>cr_public = (\<lambda>sk. sk), cr_hash = (\<lambda>_. 0), cr_sign = (\<lambda>_ _. Some 0), cr_valid = (\<lambda>_. True)\<rparr> :: crypto"
  let ?st = "(ex_env, empty_groups_state ([] :: event list) 7 [] [] (livekit_of (default_settings 7)), None)"
  obtain ok e' gs' h' where r: "reset_relay ?c (\<lambda>_. False) (default_settings 7) ?st = (ok, e', gs', h')"
    by (metis prod_cases4)
  have d: "st_relay_name (default_settings 7) = ''croissant''" "\<not> bl_enabled (st_blossom (default_settings 7))"
    by (simp_all add: default_settings_def)
  note p = reset_keeps_groups_and_serves [OF r, unfolded d(1)]
  have "ok \<and> (\<exists>r. serve_http h' = ServedBy r \<and> ri_name r = ''croissant'')"
    using p d(2) by (cases ok) (simp_all only: if_True if_False, blast+)
  with r show ?thesis by (intro exI [of _ e'] exI [of _ gs'] exI [of _ h']) simp
qed

end
