(* ===== verification/Http.thy ===== *)
theory Http
  imports Site WireLog Wipe LiveKit Files Lifecycle
begin

text \<open>
  The web server: the two middlewares of \<^verbatim>\<open>main.go\<close>, the relay handler and the routes of \<^verbatim>\<open>relay.go\<close>,
  khatru's own dispatch, and the handlers of the other theories behind them. The endpoints a Blossom
  server puts in front of the routes are added in theory \<open>Front\<close>. The answer to a CORS preflight is khatru's
  and is not modelled. A map is walked in the order the parameters give for it.
\<close>

record http_request =
  hq_method :: string
  hq_path :: string
  hq_host :: string
  hq_remote :: string
  hq_upgrade :: string
  hq_accept :: string
  hq_content_type :: string
  hq_cookie :: "string option"
  hq_authorization :: string
  hq_form :: "form option"
  hq_webhook :: "string \<Rightarrow> string \<Rightarrow> webhook_event option"

record web_world =
  ww_web :: web_outside
  ww_livekit :: livekit_outside
  ww_crypto :: crypto
  ww_pages :: page_outside
  ww_url_path :: "string \<Rightarrow> string option"
  ww_saves :: "settings \<Rightarrow> bool"
  ww_blossom :: "settings \<Rightarrow> bool"
  ww_detect :: "string \<Rightarrow> string"
  ww_net :: "string \<Rightarrow> http_response option"
  ww_logo :: "string option"
  ww_now :: timestamp
  ww_random :: "nat list"
  ww_stats :: "nat \<times> nat"
  ww_groups_order :: "groups \<Rightarrow> string list"
  ww_members_order :: "(pubkey \<rightharpoonup> role list) \<Rightarrow> pubkey list"
  ww_deleted_order :: "(string \<rightharpoonup> deleted_group) \<Rightarrow> deleted_group list"

text \<open>What the handlers keep: settings and limiter, the environment, the groups, the serving relay,
  the cached icon and the LiveKit rooms known to exist.\<close>

record 'd web_state =
  wb_global :: global_state
  wb_env :: env
  wb_groups :: "'d groups_state"
  wb_handler :: relay_handler
  wb_favicon :: favicon_cache
  wb_rooms :: "string set"

datatype web_response =
    WNotReady | WWebsocket | WInfo relay_info | WManagement | WRedirect | WMethodNotAllowed
  | WFavicon favicon_answer | WStatic "string list" | WSettings settings_response | WWipe wipe_result
  | WGroup page_response | WLivekit livekit_answer | WHome "seg list"

subsection \<open>Routes\<close>

datatype route =
    RRedirect | RNotAllowed | RFavicon | RStatic "string list" | RSettings | RWipe string | RGroup string
  | RLivekitStatus | RLivekitAuth string | RWebhook | RHome

text \<open>
  The patterns of \<open>configureRelay\<close> as \<open>http.ServeMux\<close> matches them, on the segments of the path:
  a path that is not clean is redirected, a pattern for \<open>GET\<close> also takes \<open>HEAD\<close>, a wildcard takes one
  segment that is not empty, and \<open>GET /\<close> takes what is left.
\<close>

definition unclean :: "string list \<Rightarrow> bool" where
  "unclean segs \<longleftrightarrow> [] \<in> set (butlast segs) \<or> ''.'' \<in> set segs \<or> ''..'' \<in> set segs"

definition route_get :: "string list \<Rightarrow> route" where
  "route_get segs =
     (if segs = [''favicon.ico''] then RFavicon
      else if segs = [''static''] then RRedirect
      else if 2 \<le> length segs \<and> hd segs = ''static'' then RStatic (tl segs)
      else if length segs = 2 \<and> hd segs = ''group'' \<and> segs ! 1 \<noteq> [] then RGroup (segs ! 1)
      else if segs = [''.well-known'', ''nip29'', ''livekit''] then RLivekitStatus
      else if length segs = 4 \<and> take 3 segs = [''.well-known'', ''nip29'', ''livekit''] \<and> segs ! 3 \<noteq> []
        then RLivekitAuth (segs ! 3)
      else RHome)"

definition route_post :: "string list \<Rightarrow> route" where
  "route_post segs =
     (if segs = [''settings''] then RSettings
      else if length segs = 3 \<and> hd segs = ''group'' \<and> segs ! 1 \<noteq> [] \<and> segs ! 2 = ''wipeout''
        then RWipe (segs ! 1)
      else if segs = [''groups'', ''livekit'', ''webhook''] then RWebhook
      else RNotAllowed)"

definition route_of :: "string \<Rightarrow> string \<Rightarrow> route" where
  "route_of verb path =
     (let segs = split_at (CHR ''/'') (tl path)
      in if unclean segs then RRedirect
         else if verb = ''GET'' \<or> verb = ''HEAD'' then route_get segs
         else if verb = ''POST'' then route_post segs
         else RNotAllowed)"

subsection \<open>Handlers behind the routes\<close>

definition logged_in :: "web_world \<Rightarrow> http_request \<Rightarrow> 'd web_state \<Rightarrow> pubkey option" where
  "logged_in w q s = get_logged_user (ww_web w) (wb_env s) (hq_host q) (hq_cookie q)"

text \<open>
  \<open>WithLoggedUser\<close> and \<open>LoggedUserFromContext\<close>: a context is what it holds under the key of the login, and
  the user is zero without one. \<open>loggedUserMiddleware\<close> puts it there.
\<close>

definition with_logged_user :: "pubkey option \<Rightarrow> pubkey \<Rightarrow> pubkey option" where
  "with_logged_user ctx pk = Some pk"

definition logged_user_from_context :: "pubkey option \<Rightarrow> pubkey" where
  "logged_user_from_context ctx = (case ctx of None \<Rightarrow> 0 | Some pk \<Rightarrow> pk)"

definition context_user :: "web_world \<Rightarrow> http_request \<Rightarrow> 'd web_state \<Rightarrow> pubkey" where
  "context_user w q s =
     logged_user_from_context
       (case logged_in w q s of None \<Rightarrow> None | Some pk \<Rightarrow> with_logged_user None pk)"

text \<open>
  The settings handler with its \<open>ResetRelay\<close>: the relay is replaced once the new settings are in force,
  whether or not that succeeds.
\<close>

definition handle_settings ::
  "web_world \<Rightarrow> http_request \<Rightarrow> 'd web_state \<Rightarrow> settings_response \<times> 'd web_state" where
  "handle_settings w q s =
     (let reset = (\<lambda>st. reset_relay (ww_crypto w) (ww_blossom w) st (wb_env s, wb_groups s, wb_handler s))
      in case settings_handler (ww_saves w) (Some (\<lambda>st. fst (reset st))) (logged_in w q s) (hq_form q)
                (wb_global s) of
           (r, g) \<Rightarrow>
             if r = SrRedirect \<or> r = SrResetFailed then
               (case snd (reset (gl_settings g)) of
                  (e, gs, h) \<Rightarrow> (r, s\<lparr>wb_global := g, wb_env := e, wb_groups := gs, wb_handler := h\<rparr>))
             else (r, s))"

definition members_of :: "web_world \<Rightarrow> groups \<Rightarrow> string \<Rightarrow> pubkey list" where
  "members_of w gs gid =
     (case gs gid of None \<Rightarrow> [] | Some g \<Rightarrow> ww_members_order w (g_members g))"

definition handle_home :: "web_world \<Rightarrow> http_request \<Rightarrow> 'd web_state \<Rightarrow> seg list" where
  "handle_home w q s =
     (let gs = gs_groups (wb_groups s)
      in home (gl_settings (wb_global s)) (context_user w q s) (ww_stats w) gs (ww_groups_order w gs)
           (members_of w gs) (ww_deleted_order w (gs_deleted (wb_groups s))))"

definition route_request ::
  "'d store_ops \<Rightarrow> web_world \<Rightarrow> http_request \<Rightarrow> 'd web_state \<Rightarrow>
     web_response \<times> event list \<times> 'd web_state" where
  "route_request ops w q s =
     (let st = gl_settings (wb_global s); gs = wb_groups s
      in case route_of (hq_method q) (hq_path q) of
           RRedirect \<Rightarrow> (WRedirect, [], s)
         | RNotAllowed \<Rightarrow> (WMethodNotAllowed, [], s)
         | RFavicon \<Rightarrow>
             (case favicon_handler (ww_detect w) (ww_net w) (ww_logo w) st (wb_favicon s) of
                (a, c) \<Rightarrow> (WFavicon a, [], s\<lparr>wb_favicon := c\<rparr>))
         | RStatic segs \<Rightarrow> (WStatic segs, [], s)
         | RSettings \<Rightarrow> (case handle_settings w q s of (r, s') \<Rightarrow> (WSettings r, [], s'))
         | RWipe gid \<Rightarrow>
             (case wipe_group_handler ops (logged_in w q s) (st_owner_pub_key st)
                     (members_of w (gs_groups gs) gid) gid gs of
                (r, gs') \<Rightarrow> (WWipe r, [], s\<lparr>wb_groups := gs'\<rparr>))
         | RGroup gid \<Rightarrow>
             (WGroup (group_handler ops (ww_crypto w) (ww_pages w) st (context_user w q s)
                (members_of w (gs_groups gs) gid) gid gs), [], s)
         | RLivekitStatus \<Rightarrow> (WLivekit (livekit_status_handler (Some gs)), [], s)
         | RLivekitAuth gid \<Rightarrow>
             (case livekit_auth_handler (ww_livekit w) (ww_random w) (Some gs) gid (hq_authorization q)
                     (wb_rooms s) of
                (a, rooms) \<Rightarrow> (WLivekit a, [], s\<lparr>wb_rooms := rooms\<rparr>))
         | RWebhook \<Rightarrow>
             (case livekit_webhook_handler (ww_livekit w) ops (ww_crypto w) (ww_now w)
                     (hq_webhook q (lk_api_key (gs_livekit gs)) (lk_api_secret (gs_livekit gs))) (Some gs) of
                (a, bs, gs') \<Rightarrow>
                  (WLivekit a, bs, case gs' of None \<Rightarrow> s | Some g \<Rightarrow> s\<lparr>wb_groups := g\<rparr>))
         | RHome \<Rightarrow> (WHome (handle_home w q s), [], s))"

subsection \<open>The relay in front, and the log around it\<close>

text \<open>khatru's \<open>ServeHTTP\<close>: at the path of the service, websockets, the information document and the
  management calls go first.\<close>

definition trim_slash :: "string \<Rightarrow> string" where
  "trim_slash p = (if p \<noteq> [] \<and> last p = CHR ''/'' then butlast p else p)"

definition relay_path_matches :: "web_world \<Rightarrow> relay_info \<Rightarrow> string \<Rightarrow> bool" where
  "relay_path_matches w r path =
     (if ri_service_url r = [] then True
      else case ww_url_path w (ri_service_url r) of
             None \<Rightarrow> True
           | Some p \<Rightarrow> trim_slash path = trim_slash p)"

definition relay_answer :: "web_world \<Rightarrow> relay_info \<Rightarrow> http_request \<Rightarrow> web_response option" where
  "relay_answer w r q =
     (let here = relay_path_matches w r (hq_path q)
      in if here \<and> hq_upgrade q = ''websocket'' then Some WWebsocket
         else if here \<and> hq_accept q = ''application/nostr+json'' then Some (WInfo r)
         else if here \<and> hq_content_type q = ''application/nostr+json+rpc'' then Some WManagement
         else None)"

definition serve_request ::
  "'d store_ops \<Rightarrow> web_world \<Rightarrow> http_request \<Rightarrow> 'd web_state \<Rightarrow>
     web_response \<times> event list \<times> 'd web_state" where
  "serve_request ops w q s =
     (case serve_http (wb_handler s) of
        RelayNotReady \<Rightarrow> (WNotReady, [], s)
      | ServedBy r \<Rightarrow>
          (case relay_answer w r q of
             Some a \<Rightarrow> (a, [], s)
           | None \<Rightarrow> route_request ops w q s))"

text \<open>The status a handler answers with; none if it panics, which the server recovers from.\<close>

fun settings_status :: "settings_response \<Rightarrow> nat" where
  "settings_status SrUnauthorized = 401"
| "settings_status SrInvalidForm = 400"
| "settings_status (SrInvalidField _) = 400"
| "settings_status SrSaveFailed = 500"
| "settings_status SrResetFailed = 500"
| "settings_status SrRedirect = 303"

fun wipe_status :: "wipe_result \<Rightarrow> nat" where
  "wipe_status WipeUnauthorized = 401"
| "wipe_status WipeNotFound = 404"
| "wipe_status WipeRedirect = 303"

fun livekit_status :: "livekit_answer \<Rightarrow> nat option" where
  "livekit_status LkNotFound = Some 404"
| "livekit_status LkNoContent = Some 204"
| "livekit_status LkBadRequest = Some 400"
| "livekit_status LkUnauthorized = Some 401"
| "livekit_status LkForbidden = Some 403"
| "livekit_status LkServerError = Some 500"
| "livekit_status (LkToken _ _) = Some 200"
| "livekit_status LkCrashed = None"

text \<open>
  What the library answers for a static file and for a management call is the parameter \<open>lib\<close>.
  \<open>statusRecorder\<close> starts at 200.
\<close>

fun status_of :: "(web_response \<Rightarrow> nat) \<Rightarrow> web_response \<Rightarrow> nat option" where
  "status_of lib WNotReady = Some 503"
| "status_of lib WRedirect = Some 301"
| "status_of lib WMethodNotAllowed = Some 405"
| "status_of lib (WFavicon FaviconNotFound) = Some 404"
| "status_of lib (WFavicon (FaviconServed _ _)) = Some 200"
| "status_of lib (WSettings r) = Some (settings_status r)"
| "status_of lib (WWipe r) = Some (wipe_status r)"
| "status_of lib (WGroup PageNotFound) = Some 404"
| "status_of lib (WGroup (PageServed _)) = Some 200"
| "status_of lib (WGroup PagePanicked) = None"
| "status_of lib (WLivekit a) = livekit_status a"
| "status_of lib (WHome _) = Some 200"
| "status_of lib r = Some (lib r)"

text \<open>\<open>requestLogMiddleware\<close>: the line of a request is printed after it was served, if it returned.\<close>

definition request_log ::
  "'d store_ops \<Rightarrow> web_world \<Rightarrow> (web_response \<Rightarrow> nat) \<Rightarrow> http_request \<Rightarrow> 'd web_state \<Rightarrow>
     string \<times> web_response \<times> event list \<times> 'd web_state" where
  "request_log ops w lib q s =
     (case serve_request ops w q s of
        (r, bs, s') \<Rightarrow>
          (if hq_upgrade q = ''websocket'' then log_http_upgrade (hq_remote q) (hq_path q)
           else case status_of lib r of
                  None \<Rightarrow> []
                | Some n \<Rightarrow> log_http_request (hq_remote q) (hq_method q) (hq_path q) n,
           r, bs, s'))"

subsection \<open>What a request can change\<close>

text \<open>Groups that differ in their LiveKit participants only.\<close>

definition same_but_participants :: "groups \<Rightarrow> groups \<Rightarrow> bool" where
  "same_but_participants gs gs' \<longleftrightarrow>
     (\<forall>gid. gs' gid = gs gid \<or> (\<exists>g now ps. gs gid = Some g \<and> gs' gid = Some (set_participants now ps g)))"

lemma same_but_participants_refl [simp]: "same_but_participants gs gs"
  by (simp add: same_but_participants_def)

text \<open>A webhook the LiveKit keys verify, for a group that is live.\<close>

lemma livekit_webhook_cases:
  assumes "livekit_webhook_handler lo ops c now received (Some s) = (a, bs, s')"
  obtains "bs = []" "s' = Some s"
    | v gid g ps e where "received = Some v" "we_room v = Some gid" "gs_groups s gid = Some g" "g_livekit g"
      "bs = [e]" "s' = Some (s\<lparr>gs_groups := (gs_groups s)(gid \<mapsto> set_participants now ps g),
                             gs_db := snd (so_replace ops e (gs_db s))\<rparr>)"
  using assms
  by (auto simp: livekit_webhook_handler_def Let_def split: if_splits option.splits outcome.splits)

lemma handle_settings_refused:
  assumes "handle_settings w q s = (r, s')" "logged_in w q s \<noteq> Some (st_owner_pub_key (gl_settings (wb_global s)))"
  shows "s' = s"
  using assms by (auto simp: handle_settings_def settings_handler_def Let_def)

lemma wipe_handler_refused:
  "logged \<noteq> Some owner \<Longrightarrow> wipe_group_handler ops logged owner ord gid s = (WipeUnauthorized, s)"
  by (simp add: wipe_group_handler_def)

lemma route_request_cases:
  assumes "route_request ops w q s = (r, bs, s')"
    and "logged_in w q s \<noteq> Some (st_owner_pub_key (gl_settings (wb_global s)))"
  obtains "bs = []" "s' = s\<lparr>wb_favicon := wb_favicon s'\<rparr>"
    | "bs = []" "s' = s\<lparr>wb_rooms := wb_rooms s'\<rparr>"
    | v gid g ps e where "route_of (hq_method q) (hq_path q) = RWebhook"
      "hq_webhook q (lk_api_key (gs_livekit (wb_groups s))) (lk_api_secret (gs_livekit (wb_groups s))) = Some v"
      "we_room v = Some gid" "gs_groups (wb_groups s) gid = Some g" "g_livekit g" "bs = [e]"
      "s' = s\<lparr>wb_groups := (wb_groups s)\<lparr>gs_groups := (gs_groups (wb_groups s))(gid \<mapsto> set_participants (ww_now w) ps g),
                 gs_db := snd (so_replace ops e (gs_db (wb_groups s)))\<rparr>\<rparr>"
proof (cases "route_of (hq_method q) (hq_path q)")
  case RFavicon
  obtain a c where f: "favicon_handler (ww_detect w) (ww_net w) (ww_logo w) (gl_settings (wb_global s)) (wb_favicon s) = (a, c)"
    by fastforce
  with RFavicon assms(1) have "bs = []" "s' = s\<lparr>wb_favicon := c\<rparr>" by (auto simp: route_request_def)
  then show ?thesis using that(1) by simp
next
  case RSettings
  obtain a s1 where h: "handle_settings w q s = (a, s1)" by fastforce
  with handle_settings_refused [OF h assms(2)] RSettings assms(1) have "bs = []" "s' = s"
    by (auto simp: route_request_def)
  then show ?thesis using that(1) by simp
next
  case (RWipe gid)
  with assms have "bs = []" "s' = s" by (auto simp: route_request_def wipe_handler_refused)
  then show ?thesis using that(1) by simp
next
  case (RLivekitAuth gid)
  obtain a rooms where "livekit_auth_handler (ww_livekit w) (ww_random w) (Some (wb_groups s)) gid
      (hq_authorization q) (wb_rooms s) = (a, rooms)" by fastforce
  with RLivekitAuth assms(1) have "bs = []" "s' = s\<lparr>wb_rooms := rooms\<rparr>" by (auto simp: route_request_def)
  then show ?thesis using that(2) by simp
next
  case RWebhook
  obtain a bs1 gs1 where h: "livekit_webhook_handler (ww_livekit w) ops (ww_crypto w) (ww_now w)
      (hq_webhook q (lk_api_key (gs_livekit (wb_groups s))) (lk_api_secret (gs_livekit (wb_groups s))))
      (Some (wb_groups s)) = (a, bs1, gs1)" by (metis prod_cases3)
  with RWebhook assms(1) have r: "bs = bs1" "s' = (case gs1 of None \<Rightarrow> s | Some g \<Rightarrow> s\<lparr>wb_groups := g\<rparr>)"
    by (auto simp: route_request_def)
  from h show ?thesis
  proof (cases rule: livekit_webhook_cases)
    case 1
    with r show ?thesis using that(1) by simp
  next
    case (2 v gid g ps e)
    with r RWebhook show ?thesis using that(3) by simp
  qed
qed (use assms(1) that(1) in \<open>auto simp: route_request_def Let_def\<close>)

lemma serve_request_routed:
  "serve_request ops w q s = (r, bs, s') \<Longrightarrow> (bs = [] \<and> s' = s) \<or> route_request ops w q s = (r, bs, s')"
  by (auto simp: serve_request_def split: serve_result.splits option.splits)

text \<open>
  Without the owner's login a request leaves the settings, the limiter, the serving relay, the deleted
  groups and the member counts as they are, and every group up to its participants; it stores and
  broadcasts nothing unless it is a webhook the LiveKit keys verify for a live group.
\<close>

lemma serve_request_guarded:
  assumes "serve_request ops w q s = (r, bs, s')"
    and "logged_in w q s \<noteq> Some (st_owner_pub_key (gl_settings (wb_global s)))"
  shows "wb_global s' = wb_global s \<and> wb_env s' = wb_env s \<and> wb_handler s' = wb_handler s \<and>
    gs_deleted (wb_groups s') = gs_deleted (wb_groups s) \<and>
    gs_all_members (wb_groups s') = gs_all_members (wb_groups s) \<and>
    same_but_participants (gs_groups (wb_groups s)) (gs_groups (wb_groups s')) \<and>
    ((bs = [] \<and> wb_groups s' = wb_groups s) \<or>
     (route_of (hq_method q) (hq_path q) = RWebhook \<and>
      hq_webhook q (lk_api_key (gs_livekit (wb_groups s))) (lk_api_secret (gs_livekit (wb_groups s))) \<noteq> None))"
  using serve_request_routed [OF assms(1)]
proof
  assume "bs = [] \<and> s' = s"
  then show ?thesis by simp
next
  assume "route_request ops w q s = (r, bs, s')"
  then show ?thesis using assms(2)
  proof (cases rule: route_request_cases)
    case 1
    have "wb_groups s' = wb_groups s" "wb_global s' = wb_global s" "wb_env s' = wb_env s" "wb_handler s' = wb_handler s"
      by (subst 1(2), simp)+
    with 1(1) show ?thesis by simp
  next
    case 2
    have "wb_groups s' = wb_groups s" "wb_global s' = wb_global s" "wb_env s' = wb_env s" "wb_handler s' = wb_handler s"
      by (subst 2(2), simp)+
    with 2(1) show ?thesis by simp
  next
    case (3 v gid g ps e)
    then show ?thesis by (auto simp: same_but_participants_def)
  qed
qed

lemma route_get_reads:
  "verb = ''GET'' \<or> verb = ''HEAD'' \<Longrightarrow>
   route_of verb path \<notin> {RSettings, RWebhook} \<and> (\<forall>gid. route_of verb path \<noteq> RWipe gid)"
  by (auto simp: route_of_def route_get_def Let_def)

text \<open>
  Reading is reading: a \<open>GET\<close> or \<open>HEAD\<close> request, whoever sends it, changes no group, nothing in the
  store and no setting; at most an icon is cached or a LiveKit room is noted.
\<close>

theorem get_changes_nothing:
  assumes "serve_request ops w q s = (r, bs, s')" "hq_method q = ''GET'' \<or> hq_method q = ''HEAD''"
  shows "bs = [] \<and> s' = s\<lparr>wb_favicon := wb_favicon s', wb_rooms := wb_rooms s'\<rparr>"
  using serve_request_routed [OF assms(1)]
proof
  assume "bs = [] \<and> s' = s"
  then show ?thesis by simp
next
  assume "route_request ops w q s = (r, bs, s')"
  with route_get_reads [OF assms(2), of "hq_path q"] show ?thesis
    by (cases "route_of (hq_method q) (hq_path q)")
       (auto simp: route_request_def Let_def split: prod.splits)
qed

definition ex_world :: web_world where
  "ex_world = \<lparr>ww_web = ex_web,
     ww_livekit = \<lparr>lo_event_json = (\<lambda>_. None), lo_verify = (\<lambda>_. False), lo_parse_url = (\<lambda>_. None),
       lo_jwt = (\<lambda>_ _ _ _. []), lo_create_room = (\<lambda>_ _ _. None), lo_list = (\<lambda>_ _ _. None)\<rparr>,
     ww_crypto = ex_crypto, ww_pages = ex_pages, ww_url_path = (\<lambda>_. Some []), ww_saves = (\<lambda>_. True),
     ww_blossom = (\<lambda>_. True), ww_detect = (\<lambda>_. ''image/png''), ww_net = (\<lambda>_. None), ww_logo = Some ''png'',
     ww_now = 1000, ww_random = [], ww_stats = (0, 0), ww_groups_order = (\<lambda>_. [''club'']),
     ww_members_order = (\<lambda>_. []), ww_deleted_order = (\<lambda>_. [])\<rparr>"

definition ex_request :: "string \<Rightarrow> string \<Rightarrow> http_request" where
  "ex_request verb path = \<lparr>hq_method = verb, hq_path = path, hq_host = ''relay'', hq_remote = ''::1'',
     hq_upgrade = [], hq_accept = [], hq_content_type = [], hq_cookie = None, hq_authorization = [],
     hq_form = Some (\<lambda>_. []), hq_webhook = (\<lambda>_ _. None)\<rparr>"

definition ex_web_state :: "slice_store web_state" where
  "ex_web_state = \<lparr>wb_global = ex_global, wb_env = ex_env, wb_groups = ex_site, wb_handler = Some new_relay,
     wb_favicon = \<lparr>fv_url = [], fv_data = [], fv_content_type = [], fv_logo_data = [], fv_logo_content_type = []\<rparr>,
     wb_rooms = {}\<rparr>"

theorem get_changes_nothing_witness:
  "\<exists>r bs s'. serve_request slice_ops ex_world (ex_request ''GET'' ''/group/club'') ex_web_state = (r, bs, s') \<and>
     bs = []"
proof -
  obtain r bs s' where q: "serve_request slice_ops ex_world (ex_request ''GET'' ''/group/club'') ex_web_state = (r, bs, s')"
    by (metis prod_cases3)
  from get_changes_nothing [OF q] q show ?thesis by (simp add: ex_request_def)
qed

end
