(* ===== verification/BlobIndex.thy ===== *)
theory BlobIndex
  imports Files
begin

text \<open>
  What the Blossom server keeps of the blobs besides their bytes (\<^verbatim>\<open>khatru/blossom/eventstorewrapper.go\<close>,
  \<^verbatim>\<open>nipb0/blossom/types.go\<close> and \<^verbatim>\<open>utils.go\<close>): an event of kind 24242 for each blob and each key that
  keeps it, in an event store of its own. The system's tables of content types, the cryptography and the
  other libraries are parameters.
\<close>

record blossom_outside =
  bo_crypto :: crypto
  bo_event :: "string \<Rightarrow> event option"
  bo_verify :: "event \<Rightarrow> bool"
  bo_sha256 :: "string \<Rightarrow> 256 word"
  bo_magic :: "string \<Rightarrow> string option"
  bo_type_by_extension :: "string \<Rightarrow> string"
  bo_extensions_by_type :: "string \<Rightarrow> string list"
  bo_redirect :: "string \<Rightarrow> string \<Rightarrow> string option"
  bo_names_word :: "string \<Rightarrow> string \<Rightarrow> bool"
  bo_mirror_url :: "string \<Rightarrow> string option"
  bo_fetch :: "string \<Rightarrow> (string \<times> string option) option"
  bo_now :: timestamp
  bo_alloc_max :: int

subsection \<open>Descriptors\<close>

record blob_descriptor =
  bd_url :: string
  bd_sha256 :: string
  bd_size :: int
  bd_type :: string
  bd_uploaded :: timestamp

definition get_extension :: "blossom_outside \<Rightarrow> string \<Rightarrow> string" where
  "get_extension w mimetype =
     (if mimetype = [] then []
      else if mimetype = ''image/jpeg'' then ''.jpg''
      else if mimetype = ''image/gif'' then ''.gif''
      else if mimetype = ''image/png'' then ''.png''
      else if mimetype = ''image/webp'' then ''.webp''
      else if mimetype = ''video/mp4'' then ''.mp4''
      else if mimetype = ''application/vnd.android.package-archive'' then ''.apk''
      else if mimetype = ''video/quicktime'' then ''.mov''
      else if mimetype = ''application/vnd.sqlite3'' then ''sqlite3''
      else if mimetype = ''text/markdown'' then ''md''
      else if mimetype = ''audio/midi'' then ''midi''
      else if mimetype = ''audio/x-aiff'' then ''aiff''
      else case bo_extensions_by_type w mimetype of [] \<Rightarrow> [] | x # _ \<Rightarrow> x)"

subsection \<open>The interface\<close>

text \<open>
  \<open>BlobIndex\<close>. \<open>Keep\<close> and \<open>Delete\<close> say whether they succeeded. What a client relies on: an index keeps a
  set of pairs of a blob and a key. \<open>fresh\<close> says of a descriptor that its entry clashes with no other.
\<close>

datatype index_answer = IndexFailed | IndexPanicked | IndexMissing | IndexFound blob_descriptor

record 'b index_ops =
  ix_keep :: "blob_descriptor \<Rightarrow> pubkey \<Rightarrow> 'b \<Rightarrow> bool \<times> 'b"
  ix_list :: "pubkey \<Rightarrow> 'b \<Rightarrow> blob_descriptor list outcome"
  ix_get :: "string \<Rightarrow> 'b \<Rightarrow> index_answer"
  ix_delete :: "string \<Rightarrow> pubkey \<Rightarrow> 'b \<Rightarrow> bool \<times> 'b"

locale blob_index =
  fixes ix :: "'b index_ops"
    and ok :: "'b \<Rightarrow> bool"
    and fresh :: "blob_descriptor \<Rightarrow> pubkey \<Rightarrow> 'b \<Rightarrow> bool"
    and keepers :: "'b \<Rightarrow> (string \<times> pubkey) set"
  assumes keep_ok: "ok b \<Longrightarrow> fresh d pk b \<Longrightarrow> ok (snd (ix_keep ix d pk b))"
    and keep_keepers: "ok b \<Longrightarrow> fresh d pk b \<Longrightarrow>
      keepers b \<subseteq> keepers (snd (ix_keep ix d pk b)) \<and>
      keepers (snd (ix_keep ix d pk b)) \<subseteq> insert (bd_sha256 d, pk) (keepers b)"
    and get_missing: "ok b \<Longrightarrow> ix_get ix h b = IndexMissing \<longleftrightarrow> h \<notin> fst ` keepers b"
    and get_found: "ok b \<Longrightarrow> ix_get ix h b = IndexFound d \<Longrightarrow> bd_sha256 d = h"
    and get_returns: "ok b \<Longrightarrow> ix_get ix h b \<noteq> IndexPanicked"
    and delete_ok: "ok b \<Longrightarrow> ok (snd (ix_delete ix h pk b))"
    and delete_keepers: "ok b \<Longrightarrow>
      keepers (snd (ix_delete ix h pk b)) = (if fst (ix_delete ix h pk b) then keepers b - {(h, pk)} else keepers b)"
begin

lemma delete_others: "ok b \<Longrightarrow> (h', pk') \<noteq> (h, pk) \<Longrightarrow> (h', pk') \<in> keepers (snd (ix_delete ix h pk b)) \<longleftrightarrow> (h', pk') \<in> keepers b"
  by (auto simp: delete_keepers)

text \<open>After a deletion the blob is missing only if nobody else keeps it.\<close>

lemma missing_after_delete:
  assumes "ok b" "ix_delete ix h pk b = (True, b')" "ix_get ix h b' = IndexMissing"
  shows "pk' \<noteq> pk \<Longrightarrow> (h, pk') \<notin> keepers b"
proof
  assume n: "pk' \<noteq> pk" and k: "(h, pk') \<in> keepers b"
  have "ok b'" using delete_ok [OF assms(1), of h pk] assms(2) by simp
  then have "h \<notin> fst ` keepers b'" using get_missing assms(3) by blast
  moreover have "(h, pk') \<in> keepers b'"
    using delete_others [OF assms(1), of h pk' h pk] n k assms(2) by simp
  ultimately show False by force
qed

end

subsection \<open>The index\<close>

text \<open>Entries of a key for a blob, entries for a blob, entries of a key.\<close>

definition own_filter :: "string \<Rightarrow> pubkey \<Rightarrow> nfilter" where
  "own_filter h pk = empty_filter\<lparr>f_authors := Some [pk], f_kinds := Some [24242], f_tags := [(''x'', [h])]\<rparr>"

definition blob_filter :: "string \<Rightarrow> nfilter" where
  "blob_filter h = empty_filter\<lparr>f_kinds := Some [24242], f_tags := [(''x'', [h])], f_limit := 1\<rparr>"

definition keeper_filter :: "pubkey \<Rightarrow> nfilter" where
  "keeper_filter pk = empty_filter\<lparr>f_authors := Some [pk], f_kinds := Some [24242]\<rparr>"

definition blob_entry :: "blossom_outside \<Rightarrow> blob_descriptor \<Rightarrow> pubkey \<Rightarrow> event" where
  "blob_entry w bd pk =
     (let e = zero_event\<lparr>ev_pubkey := pk, ev_kind := 24242, ev_created_at := bd_uploaded bd,
                ev_tags := [[''x'', bd_sha256 bd], [''type'', bd_type bd], [''size'', itoa (nat (bd_size bd))]]\<rparr>
      in e\<lparr>ev_id := cr_hash (bo_crypto w) e\<rparr>)"

text \<open>\<open>Keep\<close>: an entry is saved unless the key has one for the blob; the store's error is dropped.\<close>

definition entry_keep ::
  "blossom_outside \<Rightarrow> 'd store_ops \<Rightarrow> blob_descriptor \<Rightarrow> pubkey \<Rightarrow> 'd \<Rightarrow> bool \<times> 'd" where
  "entry_keep w ops bd pk db =
     (True, if so_query ops (own_filter (bd_sha256 bd) pk) 1 db = []
            then snd (so_save ops (blob_entry w bd pk) db) else db)"

text \<open>\<open>parseEvent\<close> reads the values of the first three tags, wherever there are none it panics.\<close>

definition parse_entry :: "blossom_outside \<Rightarrow> string \<Rightarrow> event \<Rightarrow> blob_descriptor outcome" where
  "parse_entry w url e =
     (if 3 \<le> length (ev_tags e) \<and> list_all (\<lambda>t. 2 \<le> length t) (take 3 (ev_tags e)) then
        let h = ev_tags e ! 0 ! 1; mimetype = ev_tags e ! 1 ! 1
        in Returned \<lparr>bd_url = url @ ''/'' @ h @ get_extension w mimetype, bd_sha256 = h,
             bd_size = int_value (ev_tags e ! 2 ! 1), bd_type = mimetype, bd_uploaded = ev_created_at e\<rparr>
      else Panicked)"

definition entry_get :: "blossom_outside \<Rightarrow> string \<Rightarrow> 'd store_ops \<Rightarrow> string \<Rightarrow> 'd \<Rightarrow> index_answer" where
  "entry_get w url ops h db =
     (case so_query ops (blob_filter h) 1 db of
        [] \<Rightarrow> IndexMissing
      | e # _ \<Rightarrow> (case parse_entry w url e of Panicked \<Rightarrow> IndexPanicked | Returned bd \<Rightarrow> IndexFound bd))"

fun parse_entries :: "blossom_outside \<Rightarrow> string \<Rightarrow> event list \<Rightarrow> blob_descriptor list outcome" where
  "parse_entries w url [] = Returned []"
| "parse_entries w url (e # es) =
     (case parse_entry w url e of
        Panicked \<Rightarrow> Panicked
      | Returned bd \<Rightarrow>
          (case parse_entries w url es of Panicked \<Rightarrow> Panicked | Returned bds \<Rightarrow> Returned (bd # bds)))"

definition entry_list ::
  "blossom_outside \<Rightarrow> string \<Rightarrow> 'd store_ops \<Rightarrow> pubkey \<Rightarrow> 'd \<Rightarrow> blob_descriptor list outcome" where
  "entry_list w url ops pk db = parse_entries w url (so_query ops (keeper_filter pk) 1000 db)"

definition entry_delete :: "'d store_ops \<Rightarrow> string \<Rightarrow> pubkey \<Rightarrow> 'd \<Rightarrow> bool \<times> 'd" where
  "entry_delete ops h pk db =
     (case so_query ops ((own_filter h pk)\<lparr>f_limit := 1\<rparr>) 1 db of
        [] \<Rightarrow> (True, db)
      | e # _ \<Rightarrow> (case so_delete ops (ev_id e) db of (err, db') \<Rightarrow> (err = None, db')))"

definition event_index :: "blossom_outside \<Rightarrow> string \<Rightarrow> 'd store_ops \<Rightarrow> 'd index_ops" where
  "event_index w url ops =
     \<lparr>ix_keep = entry_keep w ops, ix_list = entry_list w url ops, ix_get = entry_get w url ops,
      ix_delete = entry_delete ops\<rparr>"

subsection \<open>The index keeps a set of pairs\<close>

definition is_entry :: "string \<Rightarrow> pubkey \<Rightarrow> event \<Rightarrow> bool" where
  "is_entry h pk e \<longleftrightarrow> ev_kind e = 24242 \<and> ev_pubkey e = pk \<and>
     (\<exists>t n. ev_tags e = [[''x'', h], [''type'', t], [''size'', n]])"

definition entry_keepers :: "event set \<Rightarrow> (string \<times> pubkey) set" where
  "entry_keepers S = {(h, pk). \<exists>e \<in> S. is_entry h pk e}"

text \<open>The store of the index holds entries only, one for a blob and a key, and ids are unique.\<close>

definition entries_ok :: "event set \<Rightarrow> bool" where
  "entries_ok S \<longleftrightarrow> id_unique S \<and> (\<forall>e \<in> S. \<exists>h pk. is_entry h pk e) \<and>
     (\<forall>e \<in> S. \<forall>e' \<in> S. \<forall>h pk. is_entry h pk e \<longrightarrow> is_entry h pk e' \<longrightarrow> e = e')"

lemma own_filter_entry: "is_entry h' pk' e \<Longrightarrow> filter_matches (own_filter h pk) e \<longleftrightarrow> h' = h \<and> pk' = pk"
  by (auto simp: is_entry_def own_filter_def empty_filter_def filter_matches_def
      matches_ignoring_timestamps_def in_opt_def split: if_splits)

lemma own_filter_limit [simp]: "filter_matches (own_filter h pk\<lparr>f_limit := 1\<rparr>) e = filter_matches (own_filter h pk) e"
  by (simp add: own_filter_def empty_filter_def filter_matches_def matches_ignoring_timestamps_def)

lemma blob_filter_entry: "is_entry h' pk' e \<Longrightarrow> filter_matches (blob_filter h) e \<longleftrightarrow> h' = h"
  by (auto simp: is_entry_def blob_filter_def empty_filter_def filter_matches_def
      matches_ignoring_timestamps_def in_opt_def split: if_splits)

lemma index_limits:
  "f_since (own_filter h pk) = 0" "f_since (blob_filter h) = 0" "f_since (own_filter h pk\<lparr>f_limit := 1\<rparr>) = 0"
  "effective_limit (own_filter h pk) 1 = 1" "effective_limit (blob_filter h) 1 = 1"
  "effective_limit (own_filter h pk\<lparr>f_limit := 1\<rparr>) 1 = 1"
  by (simp_all add: own_filter_def blob_filter_def empty_filter_def effective_limit_def theoretical_limit_def
      is_replaceable_def tag_values_def opt_len_def Let_def)

lemma blob_entry_is: "is_entry (bd_sha256 bd) pk (blob_entry w bd pk)"
  by (simp add: is_entry_def blob_entry_def Let_def)

lemma is_entry_unique: "is_entry h pk e \<Longrightarrow> is_entry h' pk' e \<Longrightarrow> h = h' \<and> pk = pk'"
  by (auto simp: is_entry_def)

lemma parse_entry_is:
  "is_entry h pk e \<Longrightarrow> \<exists>bd. parse_entry w url e = Returned bd \<and> bd_sha256 bd = h \<and> bd_uploaded bd = ev_created_at e"
  by (auto simp: is_entry_def parse_entry_def Let_def)

lemma entries_ok_insert:
  assumes "entries_ok S" "is_entry h pk e" "\<forall>x \<in> S. ev_id x \<noteq> ev_id e" "\<forall>x \<in> S. \<not> is_entry h pk x"
  shows "entries_ok (insert e S)"
  unfolding entries_ok_def
proof (intro conjI ballI allI impI)
  show "id_unique (insert e S)"
    using assms(1,3) by (auto simp: entries_ok_def id_unique_def)
  show "\<exists>h pk. is_entry h pk x" if "x \<in> insert e S" for x
    using that assms(1,2) by (auto simp: entries_ok_def)
  show "x = y" if "x \<in> insert e S" "y \<in> insert e S" "is_entry h' pk' x" "is_entry h' pk' y" for x y h' pk'
    using that assms(1,4) is_entry_unique [OF assms(2), of h' pk'] unfolding entries_ok_def by blast
qed

lemma entries_ok_subset: "entries_ok S \<Longrightarrow> T \<subseteq> S \<Longrightarrow> entries_ok T"
  unfolding entries_ok_def by (meson id_unique_subset subset_iff)

lemma entry_keepers_insert: "is_entry h pk e \<Longrightarrow> entry_keepers (insert e S) = insert (h, pk) (entry_keepers S)"
  unfolding entry_keepers_def by (auto dest: is_entry_unique)

lemma entry_keepers_remove:
  assumes "entries_ok S" "e \<in> S" "is_entry h pk e"
  shows "entry_keepers {x \<in> S. ev_id x \<noteq> ev_id e} = entry_keepers S - {(h, pk)}"
proof (rule set_eqI, clarify)
  fix h' pk'
  have d: "{x \<in> S. ev_id x \<noteq> ev_id e} = S - {e}"
    using assms by (auto simp: entries_ok_def id_unique_def inj_on_def)
  have u: "x = e" if "x \<in> S" "is_entry h pk x" for x
    using assms that unfolding entries_ok_def by blast
  have "(\<exists>x \<in> S - {e}. is_entry h' pk' x) \<longleftrightarrow> (\<exists>x \<in> S. is_entry h' pk' x) \<and> (h', pk') \<noteq> (h, pk)"
    using u is_entry_unique [OF assms(3), of h' pk'] by blast
  then show "(h', pk') \<in> entry_keepers {x \<in> S. ev_id x \<noteq> ev_id e} \<longleftrightarrow> (h', pk') \<in> entry_keepers S - {(h, pk)}"
    unfolding d by (simp add: entry_keepers_def)
qed

lemma entry_matches:
  assumes "entries_ok S" "e \<in> S"
  shows "filter_matches (own_filter h pk) e \<longleftrightarrow> is_entry h pk e"
    and "filter_matches (blob_filter h) e \<longleftrightarrow> (\<exists>pk. is_entry h pk e)"
proof -
  obtain h' pk' where e: "is_entry h' pk' e" using assms by (auto simp: entries_ok_def)
  show "filter_matches (own_filter h pk) e \<longleftrightarrow> is_entry h pk e"
    using own_filter_entry [OF e] is_entry_unique [OF e] e by metis
  show "filter_matches (blob_filter h) e \<longleftrightarrow> (\<exists>pk. is_entry h pk e)"
    using blob_filter_entry [OF e] is_entry_unique [OF e] e by metis
qed

context event_store
begin

lemma query_empty:
  assumes "inv d" "f_since f = 0" "0 < effective_limit f n"
  shows "so_query ops f n d = [] \<longleftrightarrow> (\<forall>e \<in> contents d. \<not> filter_matches f e)"
proof
  assume q: "so_query ops f n d = []"
  show "\<forall>e \<in> contents d. \<not> filter_matches f e"
  proof (intro ballI notI)
    fix e assume "e \<in> contents d" "filter_matches f e"
    from query_complete [OF assms(1,2) this, of n] q assms(3) show False by simp
  qed
next
  assume "\<forall>e \<in> contents d. \<not> filter_matches f e"
  then have "e \<notin> set (so_query ops f n d)" for e
    using query_sound [OF assms(1), of e f n] by blast
  then show "so_query ops f n d = []" by (metis list.set_intros(1) neq_Nil_conv)
qed

lemma own_query:
  assumes "inv d" "entries_ok (contents d)" "f = own_filter h pk \<or> f = own_filter h pk\<lparr>f_limit := 1\<rparr>"
  shows "so_query ops f 1 d = [] \<and> (h, pk) \<notin> entry_keepers (contents d) \<or>
    (\<exists>e r. so_query ops f 1 d = e # r \<and> e \<in> contents d \<and> is_entry h pk e)"
proof (cases "so_query ops f 1 d")
  case Nil
  have "f_since f = 0" "0 < effective_limit f 1" using assms(3) index_limits by auto
  with query_empty [OF assms(1)] Nil have "\<forall>e \<in> contents d. \<not> filter_matches f e" by blast
  then have "\<forall>e \<in> contents d. \<not> is_entry h pk e"
    using assms(3) entry_matches(1) [OF assms(2)] by auto
  with Nil show ?thesis by (auto simp: entry_keepers_def)
next
  case (Cons e r)
  with query_sound [OF assms(1), of e f 1] have e: "e \<in> contents d" "filter_matches f e" by auto
  with assms(3) have "filter_matches (own_filter h pk) e" by auto
  with e(1) entry_matches(1) [OF assms(2)] Cons show ?thesis by blast
qed

lemma keep_contents:
  assumes "inv d" "entries_ok (contents d)" "\<forall>e \<in> contents d. ev_id e \<noteq> ev_id (blob_entry w bd pk)"
  obtains "snd (entry_keep w ops bd pk d) = d"
    | "inv (snd (entry_keep w ops bd pk d))" "(bd_sha256 bd, pk) \<notin> entry_keepers (contents d)"
      "contents (snd (entry_keep w ops bd pk d)) = insert (blob_entry w bd pk) (contents d)"
proof (cases "so_query ops (own_filter (bd_sha256 bd) pk) 1 d = []")
  case True
  with own_query [OF assms(1,2)] have n: "(bd_sha256 bd, pk) \<notin> entry_keepers (contents d)" by fastforce
  obtain err d' where s: "so_save ops (blob_entry w bd pk) d = (err, d')" by fastforce
  show ?thesis
  proof (cases err)
    case None
    have "id_unique (insert (blob_entry w bd pk) (contents d))"
      using assms(2,3) by (auto simp: entries_ok_def id_unique_def)
    from save_ok [OF assms(1) this] s None True n show ?thesis by (intro that(2)) (simp_all add: entry_keep_def)
  next
    case (Some e)
    with s save_err have "d' = d" by blast
    with True s show ?thesis by (intro that(1)) (simp add: entry_keep_def)
  qed
qed (use that(1) in \<open>simp add: entry_keep_def\<close>)

lemma delete_contents:
  assumes "inv d" "entries_ok (contents d)"
  shows "inv (snd (entry_delete ops h pk d)) \<and> contents (snd (entry_delete ops h pk d)) \<subseteq> contents d \<and>
    entry_keepers (contents (snd (entry_delete ops h pk d))) =
      (if fst (entry_delete ops h pk d) then entry_keepers (contents d) - {(h, pk)} else entry_keepers (contents d))"
  using own_query [OF assms, of _ h pk, OF disjI2 [OF refl]]
proof (elim disjE conjE exE)
  assume "so_query ops (own_filter h pk\<lparr>f_limit := 1\<rparr>) 1 d = []" "(h, pk) \<notin> entry_keepers (contents d)"
  with assms(1) show ?thesis by (auto simp: entry_delete_def)
next
  fix e r assume q: "so_query ops (own_filter h pk\<lparr>f_limit := 1\<rparr>) 1 d = e # r" and e: "e \<in> contents d" "is_entry h pk e"
  obtain err d' where s: "so_delete ops (ev_id e) d = (err, d')" by fastforce
  show ?thesis
  proof (cases err)
    case None
    with delete_ok [OF assms(1), of "ev_id e" d'] s
    have d: "inv d'" "contents d' = {x \<in> contents d. ev_id x \<noteq> ev_id e}" by auto
    from entry_keepers_remove [OF assms(2) e] d q s None show ?thesis by (auto simp: entry_delete_def)
  next
    case (Some x)
    with s delete_err have "d' = d" by blast
    with q s Some assms(1) show ?thesis by (simp add: entry_delete_def)
  qed
qed

lemma get_entry:
  assumes "inv d" "entries_ok (contents d)"
  shows "entry_get w url ops h d = IndexMissing \<and> h \<notin> fst ` entry_keepers (contents d) \<or>
    (\<exists>bd pk. entry_get w url ops h d = IndexFound bd \<and> bd_sha256 bd = h \<and> (h, pk) \<in> entry_keepers (contents d))"
proof (cases "so_query ops (blob_filter h) 1 d")
  case Nil
  with query_empty [OF assms(1), of "blob_filter h" 1] index_limits
  have "\<forall>e \<in> contents d. \<not> filter_matches (blob_filter h) e" by simp
  then have "\<forall>e \<in> contents d. \<forall>pk. \<not> is_entry h pk e" using entry_matches(2) [OF assms(2)] by blast
  with Nil show ?thesis by (auto simp: entry_get_def entry_keepers_def)
next
  case (Cons e r)
  with query_sound [OF assms(1), of e "blob_filter h" 1] have e: "e \<in> contents d" "filter_matches (blob_filter h) e" by auto
  with entry_matches(2) [OF assms(2)] obtain pk where pk: "is_entry h pk e" by blast
  from parse_entry_is [OF pk] obtain bd where "parse_entry w url e = Returned bd" "bd_sha256 bd = h" by blast
  with Cons pk e(1) show ?thesis by (auto simp: entry_get_def entry_keepers_def)
qed

end

sublocale event_store \<subseteq> blobs: blob_index "event_index w url ops" "\<lambda>d. inv d \<and> entries_ok (contents d)"
  "\<lambda>bd pk d. \<forall>e \<in> contents d. ev_id e \<noteq> ev_id (blob_entry w bd pk)" "\<lambda>d. entry_keepers (contents d)" for w url
proof (unfold_locales, goal_cases)
  case (1 b d pk)
  then have o: "inv b" "entries_ok (contents b)" by auto
  from o 1(2) show ?case
  proof (cases rule: keep_contents)
    case 2
    have "\<forall>x \<in> contents b. \<not> is_entry (bd_sha256 d) pk x" using 2(2) by (auto simp: entry_keepers_def)
    from entries_ok_insert [OF o(2) blob_entry_is 1(2) this] 2 show ?thesis by (simp add: event_index_def)
  qed (use o in \<open>simp add: event_index_def\<close>)
next
  case (2 b d pk)
  then have o: "inv b" "entries_ok (contents b)" by auto
  from o 2(2) show ?case
    by (cases rule: keep_contents) (auto simp: event_index_def entry_keepers_insert [OF blob_entry_is])
next
  case (3 b h)
  with get_entry [of b w url h] show ?case by (auto simp: event_index_def image_iff)
next
  case (4 b h d)
  with get_entry [of b w url h] show ?case by (auto simp: event_index_def)
next
  case (5 b h)
  with get_entry [of b w url h] show ?case by (auto simp: event_index_def)
next
  case (6 b h pk)
  with delete_contents [of b h pk] entries_ok_subset show ?case by (auto simp: event_index_def)
next
  case (7 b h pk)
  with delete_contents [of b h pk] show ?case by (simp add: event_index_def)
qed

end
