(* ===== verification/Blossom.thy ===== *)
theory Blossom
  imports BlobIndex
begin

text \<open>
  The Blossom server (\<^verbatim>\<open>khatru/blossom/\<close>) as \<^verbatim>\<open>blossom.go\<close> sets it up: who may do what, the handlers, and
  the routes it puts in front of the relay's. Of an error only the status is modelled; the hooks that
  \<^verbatim>\<open>blossom.go\<close> leaves empty are not there.
\<close>

subsection \<open>Requests\<close>

text \<open>
  A body is read in pieces as they arrive. It ends or breaks off; \<open>bb_joined\<close> says whether the last bytes
  come together with that news.
\<close>

datatype read_end = ReadMore | ReadEof | ReadBroken

record request_body =
  bb_pieces :: "string list"
  bb_breaks :: bool
  bb_joined :: bool

definition body_end :: "request_body \<Rightarrow> read_end" where
  "body_end b = (if bb_breaks b then ReadBroken else ReadEof)"

text \<open>One \<open>Read\<close> into a buffer of \<open>k\<close> bytes.\<close>

definition body_read :: "nat \<Rightarrow> request_body \<Rightarrow> string \<times> read_end \<times> request_body" where
  "body_read k b =
     (case bb_pieces b of
        [] \<Rightarrow> ([], body_end b, b)
      | c # cs \<Rightarrow>
          let rest = (if length c \<le> k then cs else drop k c # cs)
          in (take k c, if rest = [] \<and> bb_joined b then body_end b else ReadMore, b\<lparr>bb_pieces := rest\<rparr>))"

record blossom_request =
  br_method :: string
  br_path :: string
  br_authorization :: string
  br_content_length :: string
  br_content_type :: string
  br_body :: request_body

text \<open>The server with its hooks' file system and settings, and the members of any group.\<close>

record ('f, 'b) blossom_server =
  bv_url :: string
  bv_files :: "'f fs_ops"
  bv_index :: "'b index_ops"
  bv_settings :: blossom_settings
  bv_members :: "pubkey \<rightharpoonup> int"

record ('f, 'b) blob_state =
  bt_files :: 'f
  bt_index :: 'b

datatype blossom_answer =
    BsError nat | BsPanicked | BsEmpty | BsDescriptor blob_descriptor | BsHead blob_descriptor
  | BsList "blob_descriptor list" | BsRedirect string | BsServe string timestamp string

subsection \<open>Authorization\<close>

text \<open>\<open>RawURLEncoding\<close> first, then \<open>StdEncoding\<close>.\<close>

definition decode_authorization_token :: "string \<Rightarrow> string option" where
  "decode_authorization_token token =
     (case b64_url_decode token of Some j \<Rightarrow> Some j | None \<Rightarrow> b64_decode token)"

datatype authorization = AuthMissing | AuthRefused | AuthGiven event

definition read_authorization :: "blossom_outside \<Rightarrow> string \<Rightarrow> authorization" where
  "read_authorization w token =
     (if \<not> starts_with ''Nostr '' token then AuthMissing
      else case decode_authorization_token (drop 6 token) of
             None \<Rightarrow> AuthRefused
           | Some json \<Rightarrow>
               (case bo_event w json of
                  None \<Rightarrow> AuthRefused
                | Some e \<Rightarrow>
                    if ev_kind e \<noteq> 24242 \<or> cr_hash (bo_crypto w) e \<noteq> ev_id e then AuthRefused
                    else if \<not> bo_verify w e then AuthRefused
                    else case tags_find (ev_tags e) ''expiration'' of
                           None \<Rightarrow> AuthRefused
                         | Some t \<Rightarrow> if int_value (t ! 1) < bo_now w then AuthRefused else AuthGiven e))"

definition auth_for :: "event \<Rightarrow> string \<Rightarrow> bool" where
  "auth_for e verb \<longleftrightarrow> find_with_value (ev_tags e) ''t'' verb \<noteq> None"

definition auth_covers :: "string \<Rightarrow> event \<Rightarrow> string \<Rightarrow> bool" where
  "auth_covers url e h \<longleftrightarrow>
     find_with_value (ev_tags e) ''x'' h \<noteq> None \<or> find_with_value (ev_tags e) ''server'' url \<noteq> None"

fun upload_status :: "upload_answer \<Rightarrow> nat option" where
  "upload_status UploadNoAuth = Some 401"
| "upload_status UploadNotMember = Some 403"
| "upload_status UploadAllowed = None"

subsection \<open>Uploading\<close>

text \<open>\<open>handleUploadCheck\<close>; the size and the type its headers announce go to the hook, which looks at neither.\<close>

definition handle_upload_check ::
  "blossom_outside \<Rightarrow> ('f, 'b) blossom_server \<Rightarrow> blossom_request \<Rightarrow> blossom_answer" where
  "handle_upload_check w v q =
     (case read_authorization w (br_authorization q) of
        AuthRefused \<Rightarrow> BsError 400
      | AuthMissing \<Rightarrow> BsError 401
      | AuthGiven a \<Rightarrow>
          if \<not> auth_for a ''upload'' then BsError 403
          else case upload_status (reject_upload (Some a) (bv_members v)) of
                 Some code \<Rightarrow> BsError code
               | None \<Rightarrow> BsEmpty)"

text \<open>
  The loop that reads the rest. The check that the body is not longer than announced ends a round; here
  it begins the next one, and before the first it holds.
\<close>

function read_rest :: "nat \<Rightarrow> string \<Rightarrow> request_body \<Rightarrow> nat + string" where
  "read_rest want got b =
     (if want < length got then Inl 400
      else case body_read (want + 1 - length got) b of
             (data, ReadEof, b') \<Rightarrow> Inr (got @ data)
           | (data, ReadBroken, b') \<Rightarrow> Inl 400
           | (data, ReadMore, b') \<Rightarrow> read_rest want (got @ data) b')"
  by pat_completeness auto
termination
  by (relation "measure (\<lambda>(want, got, b). sum_list (map (\<lambda>c. Suc (length c)) (bb_pieces b)))")
    (auto simp: body_read_def body_end_def Let_def split: list.splits if_splits)

declare read_rest.simps [simp del]

text \<open>The type by the first bytes, else by the header; a zip that is said to be an apk is one.\<close>

definition upload_extension :: "blossom_outside \<Rightarrow> string \<Rightarrow> string \<Rightarrow> string" where
  "upload_extension w header start =
     (let ext = (case bo_magic w start of Some x \<Rightarrow> ''.'' @ x | None \<Rightarrow> get_extension w header)
      in if ext = ''.zip'' \<and> get_extension w header = ''.apk'' then ''.apk'' else ext)"

text \<open>The end of an upload and of a mirror: the descriptor is kept, then the bytes are saved.\<close>

definition keep_and_store ::
  "('f, 'b) blossom_server \<Rightarrow> blob_descriptor \<Rightarrow> string \<Rightarrow> string \<Rightarrow> pubkey \<Rightarrow> ('f, 'b) blob_state \<Rightarrow>
     blossom_answer \<times> ('f, 'b) blob_state" where
  "keep_and_store v bd ext body pk s =
     (case ix_keep (bv_index v) bd pk (bt_index s) of
        (False, b) \<Rightarrow> (BsError 400, s\<lparr>bt_index := b\<rparr>)
      | (True, b) \<Rightarrow>
          (case store_blob (bv_files v) (bd_sha256 bd) ext body (bt_files s) of
             (False, f) \<Rightarrow> (BsError 500, \<lparr>bt_files = f, bt_index = b\<rparr>)
           | (True, f) \<Rightarrow> (BsDescriptor bd, \<lparr>bt_files = f, bt_index = b\<rparr>)))"

definition blob_hash :: "blossom_outside \<Rightarrow> string \<Rightarrow> string" where
  "blob_hash w body = hex_of (bo_sha256 w body)"

definition uploaded_descriptor :: "blossom_outside \<Rightarrow> string \<Rightarrow> string \<Rightarrow> string \<Rightarrow> blob_descriptor" where
  "uploaded_descriptor w url ext body =
     (let mimetype = bo_type_by_extension w ext
      in \<lparr>bd_url = url @ ''/'' @ blob_hash w body @ ext, bd_sha256 = blob_hash w body, bd_size = int (length body),
          bd_type = (if mimetype = [] then ''application/octet-stream'' else mimetype), bd_uploaded = bo_now w\<rparr>)"

text \<open>
  \<open>handleUpload\<close>. The buffer takes the announced size and one byte more; \<open>make\<close> panics where it is more
  than \<open>bo_alloc_max\<close>. Bytes the first read does not fill stay zero.
\<close>

definition first_bytes :: "nat \<Rightarrow> string \<Rightarrow> string" where
  "first_bytes want data = data @ replicate (min 50 want - length data) (CHR 0x00)"

definition receive_upload ::
  "blossom_outside \<Rightarrow> ('f, 'b) blossom_server \<Rightarrow> event \<Rightarrow> nat \<Rightarrow> blossom_request \<Rightarrow> ('f, 'b) blob_state \<Rightarrow>
     blossom_answer \<times> ('f, 'b) blob_state" where
  "receive_upload w v a want q s =
     (case body_read (min 50 want) (br_body q) of
        (data, e, b) \<Rightarrow>
          if e \<noteq> ReadMore \<and> length data \<noteq> want then (BsError 400, s)
          else
            let start = first_bytes want data;
                ext = upload_extension w (br_content_type q) start
            in case upload_status (reject_upload (Some a) (bv_members v)) of
                 Some code \<Rightarrow> (BsError code, s)
               | None \<Rightarrow>
                   (case (if length start < want then read_rest want start b else Inr start) of
                      Inl code \<Rightarrow> (BsError code, s)
                    | Inr body \<Rightarrow>
                        if length body \<noteq> want then (BsError 400, s)
                        else keep_and_store v (uploaded_descriptor w (bv_url v) ext body) ext body (ev_pubkey a) s))"

definition handle_upload ::
  "blossom_outside \<Rightarrow> ('f, 'b) blossom_server \<Rightarrow> blossom_request \<Rightarrow> ('f, 'b) blob_state \<Rightarrow>
     blossom_answer \<times> ('f, 'b) blob_state" where
  "handle_upload w v q s =
     (case read_authorization w (br_authorization q) of
        AuthRefused \<Rightarrow> (BsError 404, s)
      | AuthMissing \<Rightarrow> (BsError 401, s)
      | AuthGiven a \<Rightarrow>
          if \<not> auth_for a ''upload'' then (BsError 403, s)
          else let want = int_value (br_content_length q)
               in if want \<le> 0 then (BsError 400, s)
                  else if bo_alloc_max w \<le> want then (BsPanicked, s)
                  else receive_upload w v a (nat want) q s)"

text \<open>\<open>handleMirror\<close>: the blob is fetched from the URL in the body.\<close>

definition mirror_extension :: "blossom_outside \<Rightarrow> string \<Rightarrow> string \<Rightarrow> string \<Rightarrow> string" where
  "mirror_extension w content_type body url =
     (if content_type \<noteq> [] then get_extension w content_type
      else case bo_magic w body of
             Some x \<Rightarrow> ''.'' @ x
           | None \<Rightarrow> if CHR ''.'' \<in> set url then CHR ''.'' # rev (takeWhile (\<lambda>c. c \<noteq> CHR ''.'') (rev url)) else [])"

definition mirrored_descriptor ::
  "blossom_outside \<Rightarrow> string \<Rightarrow> string \<Rightarrow> string \<Rightarrow> string \<Rightarrow> blob_descriptor" where
  "mirrored_descriptor w url content_type ext body =
     \<lparr>bd_url = url @ ''/'' @ blob_hash w body @ ext, bd_sha256 = blob_hash w body, bd_size = int (length body),
      bd_type = content_type, bd_uploaded = bo_now w\<rparr>"

definition handle_mirror ::
  "blossom_outside \<Rightarrow> ('f, 'b) blossom_server \<Rightarrow> blossom_request \<Rightarrow> ('f, 'b) blob_state \<Rightarrow>
     blossom_answer \<times> ('f, 'b) blob_state" where
  "handle_mirror w v q s =
     (case read_authorization w (br_authorization q) of
        AuthRefused \<Rightarrow> (BsError 400, s)
      | AuthMissing \<Rightarrow> (BsError 401, s)
      | AuthGiven a \<Rightarrow>
          if \<not> auth_for a ''upload'' then (BsError 403, s)
          else case bo_mirror_url w (concat (bb_pieces (br_body q))) of
                 None \<Rightarrow> (BsError 400, s)
               | Some url \<Rightarrow>
                   (case bo_fetch w url of
                      None \<Rightarrow> (BsError 503, s)
                    | Some (content_type, None) \<Rightarrow> (BsError 503, s)
                    | Some (content_type, Some body) \<Rightarrow>
                        if find_with_value (ev_tags a) ''x'' (blob_hash w body) = None then (BsError 403, s)
                        else let ext = mirror_extension w content_type body url
                             in case upload_status (reject_upload (Some a) (bv_members v)) of
                                  Some code \<Rightarrow> (BsError code, s)
                                | None \<Rightarrow>
                                    keep_and_store v (mirrored_descriptor w (bv_url v) content_type ext body)
                                      ext body (ev_pubkey a) s))"

subsection \<open>Reading\<close>

text \<open>\<open>/<sha256>[.ext]\<close>: 64 characters up to the first dot, and what follows it.\<close>

definition path_hash :: "string \<Rightarrow> string option" where
  "path_hash path =
     (let first = takeWhile (\<lambda>c. c \<noteq> CHR ''.'') path
      in if length first \<noteq> 65 then None else Some (drop 1 first))"

definition path_extension :: "string \<Rightarrow> string" where
  "path_extension path = (case cut_at (CHR ''.'') path of None \<Rightarrow> [] | Some (_, x) \<Rightarrow> x)"

text \<open>The extension a blob is looked up under: by its descriptor; by the path only if the index fails.\<close>

definition known_extension ::
  "blossom_outside \<Rightarrow> ('f, 'b) blossom_server \<Rightarrow> string \<Rightarrow> string \<Rightarrow> 'b \<Rightarrow> string outcome" where
  "known_extension w v path h b =
     (case ix_get (bv_index v) h b of
        IndexPanicked \<Rightarrow> Panicked
      | IndexFailed \<Rightarrow> Returned (path_extension path)
      | IndexMissing \<Rightarrow> Returned []
      | IndexFound d \<Rightarrow> Returned (get_extension w (bd_type d)))"

text \<open>
  What \<open>LoadBlob\<close> gives. A file that cannot be opened is answered by \<open>ServeContent\<close>: the file systems
  return a nil file in an interface that is not nil. Ranges and conditions of the request, which
  \<open>ServeContent\<close> also answers, are left out.
\<close>

definition serve_blob ::
  "blossom_outside \<Rightarrow> ('f, 'b) blossom_server \<Rightarrow> string \<Rightarrow> string \<Rightarrow> ('f, 'b) blob_state \<Rightarrow> blossom_answer" where
  "serve_blob w v h ext s =
     (case load_blob (bo_redirect w) (bv_settings v) (bv_files v) h ext (bt_files s) of
        BlobRedirect u \<Rightarrow> if bo_names_word w h u then BsRedirect u else BsError 500
      | BlobBadBase \<Rightarrow> BsError 404
      | BlobMissing \<Rightarrow> BsError 500
      | BlobData d \<Rightarrow>
          BsServe (h @ ext)
            (case ix_get (bv_index v) h (bt_index s) of IndexFound bd \<Rightarrow> bd_uploaded bd | _ \<Rightarrow> 0) d)"

text \<open>\<open>handleGetBlob\<close>, with its check of an authorization that is given.\<close>

definition get_refused :: "string \<Rightarrow> string \<Rightarrow> authorization \<Rightarrow> nat option" where
  "get_refused url h auth =
     (case auth of
        AuthRefused \<Rightarrow> Some 400
      | AuthMissing \<Rightarrow> None
      | AuthGiven a \<Rightarrow> if auth_for a ''get'' \<and> auth_covers url a h then None else Some 403)"

definition handle_get_blob ::
  "blossom_outside \<Rightarrow> ('f, 'b) blossom_server \<Rightarrow> blossom_request \<Rightarrow> ('f, 'b) blob_state \<Rightarrow> blossom_answer" where
  "handle_get_blob w v q s =
     (case path_hash (br_path q) of
        None \<Rightarrow> BsError 400
      | Some h \<Rightarrow>
          (case get_refused (bv_url v) h (read_authorization w (br_authorization q)) of
             Some code \<Rightarrow> BsError code
           | None \<Rightarrow>
               (case known_extension w v (br_path q) h (bt_index s) of
                  Panicked \<Rightarrow> BsPanicked
                | Returned ext \<Rightarrow> serve_blob w v h ext s)))"

definition handle_has_blob ::
  "('f, 'b) blossom_server \<Rightarrow> blossom_request \<Rightarrow> ('f, 'b) blob_state \<Rightarrow> blossom_answer" where
  "handle_has_blob v q s =
     (case path_hash (br_path q) of
        None \<Rightarrow> BsError 400
      | Some h \<Rightarrow>
          (case ix_get (bv_index v) h (bt_index s) of
             IndexPanicked \<Rightarrow> BsPanicked
           | IndexFailed \<Rightarrow> BsError 500
           | IndexMissing \<Rightarrow> BsError 404
           | IndexFound d \<Rightarrow> BsHead d))"

text \<open>
  \<open>handleList\<close> drops the error of \<open>PubKeyFromHex\<close>: it lists for the bytes decoded so far.
\<close>

fun decoded_bytes :: "nat \<Rightarrow> nat \<Rightarrow> string \<Rightarrow> nat" where
  "decoded_bytes acc (Suc k) (a # b # cs) =
     (case (from_hex_char a, from_hex_char b) of
        (Some x, Some y) \<Rightarrow> decoded_bytes (256 * acc + (16 * x + y)) k cs
      | _ \<Rightarrow> acc * 256 ^ Suc k)"
| "decoded_bytes acc k cs = acc * 256 ^ k"

definition listed_key :: "string \<Rightarrow> pubkey" where
  "listed_key x = (if length x \<noteq> 64 then 0 else word_of_nat (decoded_bytes 0 32 x))"

definition handle_list ::
  "blossom_outside \<Rightarrow> ('f, 'b) blossom_server \<Rightarrow> blossom_request \<Rightarrow> ('f, 'b) blob_state \<Rightarrow> blossom_answer" where
  "handle_list w v q s =
     (let listed = (case ix_list (bv_index v) (listed_key (drop 6 (br_path q))) (bt_index s) of
                      Panicked \<Rightarrow> BsPanicked | Returned ds \<Rightarrow> BsList ds)
      in case read_authorization w (br_authorization q) of
           AuthRefused \<Rightarrow> BsError 400
         | AuthMissing \<Rightarrow> listed
         | AuthGiven a \<Rightarrow> if auth_for a ''list'' then listed else BsError 403)"

subsection \<open>Deleting and the rest\<close>

text \<open>\<open>handleDelete\<close>: without an authorization the tags of a nil event are read.\<close>

definition delete_for ::
  "blossom_outside \<Rightarrow> ('f, 'b) blossom_server \<Rightarrow> event \<Rightarrow> string \<Rightarrow> string \<Rightarrow> ('f, 'b) blob_state \<Rightarrow>
     blossom_answer \<times> ('f, 'b) blob_state" where
  "delete_for w v a path h s =
     (case known_extension w v path h (bt_index s) of
        Panicked \<Rightarrow> (BsPanicked, s)
      | Returned ext \<Rightarrow>
          (case ix_delete (bv_index v) h (ev_pubkey a) (bt_index s) of
             (False, b) \<Rightarrow> (BsError 500, s\<lparr>bt_index := b\<rparr>)
           | (True, b) \<Rightarrow>
               (case ix_get (bv_index v) h b of
                  IndexMissing \<Rightarrow>
                    (case delete_blob (bv_files v) h ext (bt_files s) of
                       (deleted, f) \<Rightarrow> (if deleted then BsEmpty else BsError 500, \<lparr>bt_files = f, bt_index = b\<rparr>))
                | IndexPanicked \<Rightarrow> (BsPanicked, s\<lparr>bt_index := b\<rparr>)
                | _ \<Rightarrow> (BsEmpty, s\<lparr>bt_index := b\<rparr>))))"

definition handle_delete ::
  "blossom_outside \<Rightarrow> ('f, 'b) blossom_server \<Rightarrow> blossom_request \<Rightarrow> ('f, 'b) blob_state \<Rightarrow>
     blossom_answer \<times> ('f, 'b) blob_state" where
  "handle_delete w v q s =
     (case read_authorization w (br_authorization q) of
        AuthRefused \<Rightarrow> (BsError 400, s)
      | AuthMissing \<Rightarrow> (if path_hash (br_path q) = None then BsError 400 else BsPanicked, s)
      | AuthGiven a \<Rightarrow>
          if \<not> auth_for a ''delete'' then (BsError 403, s)
          else case path_hash (br_path q) of
                 None \<Rightarrow> (BsError 400, s)
               | Some h \<Rightarrow>
                   if auth_covers (bv_url v) a h then delete_for w v a (br_path q) h s else (BsError 403, s))"

text \<open>\<open>handleReport\<close> reads into a slice without room.\<close>

definition handle_report :: "blossom_outside \<Rightarrow> blossom_request \<Rightarrow> blossom_answer" where
  "handle_report w q =
     (case body_read 0 (br_body q) of
        (data, e, b) \<Rightarrow>
          if e \<noteq> ReadMore then BsError 400
          else case bo_event w data of
                 None \<Rightarrow> BsError 400
               | Some r \<Rightarrow> if bo_verify w r \<and> ev_kind r = 1984 then BsEmpty else BsError 400)"

subsection \<open>Routes\<close>

text \<open>The routes of \<open>New\<close>; \<open>None\<close> hands the request on to the relay's own.\<close>

definition is_blob_path :: "string \<Rightarrow> bool" where
  "is_blob_path p \<longleftrightarrow>
     (length p = 65 \<or> index_func (\<lambda>c. c = CHR ''.'') p = Some 65) \<and> CHR ''/'' \<notin> set (drop 1 p)"

definition blossom_route ::
  "blossom_outside \<Rightarrow> ('f, 'b) blossom_server \<Rightarrow> blossom_request \<Rightarrow> ('f, 'b) blob_state \<Rightarrow>
     (blossom_answer \<times> ('f, 'b) blob_state) option" where
  "blossom_route w v q s =
     (let p = br_path q; verb = br_method q
      in if p = ''/upload'' \<and> verb = ''PUT'' then Some (handle_upload w v q s)
         else if p = ''/upload'' \<and> verb = ''HEAD'' then Some (handle_upload_check w v q, s)
         else if p = ''/media'' then Some (BsRedirect ''/upload'', s)
         else if p = ''/mirror'' \<and> verb = ''PUT'' then Some (handle_mirror w v q s)
         else if starts_with ''/list/'' p \<and> verb = ''GET'' then Some (handle_list w v q s, s)
         else if is_blob_path p \<and> verb = ''HEAD'' then Some (handle_has_blob v q s, s)
         else if is_blob_path p \<and> verb = ''GET'' then Some (handle_get_blob w v q s, s)
         else if is_blob_path p \<and> verb = ''DELETE'' then Some (handle_delete w v q s)
         else if p = ''/report'' \<and> verb = ''PUT'' then Some (handle_report w q, s)
         else None)"

subsection \<open>What a request can change\<close>

lemma read_authorization_given:
  assumes "read_authorization w token = AuthGiven e"
  shows "ev_kind e = 24242 \<and> cr_hash (bo_crypto w) e = ev_id e \<and> bo_verify w e \<and>
    (\<exists>t. tags_find (ev_tags e) ''expiration'' = Some t \<and> bo_now w \<le> int_value (t ! 1))"
  using assms by (auto simp: read_authorization_def not_less split: if_splits option.splits)

lemma upload_status_None: "upload_status (reject_upload (Some a) m) = None \<longleftrightarrow> m (ev_pubkey a) \<noteq> None"
  by (simp add: reject_upload_def)

lemma length_blob_hash [simp]: "length (blob_hash w body) = 64"
  by (simp add: blob_hash_def)

lemma descriptor_hash [simp]:
  "bd_sha256 (uploaded_descriptor w url ext body) = blob_hash w body"
  "bd_sha256 (mirrored_descriptor w url ct ext body) = blob_hash w body"
  by (simp_all add: uploaded_descriptor_def mirrored_descriptor_def Let_def)

lemma receive_upload_cases:
  assumes "receive_upload w v a want q s = (ans, s')"
  obtains code where "ans = BsError code" "s' = s"
    | ext body where "bv_members v (ev_pubkey a) \<noteq> None" "length body = want"
      "keep_and_store v (uploaded_descriptor w (bv_url v) ext body) ext body (ev_pubkey a) s = (ans, s')"
      "\<exists>data e b. body_read (min 50 want) (br_body q) = (data, e, b) \<and>
         (if length (first_bytes want data) < want then read_rest want (first_bytes want data) b = Inr body
          else body = first_bytes want data)"
proof -
  obtain data e b where r: "body_read (min 50 want) (br_body q) = (data, e, b)" by (metis prod_cases3)
  let ?start = "first_bytes want data"
  show ?thesis
  proof (cases "(e \<noteq> ReadMore \<and> length data \<noteq> want) \<or> upload_status (reject_upload (Some a) (bv_members v)) \<noteq> None")
    case True
    with assms r that(1) show ?thesis
      by (auto simp: receive_upload_def Let_def split: if_splits option.splits)
  next
    case False
    then have m: "bv_members v (ev_pubkey a) \<noteq> None" using upload_status_None by blast
    let ?rest = "if length ?start < want then read_rest want ?start b else Inr ?start"
    have eq: "(case ?rest of
          Inl code \<Rightarrow> (BsError code, s)
        | Inr body \<Rightarrow>
            if length body \<noteq> want then (BsError 400, s)
            else keep_and_store v (uploaded_descriptor w (bv_url v) (upload_extension w (br_content_type q) ?start) body)
                   (upload_extension w (br_content_type q) ?start) body (ev_pubkey a) s) = (ans, s')"
      using False assms unfolding receive_upload_def r by (auto simp: Let_def)
    show ?thesis
    proof (cases ?rest)
      case (Inl code)
      from eq [unfolded Inl] have "ans = BsError code" "s' = s" by simp_all
      then show ?thesis by (rule that(1))
    next
      case (Inr body)
      have p: "if length ?start < want then read_rest want ?start b = Inr body else body = ?start"
        using Inr by (simp split: if_splits)
      show ?thesis
      proof (cases "length body = want")
        case True
        from eq [unfolded Inr] True
        have "keep_and_store v (uploaded_descriptor w (bv_url v) (upload_extension w (br_content_type q) ?start) body)
            (upload_extension w (br_content_type q) ?start) body (ev_pubkey a) s = (ans, s')"
          by (simp only: sum.case simp_thms if_False)
        then show ?thesis using r p by (intro that(2) [OF m True]) blast+
      next
        case wrong: False
        from eq [unfolded Inr] wrong have "ans = BsError 400" "s' = s" by simp_all
        then show ?thesis by (rule that(1))
      qed
    qed
  qed
qed

lemma handle_upload_cases:
  assumes "handle_upload w v q s = (ans, s')"
  obtains code where "ans = BsError code" "s' = s"
    | a where "ans = BsPanicked" "s' = s" "read_authorization w (br_authorization q) = AuthGiven a"
        "auth_for a ''upload''" "bo_alloc_max w \<le> int_value (br_content_length q)" "0 < int_value (br_content_length q)"
    | a where "read_authorization w (br_authorization q) = AuthGiven a" "auth_for a ''upload''"
        "0 < int_value (br_content_length q)"
        "receive_upload w v a (nat (int_value (br_content_length q))) q s = (ans, s')"
proof (cases "\<exists>a. read_authorization w (br_authorization q) = AuthGiven a \<and> auth_for a ''upload'' \<and>
    0 < int_value (br_content_length q)")
  case True
  then obtain a where a: "read_authorization w (br_authorization q) = AuthGiven a" "auth_for a ''upload''"
    "0 < int_value (br_content_length q)" by blast
  show ?thesis
  proof (cases "bo_alloc_max w \<le> int_value (br_content_length q)")
    case big: True
    with assms a have "ans = BsPanicked" "s' = s" by (simp_all add: handle_upload_def)
    then show ?thesis using a big by (intro that(2))
  next
    case False
    with assms a have "receive_upload w v a (nat (int_value (br_content_length q))) q s = (ans, s')"
      by (simp add: handle_upload_def)
    then show ?thesis by (rule that(3) [OF a])
  qed
next
  case False
  then have "\<exists>code. ans = BsError code \<and> s' = s"
    using assms by (auto simp: handle_upload_def Let_def split: authorization.splits if_splits)
  then show ?thesis using that(1) by blast
qed

lemma handle_mirror_cases:
  assumes "handle_mirror w v q s = (ans, s')"
  obtains code where "ans = BsError code" "s' = s"
    | a ct ext body where "read_authorization w (br_authorization q) = AuthGiven a" "auth_for a ''upload''"
        "bv_members v (ev_pubkey a) \<noteq> None"
        "keep_and_store v (mirrored_descriptor w (bv_url v) ct ext body) ext body (ev_pubkey a) s = (ans, s')"
proof (cases "\<exists>code. ans = BsError code \<and> s' = s")
  case False
  then obtain a where a: "read_authorization w (br_authorization q) = AuthGiven a" "auth_for a ''upload''"
    using assms by (auto simp: handle_mirror_def split: authorization.splits if_splits)
  let ?checked = "\<lambda>ct url body.
     if find_with_value (ev_tags a) ''x'' (blob_hash w body) = None then (BsError 403, s)
     else let ext = mirror_extension w ct body url
          in case upload_status (reject_upload (Some a) (bv_members v)) of
               Some code \<Rightarrow> (BsError code, s)
             | None \<Rightarrow> keep_and_store v (mirrored_descriptor w (bv_url v) ct ext body) ext body (ev_pubkey a) s"
  have m: "(case bo_mirror_url w (concat (bb_pieces (br_body q))) of
       None \<Rightarrow> (BsError 400, s)
     | Some url \<Rightarrow>
         (case bo_fetch w url of
            None \<Rightarrow> (BsError 503, s)
          | Some (ct, None) \<Rightarrow> (BsError 503, s)
          | Some (ct, Some body) \<Rightarrow> ?checked ct url body)) = (ans, s')"
    using assms a by (simp add: handle_mirror_def cong del: if_weak_cong)
  then obtain url where url: "bo_mirror_url w (concat (bb_pieces (br_body q))) = Some url"
    using False by (cases "bo_mirror_url w (concat (bb_pieces (br_body q)))") auto
  note m = m [unfolded url option.case]
  obtain ct body where f: "bo_fetch w url = Some (ct, Some body)"
    using m False by (cases "bo_fetch w url") (auto split: option.splits)
  note m = m [unfolded f option.case prod.case]
  let ?ext = "mirror_extension w ct body url"
  have "find_with_value (ev_tags a) ''x'' (blob_hash w body) \<noteq> None"
  proof
    assume "find_with_value (ev_tags a) ''x'' (blob_hash w body) = None"
    with m have "ans = BsError 403 \<and> s' = s" by simp
    with False show False by blast
  qed
  then obtain t where x: "find_with_value (ev_tags a) ''x'' (blob_hash w body) = Some t" by blast
  have n: "(case upload_status (reject_upload (Some a) (bv_members v)) of
       Some code \<Rightarrow> (BsError code, s)
     | None \<Rightarrow> keep_and_store v (mirrored_descriptor w (bv_url v) ct ?ext body) ?ext body (ev_pubkey a) s) = (ans, s')"
    using m unfolding x by (simp only: option.distinct if_False Let_def)
  then have none: "upload_status (reject_upload (Some a) (bv_members v)) = None"
    using False by (auto split: option.splits)
  from n [unfolded none option.case] that(2) [OF a] none show ?thesis by (simp add: upload_status_None)
qed (use that(1) in blast)

lemma handle_delete_cases:
  assumes "handle_delete w v q s = (ans, s')"
  obtains code where "ans = BsError code" "s' = s"
    | "ans = BsPanicked" "s' = s" "read_authorization w (br_authorization q) = AuthMissing" "path_hash (br_path q) \<noteq> None"
    | a h where "read_authorization w (br_authorization q) = AuthGiven a" "auth_for a ''delete''"
        "path_hash (br_path q) = Some h" "auth_covers (bv_url v) a h" "delete_for w v a (br_path q) h s = (ans, s')"
  using assms by (auto simp: handle_delete_def split: authorization.splits if_splits option.splits)

text \<open>A request that changes the state is an upload, a mirror or a deletion.\<close>

lemma blossom_route_cases:
  assumes "blossom_route w v q s = Some (ans, s')"
  obtains "s' = s"
    | a bd ext body where "read_authorization w (br_authorization q) = AuthGiven a" "auth_for a ''upload''"
        "bv_members v (ev_pubkey a) \<noteq> None" "bd_sha256 bd = blob_hash w body"
        "keep_and_store v bd ext body (ev_pubkey a) s = (ans, s')"
    | a h where "read_authorization w (br_authorization q) = AuthGiven a" "auth_for a ''delete''"
        "path_hash (br_path q) = Some h" "auth_covers (bv_url v) a h" "delete_for w v a (br_path q) h s = (ans, s')"
proof -
  have "s' = s \<or> handle_upload w v q s = (ans, s') \<or> handle_mirror w v q s = (ans, s') \<or> handle_delete w v q s = (ans, s')"
    using assms by (auto simp: blossom_route_def Let_def split: if_splits)
  then consider "s' = s" | "handle_upload w v q s = (ans, s')" | "handle_mirror w v q s = (ans, s')"
    | "handle_delete w v q s = (ans, s')" by blast
  then show ?thesis
  proof cases
    case 2
    then show ?thesis
    proof (cases rule: handle_upload_cases)
      case (3 a)
      from 3(4) show ?thesis
      proof (cases rule: receive_upload_cases)
        case (2 ext body)
        show ?thesis by (rule that(2) [OF 3(1,2) 2(1) _ 2(3)]) simp
      qed (use that(1) in simp)
    qed (use that(1) in simp_all)
  next
    case 3
    then show ?thesis
    proof (cases rule: handle_mirror_cases)
      case (2 a ct ext body)
      show ?thesis by (rule that(2) [OF 2(1,2,3) _ 2(4)]) simp
    qed (use that(1) in simp)
  next
    case 4
    then show ?thesis
      by (cases rule: handle_delete_cases) (use that in auto)
  qed (use that(1) in simp)
qed

end
