(* ===== verification/Custody.thy ===== *)
theory Custody
  imports Blossom Examples
begin

text \<open>
  What the Blossom server promises: its files are named by the hash of their bytes, a blob changes only for
  an authorized request and is removed only when nobody keeps it, an upload can be read back, and the
  requests that make a handler panic.
\<close>

subsection \<open>The two ways to change a blob\<close>

text \<open>Keeping adds at most the key's entry, and the file at most under its hash.\<close>

lemma keep_and_store_effect:
  assumes "keep_and_store v bd ext body pk s = (ans, s')"
  shows "ans \<in> {BsError 400, BsError 500, BsDescriptor bd} \<and> bt_index s' = snd (ix_keep (bv_index v) bd pk (bt_index s)) \<and>
    (bt_files s' = bt_files s \<or> bt_files s' = snd (store_blob (bv_files v) (bd_sha256 bd) ext body (bt_files s)))"
proof -
  obtain r b where k: "ix_keep (bv_index v) bd pk (bt_index s) = (r, b)" by fastforce
  obtain t f where t: "store_blob (bv_files v) (bd_sha256 bd) ext body (bt_files s) = (t, f)" by fastforce
  from assms show ?thesis by (cases r; cases t) (auto simp: keep_and_store_def k t)
qed

lemma delete_for_files:
  assumes "delete_for w v a path h s = (ans, s')"
  shows "ans \<in> {BsError 500, BsEmpty, BsPanicked} \<and> (bt_files s' = bt_files s \<or> (\<exists>ext. bt_files s' = snd (delete_blob (bv_files v) h ext (bt_files s))))"
proof (cases "known_extension w v path h (bt_index s)")
  case (Returned ext)
  obtain deleted f where f: "delete_blob (bv_files v) h ext (bt_files s) = (deleted, f)" by fastforce
  have "ans \<in> {BsError 500, BsEmpty, BsPanicked} \<and> (bt_files s' = bt_files s \<or> bt_files s' = f)"
    using assms Returned f
    by (auto simp: delete_for_def split: prod.splits bool.splits index_answer.splits if_splits)
  then show ?thesis using f by (metis snd_conv)
qed (use assms in \<open>simp add: delete_for_def\<close>)

subsection \<open>What is asked of the files\<close>

text \<open>Saving writes the named file or nothing, removing removes it or nothing.\<close>

locale content_files =
  fixes files :: "'f fs_ops"
    and names :: "string \<Rightarrow> bool"
  assumes save_only: "names p \<Longrightarrow> names q \<Longrightarrow>
      fo_open files q (snd (fo_save files p d s)) = fo_open files q s \<or>
      (q = p \<and> fo_open files q (snd (fo_save files p d s)) = Some d)"
    and remove_only: "names p \<Longrightarrow> names q \<Longrightarrow>
      fo_open files q (snd (fo_remove files p s)) = fo_open files q s \<or>
      (q = p \<and> fo_open files q (snd (fo_remove files p s)) = None)"

definition content_addressed :: "blossom_outside \<Rightarrow> 'f fs_ops \<Rightarrow> (string \<Rightarrow> bool) \<Rightarrow> 'f \<Rightarrow> bool" where
  "content_addressed w files names s \<longleftrightarrow>
     (\<forall>p d. names p \<longrightarrow> fo_open files p s = Some d \<longrightarrow> take 64 p = blob_hash w d)"

context content_files
begin

lemma store_addressed:
  assumes "content_addressed w files names s" "names (blob_hash w body @ ext)"
  shows "content_addressed w files names (snd (store_blob files (blob_hash w body) ext body s))"
  unfolding content_addressed_def
proof (intro allI impI)
  fix p d assume p: "names p" "fo_open files p (snd (store_blob files (blob_hash w body) ext body s)) = Some d"
  from save_only [OF assms(2) p(1), of body s] show "take 64 p = blob_hash w d"
  proof (elim disjE conjE)
    assume "fo_open files p (snd (fo_save files (blob_hash w body @ ext) body s)) = fo_open files p s"
    with p assms(1) show ?thesis by (auto simp: store_blob_def content_addressed_def)
  next
    assume "p = blob_hash w body @ ext"
      "fo_open files p (snd (fo_save files (blob_hash w body @ ext) body s)) = Some body"
    with p(2) show ?thesis by (simp add: store_blob_def)
  qed
qed

lemma delete_addressed:
  assumes "content_addressed w files names s" "names (h @ ext)"
  shows "content_addressed w files names (snd (delete_blob files h ext s))"
  unfolding content_addressed_def
proof (intro allI impI)
  fix p d assume p: "names p" "fo_open files p (snd (delete_blob files h ext s)) = Some d"
  then have "fo_open files p s = Some d"
    using remove_only [OF assms(2) p(1), of s] by (auto simp: delete_blob_def)
  with assms(1) p(1) show "take 64 p = blob_hash w d" by (auto simp: content_addressed_def)
qed

lemma route_keeps_addressed:
  assumes "\<And>x. names x" "bv_files v = files" "content_addressed w files names (bt_files s)"
    and "blossom_route w v q s = Some (ans, s')"
  shows "content_addressed w files names (bt_files s')"
  using assms(4)
proof (cases rule: blossom_route_cases)
  case (2 a bd ext body)
  from keep_and_store_effect [OF 2(5)] store_addressed [OF assms(3) assms(1), of body ext] 2(4) assms(2,3)
  show ?thesis by force
next
  case (3 a h)
  from delete_for_files [OF 3(5)] delete_addressed [OF assms(3) assms(1), of h] assms(2,3)
  show ?thesis by force
qed (use assms in simp)

text \<open>What is served under a hash has that hash.\<close>

lemma served_has_hash:
  assumes "\<And>x. names x" "content_addressed w files names (bt_files s)" "length h = 64" "bv_files v = files"
    and "serve_blob w v h ext s = BsServe nm t d"
  shows "nm = h @ ext \<and> blob_hash w d = h"
proof -
  have "load_blob (bo_redirect w) (bv_settings v) files h ext (bt_files s) = BlobData d" "nm = h @ ext"
    using assms(4,5) by (auto simp: serve_blob_def split: blob_answer.splits if_splits)
  then have "fo_open files (h @ ext) (bt_files s) = Some d"
    by (auto simp: load_blob_def split: if_splits option.splits)
  with assms(2) have "take 64 (h @ ext) = blob_hash w d" using assms(1) unfolding content_addressed_def by blast
  with assms(3) \<open>nm = h @ ext\<close> show ?thesis by simp
qed

end

interpretation bucket: content_files "s3_fs bucket_client" "\<lambda>_. True"
proof
  fix p q d and s :: "(string \<times> string) list"
  show "fo_open (s3_fs bucket_client) q (snd (fo_save (s3_fs bucket_client) p d s)) = fo_open (s3_fs bucket_client) q s \<or>
      (q = p \<and> fo_open (s3_fs bucket_client) q (snd (fo_save (s3_fs bucket_client) p d s)) = Some d)"
    by (cases "q = p") (auto simp: s3_fs_def s3_save_def bucket_client_def map_of_other)
  show "fo_open (s3_fs bucket_client) q (snd (fo_remove (s3_fs bucket_client) p s)) = fo_open (s3_fs bucket_client) q s \<or>
      (q = p \<and> fo_open (s3_fs bucket_client) q (snd (fo_remove (s3_fs bucket_client) p s)) = None)"
    by (cases "q = p") (auto simp: s3_fs_def bucket_client_def map_of_other map_of_dropped)
qed

interpretation folder: content_files "subdir_fs memory_dir (CHR ''/'' # dir)" plain_name for dir
  by unfold_locales (auto simp: subdir_fs_def subdir_save_def memory_dir_def file_join_inject)

subsection \<open>The server over an index and files\<close>

locale blob_server = blob_index "bv_index v" ok fresh keepers + content_files "bv_files v" names
  for v :: "('f, 'b) blossom_server" and ok fresh keepers names
begin

lemma known_extension_returns: "ok b \<Longrightarrow> known_extension w v path h b \<noteq> Panicked"
  using get_returns [of b h] by (auto simp: known_extension_def split: index_answer.splits)

text \<open>A deletion takes away the key's entry, and the file only if nobody else keeps the blob.\<close>

lemma delete_for_effect:
  assumes "ok (bt_index s)" "delete_for w v a path h s = (ans, s')"
  shows "ans \<noteq> BsPanicked \<and> ok (bt_index s') \<and>
    (keepers (bt_index s') = keepers (bt_index s) \<or>
     keepers (bt_index s') = keepers (bt_index s) - {(h, ev_pubkey a)}) \<and>
    (bt_files s' = bt_files s \<or>
     ((\<forall>pk. pk \<noteq> ev_pubkey a \<longrightarrow> (h, pk) \<notin> keepers (bt_index s)) \<and>
      (\<exists>ext. known_extension w v path h (bt_index s) = Returned ext \<and>
             bt_files s' = snd (delete_blob (bv_files v) h ext (bt_files s)))))"
proof -
  obtain ext where ext: "known_extension w v path h (bt_index s) = Returned ext"
    using known_extension_returns [OF assms(1)] by (metis outcome.exhaust)
  obtain r b where d: "ix_delete (bv_index v) h (ev_pubkey a) (bt_index s) = (r, b)" by fastforce
  have b: "ok b" "keepers b = (if r then keepers (bt_index s) - {(h, ev_pubkey a)} else keepers (bt_index s))"
    using delete_ok [OF assms(1)] delete_keepers [OF assms(1), of h "ev_pubkey a"] d by (metis fst_conv snd_conv)+
  show ?thesis
  proof (cases "r \<and> ix_get (bv_index v) h b = IndexMissing")
    case True
    then have none: "\<forall>pk. pk \<noteq> ev_pubkey a \<longrightarrow> (h, pk) \<notin> keepers (bt_index s)"
      using missing_after_delete [OF assms(1), of h "ev_pubkey a" b] d by auto
    obtain deleted f where f: "delete_blob (bv_files v) h ext (bt_files s) = (deleted, f)" by fastforce
    from assms(2) True d f have "s' = \<lparr>bt_files = f, bt_index = b\<rparr>" "ans \<noteq> BsPanicked"
      by (auto simp: delete_for_def ext split: if_splits)
    with b True none f ext show ?thesis by simp
  next
    case False
    from assms(2) False d get_returns [OF b(1), of h]
    have "s' = s\<lparr>bt_index := b\<rparr>" "ans \<noteq> BsPanicked"
      by (auto simp: delete_for_def ext split: bool.splits index_answer.splits)
    with b show ?thesis by (cases r) simp_all
  qed
qed

end

lemma route_serves:
  assumes "blossom_route w v q s = Some (BsServe nm t d, s')"
  obtains h ext where "path_hash (br_path q) = Some h" "serve_blob w v h ext s = BsServe nm t d"
proof -
  have u: "handle_upload w v q s \<noteq> (BsServe nm t d, s')"
  proof
    assume "handle_upload w v q s = (BsServe nm t d, s')"
    then show False
      by (cases rule: handle_upload_cases)
        (auto elim!: receive_upload_cases dest!: keep_and_store_effect)
  qed
  have m: "handle_mirror w v q s \<noteq> (BsServe nm t d, s')"
  proof
    assume "handle_mirror w v q s = (BsServe nm t d, s')"
    then show False by (cases rule: handle_mirror_cases) (auto dest!: keep_and_store_effect)
  qed
  have e: "handle_delete w v q s \<noteq> (BsServe nm t d, s')"
  proof
    assume "handle_delete w v q s = (BsServe nm t d, s')"
    then show False by (cases rule: handle_delete_cases) (auto dest!: delete_for_files)
  qed
  have "handle_get_blob w v q s = BsServe nm t d"
    using assms u m e
    by (auto simp: blossom_route_def Let_def handle_upload_check_def handle_list_def handle_has_blob_def
        handle_report_def split: if_splits authorization.splits option.splits index_answer.splits
        outcome.splits prod.splits)
  then show ?thesis using that
    by (auto simp: handle_get_blob_def split: option.splits outcome.splits)
qed

lemma path_hash_length: "path_hash p = Some h \<Longrightarrow> length h = 64"
  by (auto simp: path_hash_def Let_def split: if_splits)

subsection \<open>A server on a bucket\<close>

text \<open>The server whose files are a bucket and whose index is a store of events.\<close>

definition bucket_server ::
  "blossom_outside \<Rightarrow> ((string \<times> string) list, slice_store) blossom_server \<Rightarrow>
     ((string \<times> string) list, slice_store) blossom_server" where
  "bucket_server w v = v\<lparr>bv_files := s3_fs bucket_client, bv_index := event_index w (bv_url v) slice_ops\<rparr>"

interpretation custody: blob_server "bucket_server w v" "\<lambda>d. slice_inv d \<and> entries_ok (set d)"
  "\<lambda>bd pk d. \<forall>e \<in> set d. ev_id e \<noteq> ev_id (blob_entry w bd pk)" "\<lambda>d. entry_keepers (set d)" "\<lambda>_. True" for w v
  by (simp add: bucket_server_def blob_server_def slicestore.blobs.blob_index_axioms bucket.content_files_axioms)

text \<open>Requests one after the other, each with its time and the members then.\<close>

type_synonym blob_step = "timestamp \<times> (pubkey \<rightharpoonup> int) \<times> blossom_request"

definition blob_step ::
  "blossom_outside \<Rightarrow> ('f, 'b) blossom_server \<Rightarrow> blob_step \<Rightarrow> ('f, 'b) blob_state \<Rightarrow> ('f, 'b) blob_state" where
  "blob_step w v st s =
     (case st of (now, members, q) \<Rightarrow>
        case blossom_route (w\<lparr>bo_now := now\<rparr>) (v\<lparr>bv_members := members\<rparr>) q s of
          None \<Rightarrow> s
        | Some (_, s') \<Rightarrow> s')"

definition blob_run ::
  "blossom_outside \<Rightarrow> ('f, 'b) blossom_server \<Rightarrow> blob_step list \<Rightarrow> ('f, 'b) blob_state \<Rightarrow> ('f, 'b) blob_state" where
  "blob_run w v steps s = fold (blob_step w v) steps s"

lemma content_addressed_now [simp]:
  "content_addressed (w\<lparr>bo_now := now\<rparr>) files names s = content_addressed w files names s"
  by (simp add: content_addressed_def blob_hash_def)

lemma blob_run_addressed:
  assumes "bv_files v = s3_fs bucket_client"
  shows "content_addressed w (s3_fs bucket_client) (\<lambda>_. True) (bt_files s) \<Longrightarrow>
    content_addressed w (s3_fs bucket_client) (\<lambda>_. True) (bt_files (blob_run w v steps s))"
proof (induction steps arbitrary: s)
  case (Cons st steps)
  obtain now members q where st: "st = (now, members, q)" by (metis prod_cases3)
  have "content_addressed w (s3_fs bucket_client) (\<lambda>_. True) (bt_files (blob_step w v st s))"
  proof (cases "blossom_route (w\<lparr>bo_now := now\<rparr>) (v\<lparr>bv_members := members\<rparr>) q s")
    case None
    with Cons.prems st show ?thesis by (simp add: blob_step_def)
  next
    case (Some r)
    obtain ans s' where r: "r = (ans, s')" by fastforce
    from bucket.route_keeps_addressed [of "v\<lparr>bv_members := members\<rparr>" "w\<lparr>bo_now := now\<rparr>" s q ans s']
      Cons.prems assms Some r show ?thesis by (simp add: blob_step_def st)
  qed
  then have "content_addressed w (s3_fs bucket_client) (\<lambda>_. True) (bt_files (blob_run w v steps (blob_step w v st s)))"
    by (rule Cons.IH)
  then show ?case by (simp add: blob_run_def)
qed (simp add: blob_run_def)

text \<open>
  C36. Blobs are addressed by their content: whatever requests come, each object of the bucket is named by
  the hash of its bytes, and what a request for a hash is served has that hash.
\<close>

theorem blobs_content_addressed:
  assumes "bv_files v = s3_fs bucket_client"
    and "content_addressed w (s3_fs bucket_client) (\<lambda>_. True) (bt_files s)"
  shows "content_addressed w (s3_fs bucket_client) (\<lambda>_. True) (bt_files (blob_run w v steps s)) \<and>
    (\<forall>q nm t d s'. blossom_route w v q (blob_run w v steps s) = Some (BsServe nm t d, s') \<longrightarrow>
       path_hash (br_path q) = Some (blob_hash w d))"
proof (intro conjI allI impI)
  show a: "content_addressed w (s3_fs bucket_client) (\<lambda>_. True) (bt_files (blob_run w v steps s))"
    by (rule blob_run_addressed [OF assms])
  fix q nm t d s' assume "blossom_route w v q (blob_run w v steps s) = Some (BsServe nm t d, s')"
  then obtain h ext where h: "path_hash (br_path q) = Some h"
    "serve_blob w v h ext (blob_run w v steps s) = BsServe nm t d" by (rule route_serves)
  with bucket.served_has_hash [OF TrueI a path_hash_length [OF h(1)] assms(1) h(2)]
  show "path_hash (br_path q) = Some (blob_hash w d)" by simp
qed

subsection \<open>Changes need an authorization\<close>

lemma slice_save_sets: "set d \<subseteq> set (snd (slice_save e d)) \<and> set (snd (slice_save e d)) \<subseteq> insert e (set d)"
proof -
  have "set (take i d @ e # drop i d) = insert e (set d)" for i
    using append_take_drop_id [of i d] by (metis Un_insert_right list.simps(15) set_append)
  then show ?thesis by (auto simp: slice_save_def Let_def)
qed

lemma entry_keep_sets:
  "set d \<subseteq> set (snd (entry_keep w slice_ops bd pk d)) \<and>
   set (snd (entry_keep w slice_ops bd pk d)) \<subseteq> insert (blob_entry w bd pk) (set d)"
  using slice_save_sets [of d "blob_entry w bd pk"] by (auto simp: entry_keep_def slice_ops_def)

text \<open>The bucket is not written where it has the object.\<close>

lemma bucket_keeps_object:
  assumes "fo_open (s3_fs bucket_client) p s = Some x"
  shows "fo_open (s3_fs bucket_client) p (snd (store_blob (s3_fs bucket_client) h ext d s)) = Some x"
proof -
  have "sc_list bucket_client p s \<noteq> []"
    using assms by (force simp: s3_fs_def bucket_client_def filter_empty_conv starts_with_def dest: map_of_SomeD)
  with assms show ?thesis
    by (auto simp: s3_fs_def store_blob_def s3_save_def bucket_client_def map_of_other)
qed

lemma bucket_delete_opens:
  "fo_open (s3_fs bucket_client) p (snd (delete_blob (s3_fs bucket_client) h ext s)) =
     (if p = h @ ext then None else fo_open (s3_fs bucket_client) p s)"
  by (auto simp: s3_fs_def delete_blob_def bucket_client_def map_of_other map_of_dropped)

lemma bucket_server_simps [simp]:
  "bv_files (bucket_server w v) = s3_fs bucket_client" "bv_members (bucket_server w v) = bv_members v"
  "bv_index (bucket_server w v) = event_index w (bv_url v) slice_ops" "bv_url (bucket_server w v) = bv_url v"
  "bv_settings (bucket_server w v) = bv_settings v"
  by (simp_all add: bucket_server_def)


subsection \<open>Panics\<close>

lemma entry_list_returns:
  assumes "slice_inv d" "entries_ok (set d)"
  shows "entry_list w url slice_ops pk d \<noteq> Panicked"
proof -
  have "\<exists>h pk. is_entry h pk e" if "e \<in> set (slice_query (keeper_filter pk) 1000 d)" for e
    using slice_query_sound [OF that] assms(2) by (auto simp: entries_ok_def)
  moreover have "\<forall>e \<in> set es. \<exists>h pk. is_entry h pk e \<Longrightarrow> parse_entries w url es \<noteq> Panicked" for es
    by (induction es) (auto dest!: parse_entry_is [where w = w and url = url] split: outcome.splits)
  ultimately show ?thesis by (simp add: entry_list_def slice_ops_def)
qed


subsection \<open>An upload can be read back\<close>

lemma body_read_concat:
  "body_read k b = (data, e, b') \<Longrightarrow> data @ concat (bb_pieces b') = concat (bb_pieces b)"
  by (auto simp: body_read_def Let_def split: list.splits if_splits)

lemma body_read_eof:
  "body_read k b = (data, ReadEof, b') \<Longrightarrow> bb_pieces b' = []"
  by (auto simp: body_read_def body_end_def Let_def split: list.splits if_splits)

lemma read_rest_all: "read_rest want got b = Inr body \<Longrightarrow> body = got @ concat (bb_pieces b)"
proof (induction want got b rule: read_rest.induct)
  case (1 want got b)
  obtain data e b' where r: "body_read (want + 1 - length got) b = (data, e, b')" by (metis prod_cases3)
  have l: "\<not> want < length got" using "1.prems" by (subst (asm) read_rest.simps) (simp split: if_splits)
  have c: "data @ concat (bb_pieces b') = concat (bb_pieces b)" by (rule body_read_concat [OF r])
  show ?case
  proof (cases e)
    case ReadMore
    with l r "1.prems" have "read_rest want (got @ data) b' = Inr body"
      by (subst (asm) read_rest.simps) simp
    from "1.IH" [OF l r [symmetric] refl _ this] c ReadMore show ?thesis by simp
  next
    case ReadEof
    with l r "1.prems" have "body = got @ data" by (subst (asm) read_rest.simps) simp
    with c body_read_eof [OF r [unfolded ReadEof]] show ?thesis by simp
  next
    case ReadBroken
    with l r "1.prems" show ?thesis by (subst (asm) read_rest.simps) simp
  qed
qed

text \<open>The bytes of an upload whose first piece fills the first read.\<close>

lemma receive_upload_body:
  assumes "body_read (min 50 want) b = (data, e, b')" "min 50 want \<le> length (hd (bb_pieces b))" "bb_pieces b \<noteq> []"
    and "if length (first_bytes want data) < want then read_rest want (first_bytes want data) b' = Inr body
         else body = first_bytes want data"
    and "length body = want"
  shows "body = take want (concat (bb_pieces b))"
proof -
  have d: "length data = min 50 want"
    using assms(1,2,3) by (auto simp: body_read_def Let_def split: list.splits if_splits)
  then have s: "first_bytes want data = data" by (simp add: first_bytes_def)
  have "data @ concat (bb_pieces b') = concat (bb_pieces b)" by (rule body_read_concat [OF assms(1)])
  then show ?thesis
    using assms(4,5) read_rest_all unfolding s
    by (metis append_eq_conv_conj order_refl take_all)
qed

lemma hex_of_plain: "c \<in> set (hex_of x) \<Longrightarrow> c \<noteq> CHR ''.'' \<and> c \<noteq> CHR ''/''"
proof -
  have "hextable ! (n mod 16) \<in> set hextable" for n
    by (rule nth_mem) (simp add: hextable_def)
  then have "set (to_hex k n) \<subseteq> set hextable" for k n
    by (induction k arbitrary: n) auto
  moreover assume "c \<in> set (hex_of x)"
  ultimately have "c \<in> set hextable" unfolding hex_of_def by blast
  then show "c \<noteq> CHR ''.'' \<and> c \<noteq> CHR ''/''" by (auto simp: hextable_def)
qed

lemma blob_hash_path:
  "path_hash (''/'' @ blob_hash w d) = Some (blob_hash w d)" "is_blob_path (''/'' @ blob_hash w d)"
  "\<not> starts_with ''/list/'' (''/'' @ blob_hash w d)"
proof -
  have "CHR ''.'' \<notin> set (blob_hash w d)" and slash: "CHR ''/'' \<notin> set (blob_hash w d)"
    by (auto simp: blob_hash_def dest: hex_of_plain)
  then have t: "takeWhile (\<lambda>c. c \<noteq> CHR ''.'') (''/'' @ blob_hash w d) = ''/'' @ blob_hash w d"
    by (auto simp: takeWhile_eq_all_conv)
  show "path_hash (''/'' @ blob_hash w d) = Some (blob_hash w d)" unfolding path_hash_def t by simp
  show "is_blob_path (''/'' @ blob_hash w d)" using slash by (simp add: is_blob_path_def)
  show "\<not> starts_with ''/list/'' (''/'' @ blob_hash w d)"
  proof
    assume "starts_with ''/list/'' (''/'' @ blob_hash w d)"
    then have "take (length ''list/'') (blob_hash w d) = ''list/''" by (simp add: starts_with_def)
    then have "CHR ''/'' \<in> set (take (length ''list/'') (blob_hash w d))" by (simp only:) simp
    with slash show False by (meson in_set_takeD)
  qed
qed

text \<open>A blob nobody kept is found, after it is kept, with the type and time it was kept with.\<close>

lemma kept_is_found:
  assumes o: "slice_inv d" "entries_ok (set d)"
    and new: "\<forall>e \<in> set d. \<forall>pk. \<not> is_entry (bd_sha256 bd) pk e \<and> ev_id e \<noteq> ev_id (blob_entry w bd pk)"
  shows "\<exists>x. entry_get w url slice_ops (bd_sha256 bd) (snd (entry_keep w slice_ops bd pk d)) = IndexFound x \<and>
    bd_type x = bd_type bd \<and> bd_uploaded x = bd_uploaded bd"
proof -
  let ?e = "blob_entry w bd pk" and ?d = "snd (entry_keep w slice_ops bd pk d)"
  have q: "so_query slice_ops (own_filter (bd_sha256 bd) pk) 1 d = []"
    using slicestore.own_query [OF o, of "own_filter (bd_sha256 bd) pk" "bd_sha256 bd" pk] new by blast
  have "ev_id ?e \<notin> ev_id ` set d" using new by (metis imageE)
  then have u: "id_unique (insert ?e (set d))" using o(2) by (auto simp: entries_ok_def id_unique_def)
  have d: "?d = snd (slice_save ?e d)" using q by (simp add: entry_keep_def slice_ops_def)
  from slice_save_any [OF o(1) u] have s: "slice_inv ?d" "set ?d = insert ?e (set d)" by (simp_all add: d)
  have "?e \<in> set ?d" "filter_matches (blob_filter (bd_sha256 bd)) ?e"
    using s(2) blob_filter_entry [OF blob_entry_is] by simp_all
  with slicestore.query_empty [OF s(1), of "blob_filter (bd_sha256 bd)" 1] index_limits
  obtain e r where r: "slice_query (blob_filter (bd_sha256 bd)) 1 ?d = e # r"
    by (cases "slice_query (blob_filter (bd_sha256 bd)) 1 ?d") (auto simp: slice_ops_def)
  then have e: "e \<in> set ?d" "filter_matches (blob_filter (bd_sha256 bd)) e"
    using slice_query_sound [of e "blob_filter (bd_sha256 bd)" 1 ?d] by auto
  have "e = ?e"
  proof (rule ccontr)
    assume "e \<noteq> ?e"
    with e(1) s(2) have "e \<in> set d" by simp
    with entry_matches(2) [OF o(2) this] e(2) new show False by blast
  qed
  with r show ?thesis
    by (simp add: entry_get_def slice_ops_def parse_entry_def blob_entry_def Let_def zero_event_def)
qed

lemma bucket_stores_new:
  assumes "\<forall>e \<in> set s. \<not> starts_with h (fst e)"
  shows "store_blob (s3_fs bucket_client) h ext body s = (True, (h @ ext, body) # s) \<and>
    fo_open (s3_fs bucket_client) (h @ ext) ((h @ ext, body) # s) = Some body"
proof -
  have "\<not> starts_with (h @ ext) (fst e) \<and> fst e \<noteq> h @ ext" if "e \<in> set s" for e
  proof -
    have "starts_with h (fst e)" if "starts_with (h @ ext) (fst e)"
      using arg_cong [OF that [unfolded starts_with_def], of "take (length h)"]
      by (simp add: starts_with_def)
    moreover have "starts_with h (h @ ext)" by (simp add: starts_with_def)
    ultimately show ?thesis using assms that by metis
  qed
  then have "filter (\<lambda>e. starts_with (h @ ext) (fst e)) s = []" "filter (\<lambda>e. fst e \<noteq> h @ ext) s = s"
    by (auto simp: filter_empty_conv filter_id_conv)
  then show ?thesis by (simp add: store_blob_def s3_fs_def s3_save_def bucket_client_def)
qed


subsection \<open>At a concrete server\<close>

definition ex_grant :: event where
  "ex_grant = ex_event 2 24242 [[''t'', ''upload''], [''expiration'', ''2000'']]"

definition ex_blossom :: blossom_outside where
  "ex_blossom = \<lparr>bo_crypto = ex_crypto\<lparr>cr_hash := \<lambda>_. 77\<rparr>, bo_event = (\<lambda>_. Some ex_grant), bo_verify = (\<lambda>_. True),
     bo_sha256 = (\<lambda>d. word_of_nat (length d)), bo_magic = (\<lambda>_. Some ''png''),
     bo_type_by_extension = (\<lambda>_. ''image/png''), bo_extensions_by_type = (\<lambda>_. []), bo_redirect = (\<lambda>_ _. None),
     bo_names_word = (\<lambda>_ _. False), bo_mirror_url = (\<lambda>_. None), bo_fetch = (\<lambda>_. None), bo_now = 1000,
     bo_alloc_max = 2 ^ 48\<rparr>"

definition ex_server :: "((string \<times> string) list, slice_store) blossom_server" where
  "ex_server = \<lparr>bv_url = ''http://r'', bv_files = s3_fs bucket_client,
     bv_index = event_index ex_blossom ''http://r'' slice_ops, bv_settings = st_blossom (default_settings 7),
     bv_members = [2 \<mapsto> 1]\<rparr>"

definition ex_blob_request :: "string \<Rightarrow> string \<Rightarrow> string \<Rightarrow> blossom_request" where
  "ex_blob_request verb path token = \<lparr>br_method = verb, br_path = path, br_authorization = token,
     br_content_length = ''2'', br_content_type = [],
     br_body = \<lparr>bb_pieces = [''hi''], bb_breaks = False, bb_joined = True\<rparr>\<rparr>"

definition ex_descriptor :: blob_descriptor where
  "ex_descriptor = uploaded_descriptor ex_blossom ''http://r'' ''.png'' ''hi''"

definition ex_stored :: "((string \<times> string) list, slice_store) blob_state" where
  "ex_stored = \<lparr>bt_files = [(blob_hash ex_blossom ''hi'' @ ''.png'', ''hi'')],
     bt_index = [blob_entry ex_blossom ex_descriptor 2]\<rparr>"

lemma ex_grant_read: "read_authorization ex_blossom ''Nostr '' = AuthGiven ex_grant"
proof -
  have "b64_url_decode [] = Some []" by code_simp
  moreover have "int_value ''2000'' = 2000" by (simp add: int_value_def is_digit_def)
  ultimately show ?thesis
    by (simp add: read_authorization_def decode_authorization_token_def starts_with_def ex_blossom_def ex_grant_def)
qed

lemma ex_upload:
  "blossom_route ex_blossom (bucket_server ex_blossom ex_server) (ex_blob_request ''PUT'' ''/upload'' ''Nostr '')
     \<lparr>bt_files = [], bt_index = []\<rparr> = Some (BsDescriptor ex_descriptor, ex_stored)"
proof -
  have n: "int_value ''2'' = 2" by (simp add: int_value_def is_digit_def)
  have ext: "upload_extension ex_blossom [] ''hi'' = ''.png''"
    by (simp add: upload_extension_def ex_blossom_def)
  have store: "store_blob (s3_fs bucket_client) h x d [] = (True, [(h @ x, d)])" for h x d
    using bucket_stores_new [of "[]" h x d] by simp
  have keep: "entry_keep ex_blossom slice_ops bd pk [] = (True, [blob_entry ex_blossom bd pk])" for bd pk
    by (simp add: entry_keep_def slice_ops_def slice_query_def slice_save_def bsearch.simps [of _ "[]" 0 0] Let_def)
  have "body_read 2 \<lparr>bb_pieces = [''hi''], bb_breaks = False, bb_joined = True\<rparr> =
      (''hi'', ReadEof, \<lparr>bb_pieces = [], bb_breaks = False, bb_joined = True\<rparr>)"
    by (simp add: body_read_def body_end_def)
  moreover have "auth_for ex_grant ''upload''" "bv_members ex_server (ev_pubkey ex_grant) \<noteq> None"
    by (simp_all add: auth_for_def find_with_value_def ex_grant_def ex_server_def)
  moreover have "\<not> bo_alloc_max ex_blossom \<le> 2" by (simp add: ex_blossom_def)
  ultimately show ?thesis
    by (simp add: blossom_route_def handle_upload_def receive_upload_def ex_blob_request_def ex_grant_read n ext
        first_bytes_def reject_upload_def keep_and_store_def event_index_def keep store ex_stored_def ex_descriptor_def
        ex_server_def ex_grant_def Let_def)
qed

theorem blobs_content_addressed_witness:
  "content_addressed ex_blossom (s3_fs bucket_client) (\<lambda>_. True) (bt_files ex_stored)"
proof -
  let ?run = "blob_run ex_blossom (bucket_server ex_blossom ex_server)
    [(1000, [2 \<mapsto> 1], ex_blob_request ''PUT'' ''/upload'' ''Nostr '')] \<lparr>bt_files = [], bt_index = []\<rparr>"
  have "content_addressed ex_blossom (s3_fs bucket_client) (\<lambda>_. True) []"
    by (simp add: content_addressed_def s3_fs_def bucket_client_def)
  with blobs_content_addressed [of "bucket_server ex_blossom ex_server" ex_blossom "\<lparr>bt_files = [], bt_index = []\<rparr>"]
  have "content_addressed ex_blossom (s3_fs bucket_client) (\<lambda>_. True) (bt_files ?run)" by simp
  moreover have "ex_blossom\<lparr>bo_now := 1000\<rparr> = ex_blossom"
    "(bucket_server ex_blossom ex_server)\<lparr>bv_members := [2 \<mapsto> 1]\<rparr> = bucket_server ex_blossom ex_server"
    by (simp_all add: ex_blossom_def bucket_server_def ex_server_def)
  ultimately show ?thesis by (simp add: blob_run_def blob_step_def ex_upload)
qed




end
