(* ===== verification/Front.thy ===== *)
theory Front
  imports Http Custody
begin

text \<open>
  The whole web server: khatru's dispatch, then, where the serving relay has one, the Blossom server, then
  the routes of \<^verbatim>\<open>relay.go\<close>. A request comes with what only the Blossom handlers read of it.
\<close>

record blossom_part =
  bp_content_length :: string
  bp_body :: request_body

definition blossom_request_of :: "http_request \<Rightarrow> blossom_part \<Rightarrow> blossom_request" where
  "blossom_request_of q b =
     \<lparr>br_method = hq_method q, br_path = hq_path q, br_authorization = hq_authorization q,
      br_content_length = bp_content_length b, br_content_type = hq_content_type q, br_body = bp_body b\<rparr>"

text \<open>
  The server \<open>initBlossom\<close> builds: at the address of the relay, over the index of events, with the settings
  in force and the members of any group.
\<close>

definition blossom_of ::
  "blossom_outside \<Rightarrow> 'f fs_ops \<Rightarrow> 'b store_ops \<Rightarrow> string \<Rightarrow> 'd web_state \<Rightarrow> ('f, 'b) blossom_server" where
  "blossom_of bw files iops url s =
     \<lparr>bv_url = url, bv_files = files, bv_index = event_index bw url iops,
      bv_settings = st_blossom (gl_settings (wb_global s)), bv_members = gs_all_members (wb_groups s)\<rparr>"

definition serve_site ::
  "'d store_ops \<Rightarrow> 'b store_ops \<Rightarrow> 'f fs_ops \<Rightarrow> web_world \<Rightarrow> blossom_outside \<Rightarrow> http_request \<Rightarrow> blossom_part \<Rightarrow>
     'd web_state \<Rightarrow> ('f, 'b) blob_state \<Rightarrow>
     (web_response + blossom_answer) \<times> event list \<times> 'd web_state \<times> ('f, 'b) blob_state" where
  "serve_site ops iops files w bw q b s t =
     (let plain = (case serve_request ops w q s of (r, bs, s') \<Rightarrow> (Inl r, bs, s', t))
      in case wb_handler s of
           None \<Rightarrow> plain
         | Some r \<Rightarrow>
             if relay_answer w r q \<noteq> None \<or> \<not> ri_blossom r then plain
             else if unclean (split_at (CHR ''/'') (tl (hq_path q))) then (Inl WRedirect, [], s, t)
             else case blossom_route bw (blossom_of bw files iops (ri_service_url r) s) (blossom_request_of q b) t of
                    Some (a, t') \<Rightarrow> (Inr a, [], s, t')
                  | None \<Rightarrow> plain)"

lemma serve_site_cases:
  assumes "serve_site ops iops files w bw q b s t = (r, bs, s', t')"
  obtains x where "serve_request ops w q s = (x, bs, s')" "t' = t"
    | "bs = []" "s' = s" "t' = t"
    | a url where "bs = []" "s' = s" "r = Inr a"
        "blossom_route bw (blossom_of bw files iops url s) (blossom_request_of q b) t = Some (a, t')"
proof (cases "wb_handler s")
  case None
  with assms that(1) show ?thesis by (auto simp: serve_site_def Let_def split: prod.splits)
next
  case (Some x)
  with assms that show ?thesis
    by (auto simp: serve_site_def Let_def split: prod.splits if_splits option.splits)
qed


text \<open>What only reads, reads: a \<open>GET\<close> or \<open>HEAD\<close> request changes no blob.\<close>

lemma get_changes_no_blob:
  assumes "serve_site ops iops files w bw q b s t = (r, bs, s', t')" "hq_method q = ''GET'' \<or> hq_method q = ''HEAD''"
  shows "t' = t"
  using assms(1)
proof (cases rule: serve_site_cases)
  case (3 a url)
  with assms(2) show ?thesis
    by (auto simp: blossom_route_def blossom_request_of_def Let_def split: if_splits)
qed simp_all

definition ex_part :: blossom_part where
  "ex_part = \<lparr>bp_content_length = ''2'', bp_body = \<lparr>bb_pieces = [''hi''], bb_breaks = False, bb_joined = True\<rparr>\<rparr>"


end
