(* ===== verification/Spec2Isabelle.thy ===== *)
theory Spec2Isabelle
  imports Provenance Guard Conntrack Restart Front
begin

text \<open>
  \<^bold>\<open>croissant\<close>, a nostr relay for NIP-29 groups, verified.

  \<^bold>\<open>The program.\<close> Clients talk to the relay over websockets; the vendored library khatru decodes their
  messages and calls the relay's hooks. An event passes \<open>rejectEvent\<close>, is stored, and is then handed to
  \<open>ProcessEvent\<close>, which applies moderation actions to the groups in memory, stores and broadcasts the
  relay's own answers, and republishes the snapshots of every group it touched. A request passes
  \<open>rejectRequest\<close>; what is read from the store is filtered by \<open>hideEventFromReader\<close>. At start the
  groups are rebuilt from the stored moderation events. Around this core: a gate that keeps the memory
  mapped store open while anything uses it, the tracking of hijacked connections, settings with an
  owner's web form, a cache of presence answers, Blossom uploads over a file system or S3, LiveKit rooms,
  a log of events, and \<open>run\<close>, which starts and stops all of it.

  \<^bold>\<open>How the theories follow the code.\<close> Each theory opens with the files it models.

  \<^item> \<open>Prelude\<close>: outcomes of handlers that can panic, Go slices, decimal numbers, \<open>int64\<close>, binary search.
  \<^item> \<open>Nostr\<close>, \<open>Nip29\<close>, \<open>Store\<close>: the vendored data types the relay is written over. \<open>Nip29\<close> has decoding
    and applying of every moderation action and building of the published events; \<open>Store\<close> has the
    interface of an event store as the locale \<open>event_store\<close> with its laws, and the vendored slice store
    as the model the laws are proved for (\<open>slicestore\<close>).
  \<^item> \<open>Guard\<close> (\<^verbatim>\<open>guard.go\<close>, \<^verbatim>\<open>store.go\<close>): the gate as a sequential object, again an \<open>event_store\<close>, and as a
    step relation over any number of concurrent operations and the closing thread.
  \<^item> \<open>Settings\<close>, \<open>Text\<close>, \<open>Web\<close> (\<^verbatim>\<open>global/\<close>): settings, derived addresses, the rate limiter, Go's string
    functions, login, the settings file and form.
  \<^item> \<open>Presence\<close> (\<^verbatim>\<open>presence.go\<close>): the cached question whether a key has a profile on some relays.
  \<^item> \<open>GroupState\<close>, \<open>Restart\<close> (\<^verbatim>\<open>group.go\<close>, \<^verbatim>\<open>state.go\<close>): groups, parent links, the cycle walk, publication
    of snapshots, loading at start.
  \<^item> \<open>Reject\<close> (\<^verbatim>\<open>reject_event.go\<close>, \<^verbatim>\<open>giftwrap.go\<close>, \<^verbatim>\<open>utils.go\<close>), \<open>Process\<close> (\<^verbatim>\<open>process_event.go\<close>), \<open>Query\<close>
    (\<^verbatim>\<open>query.go\<close>, \<open>rejectRequest\<close>), \<open>Relay\<close> (\<^verbatim>\<open>relay.go\<close>, \<open>handleEventSaved\<close>, khatru's \<open>handleNormal\<close>): the
    pipeline, and the states outsiders can reach through it.
  \<^item> \<open>Forest\<close>, \<open>Publish\<close>: the parent links stay a forest; the snapshots settle. \<open>Examples\<close> has the concrete
    states the witnesses share.
  \<^item> \<open>Conntrack\<close>, \<open>Wipe\<close>, \<open>Lifecycle\<close>, \<open>Files\<close>, \<open>LiveKit\<close>, \<open>EventLog\<close>, \<open>WireLog\<close>: one theory for each of
    \<^verbatim>\<open>conntrack.go\<close>, \<^verbatim>\<open>wipe.go\<close>, \<^verbatim>\<open>main.go\<close> with the relay handler, \<^verbatim>\<open>blossom.go\<close> with \<^verbatim>\<open>fs/\<close> and
    \<^verbatim>\<open>favicon.go\<close>, \<^verbatim>\<open>livekit.go\<close>, \<^verbatim>\<open>eventlog.go\<close>, \<^verbatim>\<open>wire_log.go\<close>.
  \<^item> \<open>Html\<close>, \<open>Pages\<close>, \<open>Site\<close> (\<^verbatim>\<open>home_templ.go\<close>, \<^verbatim>\<open>group_templ.go\<close>, \<^verbatim>\<open>layout_templ.go\<close>): pages as lists of
    segments, literal or escaped or a checked URL, an automaton that reads HTML, and the two handlers.
  \<^item> \<open>BlobIndex\<close>, \<open>Blossom\<close> (vendored \<^verbatim>\<open>khatru/blossom/\<close>): the index of blobs in an event store and the
    handlers of uploads, mirrors, reads and deletions; \<open>Custody\<close> says what they promise.
  \<^item> \<open>Http\<close> (\<^verbatim>\<open>relay.go\<close>, \<^verbatim>\<open>main.go\<close>): the dispatch of a request, the route table, the login middleware and
    every handler behind it, on one state; \<open>Front\<close> puts the Blossom server before the routes.
  \<^item> \<open>Dispatch\<close>, \<open>Session\<close> (vendored khatru): who listens for what, and what the relay does with each message
    of each connection, down to the messages it sends; \<open>Provenance\<close> says where stored events come from.

  \<^bold>\<open>How the parts are composed.\<close> \<open>Session.hub_step\<close> is a step of the whole websocket side: it calls
  \<open>Relay.handle_normal\<close>, which calls \<open>reject_event\<close>, the store and \<open>process_event\<close>; it reads through
  \<open>Query.relay_query\<close> and broadcasts through the dispatcher and \<open>should_prevent_broadcast\<close>. The operations of
  a store are a record of functions, and so the gate and the plain store can stand for each other.
  \<open>Front.serve_site\<close> is the other entrance. Interfaces are locales, each interpreted on the model:
  \<open>event_store\<close> (slice store, gate), \<open>handler_invariant\<close> (what \<open>process_event\<close> keeps, for well-formedness,
  parent links and provenance), \<open>subscription_index\<close> (dispatcher), \<open>answer_cache\<close> (presence),
  \<open>blob_files\<close> and \<open>content_files\<close> (disk and S3), \<open>blob_index\<close> (every event store is one), \<open>blob_server\<close> (an
  index and files).

  \<^bold>\<open>What is shown.\<close> Of the core: every state outsiders reach is well-formed, no event of theirs panics a
  handler, accepted moderation comes from those entitled to it, every action has the effect NIP-29 gives it,
  parent links stay acyclic, a restart rebuilds the groups that were running, snapshots settle. Of reading:
  a connection receives an event only for a filter it was let in with, and a private group named in it
  only after proving a member's key. Of storing: every stored event is signed by its author or the relay,
  and deletions take one's own events only. Of the web: no value becomes markup, hidden groups and the
  owner's settings show to nobody else, without the owner's login nothing but LiveKit participants changes,
  the settings form posts back what it shows. Of blobs: files are named by their hash, a blob changes only
  for a signed authorization and goes only when nobody keeps it, an upload reads back, and the requests
  that make a handler panic are known exactly. Of the rest: the store is never touched after it is unmapped
  and is closed last, connections close once, caches change no answer, the limiter keeps its bound.

  \<^bold>\<open>Bounds and fuel.\<close> The walk up the parent links stops after \<open>max_depth\<close> links, as the code's does; it is
  exact below that. The recursion of \<open>process_event\<close> ends because the events it writes itself call it no
  further. Queries carry the code's own limits; the rings hold 50 and 128 ids, their counters are 32-bit
  words and wrap, and the theorems that need it say that a group has taken fewer than \<open>2 ^ 31 - 1\<close> events.
  The loop that reads an upload ends because each round uses up bytes or a piece of the body. Kinds are 16-bit, ids and keys 256-bit words, times are \<open>int64\<close> where the code computes with them.

  \<^bold>\<open>Parameters.\<close> Hashing, signatures and the curve check; JSON, URLs and NIP-19; the table of printable
  runes; the tables of content types and the detection by first bytes; the largest allocation; the disk, S3,
  the URLs blobs are mirrored from, the icon's server, the LiveKit service and the relays asked for presence; random
  numbers and the clock; and the order in which a map is walked.

  \<^bold>\<open>Not modelled.\<close> The memory mapped store itself (the slice store stands for it), the pprof listener, opening
  the log file, the texts beside the status of a Blossom error, CORS preflights, pings and flood control, the rounds
  of a negentropy session after the first, the expiration manager (the relay never starts it), the
  \<open>MergeIn\<close> functions a client of NIP-29 uses, and errors of writing to a client. Handlers run one after the
  other except where \<open>Guard\<close> and \<open>Conntrack\<close> interleave them; a query gives a snapshot while its loop
  deletes; a group that is its own parent is left out of the statement about its parent's children.
\<close>

end
